theory Spec2Isabelle
  imports Main "HOL-Library.AList" "HOL-Library.Multiset"
begin

section \<open>Shared constants\<close>

text \<open>
  The extension types are string literals in the source; the union of literals is a
  datatype here. The lists below are the constants of the shared constants file, in
  the order the source spreads them.
\<close>

datatype extension_type =
  Interface | Display | Layout | Module | Panel | Hook | Endpoint | Storage | Operation | Pack

definition APP_SHARED_DEPS :: "string list" where
  "APP_SHARED_DEPS = [''@directus/extensions-sdk'', ''vue'', ''vue-router'', ''vue-i18n'', ''pinia'']"

definition APP_WITHOUT_HYBRID_EXTENSION_TYPES :: "extension_type list" where
  "APP_WITHOUT_HYBRID_EXTENSION_TYPES = [Interface, Display, Layout, Module, Panel]"

definition API_WITHOUT_HYBRID_EXTENSION_TYPES :: "extension_type list" where
  "API_WITHOUT_HYBRID_EXTENSION_TYPES = [Hook, Endpoint, Storage]"

definition HYBRID_EXTENSION_TYPES :: "extension_type list" where
  "HYBRID_EXTENSION_TYPES = [Operation]"

definition APP_EXTENSION_TYPES :: "extension_type list" where
  "APP_EXTENSION_TYPES = APP_WITHOUT_HYBRID_EXTENSION_TYPES @ HYBRID_EXTENSION_TYPES"

definition API_EXTENSION_TYPES :: "extension_type list" where
  "API_EXTENSION_TYPES = API_WITHOUT_HYBRID_EXTENSION_TYPES @ HYBRID_EXTENSION_TYPES"

definition EXTENSION_TYPES :: "extension_type list" where
  "EXTENSION_TYPES =
     APP_WITHOUT_HYBRID_EXTENSION_TYPES @ API_WITHOUT_HYBRID_EXTENSION_TYPES @ HYBRID_EXTENSION_TYPES"

definition PACK_EXTENSION_TYPE :: extension_type where
  "PACK_EXTENSION_TYPE = Pack"

definition API_EXTENSION_PACKAGE_TYPES :: "extension_type list" where
  "API_EXTENSION_PACKAGE_TYPES = API_EXTENSION_TYPES @ [PACK_EXTENSION_TYPE]"

definition EXTENSION_PACKAGE_TYPES :: "extension_type list" where
  "EXTENSION_PACKAGE_TYPES = EXTENSION_TYPES @ [PACK_EXTENSION_TYPE]"

text \<open>The literal behind each type, as \<open>pluralize\<close> and the directory names need it.\<close>

fun type_literal :: "extension_type \<Rightarrow> string" where
  "type_literal Interface = ''interface''"
| "type_literal Display = ''display''"
| "type_literal Layout = ''layout''"
| "type_literal Module = ''module''"
| "type_literal Panel = ''panel''"
| "type_literal Hook = ''hook''"
| "type_literal Endpoint = ''endpoint''"
| "type_literal Storage = ''storage''"
| "type_literal Operation = ''operation''"
| "type_literal Pack = ''pack''"


section \<open>Data model\<close>

text \<open>
  An extension descriptor. The entrypoint is a single path, or an \<open>{app, api}\<close> pair
  for hybrid types. A pack descriptor carries no entrypoint in the source; no function
  below reads the field of a descriptor of type \<open>Pack\<close>. Where the shape of the
  entrypoint does not fit the type, the source passes an object or \<open>undefined\<close> to
  \<open>path.resolve\<close>, which throws a TypeError: those are the \<open>TypeError\<close> branches.
\<close>

datatype entrypoint = Entrypoint string | HybridEntrypoint string string

record extension =
  ext_path :: string
  ext_name :: string
  ext_type :: extension_type
  ext_entrypoint :: entrypoint
  ext_local :: bool

datatype error = JsError string | TypeError

text \<open>A JavaScript function value is known by its reference only.\<close>

type_synonym handler = string

text \<open>
  A hook module exports a register function. What the manager can observe of it is
  the sequence of calls it makes on the registration API it receives, and whether it
  then throws: \<open>hc_calls\<close> are the calls made before \<open>hc_throws\<close> is raised (if any).
\<close>

datatype hook_call =
    FilterCall string handler
  | ActionCall string handler
  | InitCall string handler
  | ScheduleCall string handler

record hook_config =
  hc_calls :: "hook_call list"
  hc_throws :: "error option"

text \<open>
  An endpoint handler attaches routes to the sub-router it is given, and may throw
  after that.
\<close>

record endpoint_handler =
  eh_routes :: "string list"
  eh_throws :: "error option"

datatype endpoint_config =
    EndpointFunction endpoint_handler
  | EndpointObject string endpoint_handler

record operation_config =
  oc_id :: string
  oc_handler :: handler

type_synonym storage_config = string

text \<open>What \<open>require\<close> returns: the configuration itself, or an object holding it as \<open>default\<close>.\<close>

datatype 'a module_export = Bare 'a | DefaultExport 'a

text \<open>
  Modelled from the spec: \<open>getModuleDefault\<close> (utils/get-module-default) is not among the
  sources. The spec has it "normalize its export into a single configuration value
  regardless of whether it was exported bare or wrapped as a default".
\<close>

fun getModuleDefault :: "'a module_export \<Rightarrow> 'a" where
  "getModuleDefault (Bare c) = c"
| "getModuleDefault (DefaultExport c) = c"

text \<open>
  Modelled from the spec: \<open>isHybridExtension\<close>, \<open>isExtensionObject\<close> and \<open>pluralize\<close>
  (shared utils) are not among the sources. A hybrid extension is "an extension type
  with separate client-side and server-side entrypoints", that is, a member of
  \<open>HYBRID_EXTENSION_TYPES\<close>; directories are "pluralized per-type subdirectories".
\<close>

definition isHybridExtension :: "extension_type \<Rightarrow> bool" where
  "isHybridExtension t = (t \<in> set HYBRID_EXTENSION_TYPES)"

definition isExtensionObject :: "extension \<Rightarrow> extension_type list \<Rightarrow> bool" where
  "isExtensionObject extension types = (ext_type extension \<in> set types)"

definition pluralize :: "string \<Rightarrow> string" where
  "pluralize str = str @ ''s''"


subsection \<open>Registries\<close>

datatype event_handler =
    FilterEvent string handler
  | ActionEvent string handler
  | InitEvent string handler
  | ScheduleEvent nat

record hook_binding =
  hb_path :: string
  hb_events :: "event_handler list"

text \<open>The storage registry holds whatever \<open>require\<close> returned for the path.\<close>

record storage_binding =
  sb_path :: string
  sb_config :: "storage_config module_export"

record api_extensions =
  hooks :: "hook_binding list"
  endpoints :: "string list"
  storages :: "storage_binding list"
  operations :: "string list"

record options =
  opt_schedule :: bool
  opt_watch :: bool

text \<open>\<open>Partial<Options>\<close>: a field is given or absent.\<close>

record partial_options =
  po_schedule :: "bool option"
  po_watch :: "bool option"


subsection \<open>Host subsystems\<close>

text \<open>
  Modelled from the spec: the emitter class (./emitter) is not among the sources. It is
  the "process-wide publish/subscribe channel used for filter/action/init events", whose
  bindings are "tagged with enough identity (event name plus handler reference) to be
  individually removed later"; \<open>offAll\<close> resets an emitter "wholesale".
\<close>

record emitter_state =
  em_filters :: "(string \<times> handler) list"
  em_actions :: "(string \<times> handler) list"
  em_inits :: "(string \<times> handler) list"

definition new_Emitter :: emitter_state where
  "new_Emitter = \<lparr>em_filters = [], em_actions = [], em_inits = []\<rparr>"

definition onFilter :: "string \<Rightarrow> handler \<Rightarrow> emitter_state \<Rightarrow> emitter_state" where
  "onFilter event h em = em\<lparr>em_filters := em_filters em @ [(event, h)]\<rparr>"

definition onAction :: "string \<Rightarrow> handler \<Rightarrow> emitter_state \<Rightarrow> emitter_state" where
  "onAction event h em = em\<lparr>em_actions := em_actions em @ [(event, h)]\<rparr>"

definition onInit :: "string \<Rightarrow> handler \<Rightarrow> emitter_state \<Rightarrow> emitter_state" where
  "onInit event h em = em\<lparr>em_inits := em_inits em @ [(event, h)]\<rparr>"

definition offFilter :: "string \<Rightarrow> handler \<Rightarrow> emitter_state \<Rightarrow> emitter_state" where
  "offFilter event h em = em\<lparr>em_filters := remove1 (event, h) (em_filters em)\<rparr>"

definition offAction :: "string \<Rightarrow> handler \<Rightarrow> emitter_state \<Rightarrow> emitter_state" where
  "offAction event h em = em\<lparr>em_actions := remove1 (event, h) (em_actions em)\<rparr>"

definition offInit :: "string \<Rightarrow> handler \<Rightarrow> emitter_state \<Rightarrow> emitter_state" where
  "offInit event h em = em\<lparr>em_inits := remove1 (event, h) (em_inits em)\<rparr>"

definition offAll :: "emitter_state \<Rightarrow> emitter_state" where
  "offAll em = new_Emitter"

text \<open>
  A recurring task of the cron library: its expression, the handler its callback wraps,
  and whether it is still scheduled. \<open>schedule\<close> starts it, \<open>stop\<close> ends it.
\<close>

record task =
  task_cron :: string
  task_handler :: handler
  task_running :: bool

datatype level = Info | Warn | Err

datatype message =
    WatchingExtensions
  | LoadedExtensions "string list"
  | ReloadingExtensions
  | AddedExtensions "string list"
  | RemovedExtensions "string list"
  | LoadBeforeReload
  | CouldntLoadExtensions
  | CouldntBundleAppExtensions
  | CouldntFindSharedDependency string
  | CouldntRegisterHook string
  | CouldntRegisterEndpoint string
  | CouldntRegisterStorage string
  | CouldntRegisterOperation "string option"
  | InvalidCron string
  | Thrown error

datatype rollup_outcome =
    RollupThrows error
  | GenerateThrows error
  | Generated string "error option"


subsection \<open>The environment\<close>

text \<open>
  Everything the manager reads from outside itself in one call: the process
  configuration, the file system as discovery and the module loader see it, and the
  libraries. A later call may be given another environment: that is how a reload sees
  changed files.
  \<^item> \<open>path_resolve\<close>, \<open>posix_join\<close> and \<open>path_sep\<close> are the path module's;
  \<open>rel_extensions_path\<close> is \<open>path.relative('.', env.EXTENSIONS_PATH)\<close> with posix
  separators.
  \<^item> \<open>require_hook\<close> and its siblings are \<open>require\<close> at the four places the source
  calls it, each with the type the source gives the result; \<open>Inl\<close> is a module that
  cannot be resolved or throws while loading.
  \<^item> \<open>globby_operations\<close> is the result of the glob for the internal operations.
  \<^item> \<open>rollup\<close> is the outcome of the three calls on the bundler for an entry:
  \<open>rollup()\<close> throws, \<open>generate()\<close> throws, or code is generated and \<open>close()\<close>
  returns or throws.
  \<^item> \<open>generateExtensionsEntry\<close> is the synthesis of the entry module of a type;
  \<open>Inl\<close> when it throws.
  \<^item> \<open>readdir_assets\<close> is the outcome of resolving the app package and reading its
  asset directory: the file names, or \<open>Inl\<close> when either throws.
  \<^item> \<open>asset_url\<close> is the root-relative URL built for a chunk from the public URL of
  the process; \<open>Inl\<close> when the URL class throws.
  \<^item> \<open>run_handler\<close> is what a scheduled handler does when it is awaited: \<open>Some e\<close>
  when it throws or rejects with \<open>e\<close>.
\<close>

record world =
  SERVE_APP :: bool
  EXTENSIONS_AUTO_RELOAD :: bool
  NODE_ENV :: string
  EXTENSIONS_PATH :: string
  rel_extensions_path :: string
  path_resolve :: "string list \<Rightarrow> string"
  posix_join :: "string list \<Rightarrow> string"
  path_sep :: char
  ensureExtensionDirs :: "string \<Rightarrow> extension_type list \<Rightarrow> error option"
  getPackageExtensions :: "string \<Rightarrow> extension_type list \<Rightarrow> error + extension list"
  getLocalExtensions :: "string \<Rightarrow> extension_type list \<Rightarrow> error + extension list"
  require_hook :: "string \<Rightarrow> error + hook_config module_export"
  require_endpoint :: "string \<Rightarrow> error + endpoint_config module_export"
  require_storage :: "string \<Rightarrow> error + storage_config module_export"
  require_operation :: "string \<Rightarrow> error + operation_config module_export"
  validate :: "string \<Rightarrow> bool"
  globby_operations :: "string list"
  generateExtensionsEntry :: "extension_type \<Rightarrow> extension list \<Rightarrow> error + string"
  rollup :: "string \<Rightarrow> string list \<Rightarrow> (string \<times> string) list \<Rightarrow> rollup_outcome"
  readdir_assets :: "error + string list"
  asset_url :: "string \<Rightarrow> error + string"
  run_handler :: "handler \<Rightarrow> error option"


subsection \<open>The state\<close>

text \<open>
  The fields of the manager, then the host state its methods change: the host-wide
  emitter, the tasks of the cron library, the operation registry of the flow manager,
  the log, the handlers that scheduled tasks have invoked, and the number of watchers
  that \<open>chokidar.watch\<close> has created. The endpoint router is its stack: one layer per
  mount, the mount path and the routes of the sub-router mounted there. A watcher is
  the list of the paths and patterns it tracks.
\<close>

record state =
  isLoaded :: bool
  options :: options
  extensions :: "extension list"
  appExtensions :: "extension_type \<rightharpoonup> string"
  apiExtensions :: api_extensions
  apiEmitter :: emitter_state
  endpointRouter :: "(string \<times> string list) list"
  watcher :: "string list option"
  emitter :: emitter_state
  cron_tasks :: "task list"
  flow_operations :: "(string \<times> handler) list"
  logs :: "(level \<times> message) list"
  invoked :: "handler list"
  watchers_created :: nat

definition logger :: "level \<Rightarrow> message \<Rightarrow> state \<Rightarrow> state" where
  "logger l m s = s\<lparr>logs := logs s @ [(l, m)]\<rparr>"

definition defaultOptions :: "world \<Rightarrow> options" where
  "defaultOptions w =
     \<lparr>opt_schedule = True,
      opt_watch = (EXTENSIONS_AUTO_RELOAD w \<and> NODE_ENV w \<noteq> ''development'')\<rparr>"

text \<open>The constructor, in a process where nothing has been registered yet.\<close>

definition new_ExtensionManager :: "world \<Rightarrow> state" where
  "new_ExtensionManager w =
     \<lparr>isLoaded = False,
      options = defaultOptions w,
      extensions = [],
      appExtensions = Map.empty,
      apiExtensions = \<lparr>hooks = [], endpoints = [], storages = [], operations = []\<rparr>,
      apiEmitter = new_Emitter,
      endpointRouter = [],
      watcher = None,
      emitter = new_Emitter,
      cron_tasks = [],
      flow_operations = [],
      logs = [],
      invoked = [],
      watchers_created = 0\<rparr>"

text \<open>
  \<open>getExtensionManager\<close>, given the module variable that holds the manager once it
  exists: the class is not exported, so this is the only way to a manager.
\<close>

definition getExtensionManager :: "world \<Rightarrow> state option \<Rightarrow> state" where
  "getExtensionManager w extensionManager =
     (case extensionManager of
        Some manager \<Rightarrow> manager
      | None \<Rightarrow> new_ExtensionManager w)"


section \<open>Read accessors\<close>

definition getExtensionsList :: "extension_type option \<Rightarrow> state \<Rightarrow> string list" where
  "getExtensionsList type s =
     (case type of
        None \<Rightarrow> map ext_name (extensions s)
      | Some t \<Rightarrow> map ext_name (filter (\<lambda>extension. ext_type extension = t) (extensions s)))"

definition getAppExtensions :: "extension_type \<Rightarrow> state \<Rightarrow> string option" where
  "getAppExtensions type s = appExtensions s type"

definition getApiExtensions :: "state \<Rightarrow> api_extensions" where
  "getApiExtensions s = apiExtensions s"

definition getEndpointRouter :: "state \<Rightarrow> (string \<times> string list) list" where
  "getEndpointRouter s = endpointRouter s"


section \<open>Discovery\<close>

definition getExtensions :: "world \<Rightarrow> error + extension list" where
  "getExtensions w =
     (case getPackageExtensions w ''.''
             (if SERVE_APP w then EXTENSION_PACKAGE_TYPES else API_EXTENSION_PACKAGE_TYPES) of
        Inl err \<Rightarrow> Inl err
      | Inr packageExtensions \<Rightarrow>
          (case getLocalExtensions w (EXTENSIONS_PATH w)
                  (if SERVE_APP w then EXTENSION_TYPES else API_EXTENSION_TYPES) of
             Inl err \<Rightarrow> Inl err
           | Inr localExtensions \<Rightarrow> Inr (packageExtensions @ localExtensions)))"

text \<open>
  The \<open>try\<close> block at the head of \<open>load\<close>: the descriptor list is assigned only when
  both awaited calls return; the \<open>catch\<close> logs two warnings and assigns nothing.
\<close>

definition discover :: "world \<Rightarrow> state \<Rightarrow> state" where
  "discover w s =
     (case ensureExtensionDirs w (EXTENSIONS_PATH w)
             (if SERVE_APP w then EXTENSION_TYPES else API_EXTENSION_TYPES) of
        Some err \<Rightarrow> logger Warn (Thrown err) (logger Warn CouldntLoadExtensions s)
      | None \<Rightarrow>
          (case getExtensions w of
             Inl err \<Rightarrow> logger Warn (Thrown err) (logger Warn CouldntLoadExtensions s)
           | Inr found \<Rightarrow> s\<lparr>extensions := found\<rparr>))"


section \<open>Registrars\<close>

subsection \<open>Hooks\<close>

text \<open>
  The four functions of \<open>registerFunctions\<close>, applied to the binding record under
  construction (\<open>hookHandler\<close>) and the state. A scheduled task is known by its
  position in the task list of the cron library.
\<close>

fun registerFunctions :: "world \<Rightarrow> hook_call \<Rightarrow> hook_binding \<times> state \<Rightarrow> hook_binding \<times> state" where
  "registerFunctions w (FilterCall event h) (hookHandler, s) =
     (hookHandler\<lparr>hb_events := hb_events hookHandler @ [FilterEvent event h]\<rparr>,
      s\<lparr>emitter := onFilter event h (emitter s)\<rparr>)"
| "registerFunctions w (ActionCall event h) (hookHandler, s) =
     (hookHandler\<lparr>hb_events := hb_events hookHandler @ [ActionEvent event h]\<rparr>,
      s\<lparr>emitter := onAction event h (emitter s)\<rparr>)"
| "registerFunctions w (InitCall event h) (hookHandler, s) =
     (hookHandler\<lparr>hb_events := hb_events hookHandler @ [InitEvent event h]\<rparr>,
      s\<lparr>emitter := onInit event h (emitter s)\<rparr>)"
| "registerFunctions w (ScheduleCall cron h) (hookHandler, s) =
     (if validate w cron
      then (hookHandler\<lparr>hb_events := hb_events hookHandler @ [ScheduleEvent (length (cron_tasks s))]\<rparr>,
            s\<lparr>cron_tasks := cron_tasks s @ [\<lparr>task_cron = cron, task_handler = h, task_running = True\<rparr>]\<rparr>)
      else (hookHandler, logger Warn (InvalidCron cron) s))"

text \<open>
  \<open>registerHook\<close>: the register function runs its calls; when it throws, the error
  leaves \<open>registerHook\<close> before the binding record is pushed.
\<close>

definition registerHook :: "world \<Rightarrow> hook_config \<Rightarrow> string \<Rightarrow> state \<Rightarrow> error option \<times> state" where
  "registerHook w register path s =
     (let (hookHandler, s1) =
            fold (registerFunctions w) (hc_calls register) (\<lparr>hb_path = path, hb_events = []\<rparr>, s)
      in case hc_throws register of
           Some err \<Rightarrow> (Some err, s1)
         | None \<Rightarrow>
             (None, s1\<lparr>apiExtensions :=
                (apiExtensions s1)\<lparr>hooks := hooks (apiExtensions s1) @ [hookHandler]\<rparr>\<rparr>))"

definition registerHooks_try :: "world \<Rightarrow> extension \<Rightarrow> state \<Rightarrow> state" where
  "registerHooks_try w hook s =
     (case ext_entrypoint hook of
        HybridEntrypoint a b \<Rightarrow>
          logger Warn (Thrown TypeError) (logger Warn (CouldntRegisterHook (ext_name hook)) s)
      | Entrypoint ep \<Rightarrow>
          (let hookPath = path_resolve w [ext_path hook, ep] in
           case require_hook w hookPath of
             Inl err \<Rightarrow>
               logger Warn (Thrown err) (logger Warn (CouldntRegisterHook (ext_name hook)) s)
           | Inr hookInstance \<Rightarrow>
               (let config = getModuleDefault hookInstance in
                case registerHook w config hookPath s of
                  (Some err, s1) \<Rightarrow>
                    logger Warn (Thrown err) (logger Warn (CouldntRegisterHook (ext_name hook)) s1)
                | (None, s1) \<Rightarrow> s1)))"

definition registerHooks :: "world \<Rightarrow> state \<Rightarrow> state" where
  "registerHooks w s =
     fold (registerHooks_try w) (filter (\<lambda>extension. ext_type extension = Hook) (extensions s)) s"


subsection \<open>Endpoints\<close>

text \<open>
  \<open>registerEndpoint\<close>: the fresh sub-router is mounted first, then the handler attaches
  its routes to it; the path is recorded only when the handler returns.
\<close>

definition registerEndpoint ::
  "endpoint_config \<Rightarrow> string \<Rightarrow> string \<Rightarrow> state \<Rightarrow> error option \<times> state" where
  "registerEndpoint config path name s =
     (let register = (case config of EndpointFunction f \<Rightarrow> f | EndpointObject ident f \<Rightarrow> f);
          routeName = (case config of EndpointFunction f \<Rightarrow> name | EndpointObject ident f \<Rightarrow> ident);
          scopedRouter = [];
          s1 = s\<lparr>endpointRouter :=
                   endpointRouter s @ [(''/'' @ routeName, scopedRouter @ eh_routes register)]\<rparr>
      in case eh_throws register of
           Some err \<Rightarrow> (Some err, s1)
         | None \<Rightarrow>
             (None, s1\<lparr>apiExtensions :=
                (apiExtensions s1)\<lparr>endpoints := endpoints (apiExtensions s1) @ [path]\<rparr>\<rparr>))"

definition registerEndpoints_try :: "world \<Rightarrow> extension \<Rightarrow> state \<Rightarrow> state" where
  "registerEndpoints_try w endpoint s =
     (case ext_entrypoint endpoint of
        HybridEntrypoint a b \<Rightarrow>
          logger Warn (Thrown TypeError) (logger Warn (CouldntRegisterEndpoint (ext_name endpoint)) s)
      | Entrypoint ep \<Rightarrow>
          (let endpointPath = path_resolve w [ext_path endpoint, ep] in
           case require_endpoint w endpointPath of
             Inl err \<Rightarrow>
               logger Warn (Thrown err) (logger Warn (CouldntRegisterEndpoint (ext_name endpoint)) s)
           | Inr endpointInstance \<Rightarrow>
               (let config = getModuleDefault endpointInstance in
                case registerEndpoint config endpointPath (ext_name endpoint) s of
                  (Some err, s1) \<Rightarrow>
                    logger Warn (Thrown err)
                      (logger Warn (CouldntRegisterEndpoint (ext_name endpoint)) s1)
                | (None, s1) \<Rightarrow> s1)))"

definition registerEndpoints :: "world \<Rightarrow> state \<Rightarrow> state" where
  "registerEndpoints w s =
     fold (registerEndpoints_try w)
       (filter (\<lambda>extension. ext_type extension = Endpoint) (extensions s)) s"


subsection \<open>Storages\<close>

definition registerStorages_try :: "world \<Rightarrow> extension \<Rightarrow> state \<Rightarrow> state" where
  "registerStorages_try w storage s =
     (case ext_entrypoint storage of
        HybridEntrypoint a b \<Rightarrow>
          logger Warn (Thrown TypeError) (logger Warn (CouldntRegisterStorage (ext_name storage)) s)
      | Entrypoint ep \<Rightarrow>
          (let storagePath = path_resolve w [ext_path storage, ep] in
           case require_storage w storagePath of
             Inl err \<Rightarrow>
               logger Warn (Thrown err) (logger Warn (CouldntRegisterStorage (ext_name storage)) s)
           | Inr exported \<Rightarrow>
               s\<lparr>apiExtensions :=
                  (apiExtensions s)\<lparr>storages := storages (apiExtensions s) @
                     [\<lparr>sb_path = storagePath, sb_config = exported\<rparr>]\<rparr>\<rparr>))"

definition registerStorages :: "world \<Rightarrow> state \<Rightarrow> state" where
  "registerStorages w s =
     fold (registerStorages_try w)
       (filter (\<lambda>extension. ext_type extension = Storage) (extensions s)) s"


subsection \<open>Operations\<close>

text \<open>\<open>String.prototype.split\<close> on a one-character separator, and \<open>Array.prototype.join\<close>.\<close>

fun split :: "char \<Rightarrow> string \<Rightarrow> string list" where
  "split c [] = [[]]"
| "split c (x # xs) =
     (if x = c then [] # split c xs
      else (case split c xs of [] \<Rightarrow> [[x]] | y # ys \<Rightarrow> (x # y) # ys))"

fun join :: "string \<Rightarrow> string list \<Rightarrow> string" where
  "join sep [] = []"
| "join sep [x] = x"
| "join sep (x # y # ys) = x @ sep @ join sep (y # ys)"

text \<open>
  What the loop of \<open>registerOperations\<close> reads of its items, which are the objects
  built for the internal operations followed by the descriptors of type operation:
  the name, the path and \<open>entrypoint.api\<close>. An index outside the array and a property
  of a string are \<open>undefined\<close>, here \<open>None\<close>.
\<close>

record operation_source =
  os_name :: "string option"
  os_path :: string
  os_api :: "string option"

definition internalOperation :: "char \<Rightarrow> string \<Rightarrow> operation_source" where
  "internalOperation sep internalPath =
     (let dirs = split sep internalPath in
      \<lparr>os_name = (if 2 \<le> length dirs then Some (dirs ! (length dirs - 2)) else None),
       os_path = join [sep] (butlast dirs),
       os_api = (if dirs = [] then None else Some (last dirs))\<rparr>)"

definition internalOperations :: "world \<Rightarrow> operation_source list" where
  "internalOperations w = map (internalOperation (path_sep w)) (globby_operations w)"

definition operation_of_extension :: "extension \<Rightarrow> operation_source" where
  "operation_of_extension extension =
     \<lparr>os_name = Some (ext_name extension),
      os_path = ext_path extension,
      os_api = (case ext_entrypoint extension of
                  HybridEntrypoint app api \<Rightarrow> Some api
                | Entrypoint ep \<Rightarrow> None)\<rparr>"

definition registerOperation :: "operation_config \<Rightarrow> string \<Rightarrow> state \<Rightarrow> state" where
  "registerOperation config path s =
     (let s1 = s\<lparr>flow_operations := flow_operations s @ [(oc_id config, oc_handler config)]\<rparr>
      in s1\<lparr>apiExtensions :=
            (apiExtensions s1)\<lparr>operations := operations (apiExtensions s1) @ [path]\<rparr>\<rparr>)"

definition registerOperations_try :: "world \<Rightarrow> operation_source \<Rightarrow> state \<Rightarrow> state" where
  "registerOperations_try w operation s =
     (case os_api operation of
        None \<Rightarrow>
          logger Warn (Thrown TypeError) (logger Warn (CouldntRegisterOperation (os_name operation)) s)
      | Some api \<Rightarrow>
          (let operationPath = path_resolve w [os_path operation, api] in
           case require_operation w operationPath of
             Inl err \<Rightarrow>
               logger Warn (Thrown err)
                 (logger Warn (CouldntRegisterOperation (os_name operation)) s)
           | Inr operationInstance \<Rightarrow>
               (let config = getModuleDefault operationInstance in
                registerOperation config operationPath s)))"

definition registerOperations :: "world \<Rightarrow> state \<Rightarrow> state" where
  "registerOperations w s =
     (let operations = filter (\<lambda>extension. ext_type extension = Operation) (extensions s)
      in fold (registerOperations_try w)
           (internalOperations w @ map operation_of_extension operations) s)"


section \<open>Unregistrars\<close>

text \<open>
  Modelled from the spec: the task object of the cron library and the flow manager
  (./flows) are not among the sources. "Recurring tasks are stopped"; the operation
  registry receives \<open>(id, handler)\<close> and "unregistration clears that entire registry at
  once". The deletions from the module cache of \<open>require\<close> are left out: the module
  loader of the environment answers every \<open>require\<close>.
\<close>

definition task_stop :: "nat \<Rightarrow> task list \<Rightarrow> task list" where
  "task_stop i ts = (if i < length ts then ts[i := (ts ! i)\<lparr>task_running := False\<rparr>] else ts)"

fun unregister_event :: "event_handler \<Rightarrow> state \<Rightarrow> state" where
  "unregister_event (FilterEvent name h) s = s\<lparr>emitter := offFilter name h (emitter s)\<rparr>"
| "unregister_event (ActionEvent name h) s = s\<lparr>emitter := offAction name h (emitter s)\<rparr>"
| "unregister_event (InitEvent name h) s = s\<lparr>emitter := offInit name h (emitter s)\<rparr>"
| "unregister_event (ScheduleEvent i) s = s\<lparr>cron_tasks := task_stop i (cron_tasks s)\<rparr>"

definition unregisterHooks :: "state \<Rightarrow> state" where
  "unregisterHooks s =
     (let s1 = fold (\<lambda>hook. fold unregister_event (hb_events hook)) (hooks (apiExtensions s)) s
      in s1\<lparr>apiExtensions := (apiExtensions s1)\<lparr>hooks := []\<rparr>\<rparr>)"

definition unregisterEndpoints :: "state \<Rightarrow> state" where
  "unregisterEndpoints s =
     (let s1 = s\<lparr>endpointRouter := []\<rparr>
      in s1\<lparr>apiExtensions := (apiExtensions s1)\<lparr>endpoints := []\<rparr>\<rparr>)"

definition unregisterStorages :: "state \<Rightarrow> state" where
  "unregisterStorages s = s\<lparr>apiExtensions := (apiExtensions s)\<lparr>storages := []\<rparr>\<rparr>"

definition unregisterOperations :: "state \<Rightarrow> state" where
  "unregisterOperations s =
     (let s1 = s\<lparr>flow_operations := []\<rparr>
      in s1\<lparr>apiExtensions := (apiExtensions s1)\<lparr>operations := []\<rparr>\<rparr>)"


section \<open>Bundler\<close>

text \<open>
  The regular expression built for a dependency, as the list of what each character of
  a match has to be: the name with every slash replaced by an underscore, a dot, eight
  lower-case hexadecimal digits, and \<open>.entry.js\<close>. \<open>test\<close> looks for a match
  anywhere in the file name.
\<close>

definition is_hex :: "char \<Rightarrow> bool" where
  "is_hex c = (c \<in> set ''0123456789abcdef'')"

definition depRegex :: "string \<Rightarrow> (char \<Rightarrow> bool) list" where
  "depRegex dep =
     map (\<lambda>c x. x = c) (map (\<lambda>c. if c = CHR ''/'' then CHR ''_'' else c) dep @ ''.'') @
     replicate 8 is_hex @
     map (\<lambda>c x. x = c) ''.entry.js''"

fun match_here :: "(char \<Rightarrow> bool) list \<Rightarrow> string \<Rightarrow> bool" where
  "match_here [] cs = True"
| "match_here (p # ps) [] = False"
| "match_here (p # ps) (c # cs) = (p c \<and> match_here ps cs)"

fun regex_test :: "(char \<Rightarrow> bool) list \<Rightarrow> string \<Rightarrow> bool" where
  "regex_test ps [] = match_here ps []"
| "regex_test ps (c # cs) = (match_here ps (c # cs) \<or> regex_test ps cs)"

text \<open>
  The loop of \<open>getSharedDepsMapping\<close> over the dependencies, given the names in the
  asset directory. Nothing here is inside a \<open>try\<close>: what the URL class throws leaves
  the function, and so does what reading the directory throws.
\<close>

fun getSharedDepsMapping_loop ::
  "world \<Rightarrow> string list \<Rightarrow> string list \<Rightarrow> (string \<times> string) list \<times> state \<Rightarrow>
   (error + (string \<times> string) list) \<times> state" where
  "getSharedDepsMapping_loop w appDir [] (depsMapping, s) = (Inr depsMapping, s)"
| "getSharedDepsMapping_loop w appDir (dep # deps) (depsMapping, s) =
     (case find (regex_test (depRegex dep)) appDir of
        Some depName \<Rightarrow>
          (case asset_url w depName of
             Inl err \<Rightarrow> (Inl err, s)
           | Inr depUrl \<Rightarrow>
               getSharedDepsMapping_loop w appDir deps (AList.update dep depUrl depsMapping, s))
      | None \<Rightarrow>
          getSharedDepsMapping_loop w appDir deps
            (depsMapping, logger Warn (CouldntFindSharedDependency dep) s))"

definition getSharedDepsMapping ::
  "world \<Rightarrow> string list \<Rightarrow> state \<Rightarrow> (error + (string \<times> string) list) \<times> state" where
  "getSharedDepsMapping w deps s =
     (case readdir_assets w of
        Inl err \<Rightarrow> (Inl err, s)
      | Inr appDir \<Rightarrow> getSharedDepsMapping_loop w appDir deps ([], s))"

text \<open>
  The \<open>try\<close> block of one turn of the loop over the browser-facing types, given the
  entry of the type. The bundle is stored after \<open>generate\<close> and before \<open>close\<close>; the
  \<open>catch\<close> logs two warnings whichever call threw.
\<close>

fun bundle_type ::
  "world \<Rightarrow> (string \<times> string) list \<Rightarrow> extension_type \<Rightarrow> string \<Rightarrow>
   (extension_type \<rightharpoonup> string) \<times> state \<Rightarrow> (extension_type \<rightharpoonup> string) \<times> state" where
  "bundle_type w sharedDepsMapping extensionType entry (bundles, s) =
     (let internalImports = map (\<lambda>(name, path). (name, path)) sharedDepsMapping
      in case rollup w entry (map snd sharedDepsMapping) internalImports of
           RollupThrows err \<Rightarrow>
             (bundles, logger Warn (Thrown err) (logger Warn CouldntBundleAppExtensions s))
         | GenerateThrows err \<Rightarrow>
             (bundles, logger Warn (Thrown err) (logger Warn CouldntBundleAppExtensions s))
         | Generated code closed \<Rightarrow>
             (case closed of
                None \<Rightarrow> (bundles(extensionType \<mapsto> code), s)
              | Some err \<Rightarrow>
                  (bundles(extensionType \<mapsto> code),
                   logger Warn (Thrown err) (logger Warn CouldntBundleAppExtensions s))))"

text \<open>
  The loop over the types. The entry of a type is generated before the \<open>try\<close>: when
  that throws, the loop is left and no bundle map is returned.
\<close>

fun bundle_loop ::
  "world \<Rightarrow> (string \<times> string) list \<Rightarrow> extension_type list \<Rightarrow>
   (extension_type \<rightharpoonup> string) \<times> state \<Rightarrow> (error + (extension_type \<rightharpoonup> string)) \<times> state" where
  "bundle_loop w sharedDepsMapping [] (bundles, s) = (Inr bundles, s)"
| "bundle_loop w sharedDepsMapping (extensionType # types) (bundles, s) =
     (case generateExtensionsEntry w extensionType (extensions s) of
        Inl err \<Rightarrow> (Inl err, s)
      | Inr entry \<Rightarrow>
          bundle_loop w sharedDepsMapping types
            (bundle_type w sharedDepsMapping extensionType entry (bundles, s)))"

definition bundle_types ::
  "world \<Rightarrow> (string \<times> string) list \<Rightarrow> extension_type list \<Rightarrow> state \<Rightarrow>
   (error + (extension_type \<rightharpoonup> string)) \<times> state" where
  "bundle_types w sharedDepsMapping types s = bundle_loop w sharedDepsMapping types (Map.empty, s)"

definition generateExtensionBundles ::
  "world \<Rightarrow> state \<Rightarrow> (error + (extension_type \<rightharpoonup> string)) \<times> state" where
  "generateExtensionBundles w s =
     (case getSharedDepsMapping w APP_SHARED_DEPS s of
        (Inl err, s1) \<Rightarrow> (Inl err, s1)
      | (Inr sharedDepsMapping, s1) \<Rightarrow> bundle_types w sharedDepsMapping APP_EXTENSION_TYPES s1)"


section \<open>Lifecycle\<close>

text \<open>
  \<open>load\<close>: the error it rejects with, if any, and the state it leaves. The registrars
  catch what their extensions throw; the bundler's steps outside its \<open>try\<close> do not, and
  what they throw leaves \<open>load\<close> before the bundle map and the loaded flag are assigned.
\<close>

definition load :: "world \<Rightarrow> state \<Rightarrow> error option \<times> state" where
  "load w s =
     (let s1 = discover w s;
          s2 = registerHooks w s1;
          s3 = registerEndpoints w s2;
          s4 = registerStorages w s3;
          s5 = registerOperations w s4
      in if SERVE_APP w
         then (case generateExtensionBundles w s5 of
                 (Inl err, s') \<Rightarrow> (Some err, s')
               | (Inr bundles, s') \<Rightarrow> (None, s'\<lparr>appExtensions := bundles, isLoaded := True\<rparr>))
         else (None, s5\<lparr>isLoaded := True\<rparr>))"

definition unload :: "world \<Rightarrow> state \<Rightarrow> state" where
  "unload w s =
     (let s1 = unregisterHooks s;
          s2 = unregisterEndpoints s1;
          s3 = unregisterStorages s2;
          s4 = unregisterOperations s3;
          s5 = s4\<lparr>apiEmitter := offAll (apiEmitter s4)\<rparr>;
          s6 = (if SERVE_APP w then s5\<lparr>appExtensions := Map.empty\<rparr> else s5)
      in s6\<lparr>isLoaded := False\<rparr>)"


section \<open>Watcher\<close>

text \<open>
  Modelled from the spec: the file watcher is a library object; here it is the list of
  what it tracks. \<open>add\<close> makes it track more paths, \<open>unwatch\<close> makes it stop tracking
  the given ones ("files belonging to newly added extensions are added to the watch
  set; files belonging to removed extensions are unwatched").
\<close>

definition watcher_add :: "string list \<Rightarrow> string list \<Rightarrow> string list" where
  "watcher_add paths tracked = tracked @ paths"

definition watcher_unwatch :: "string list \<Rightarrow> string list \<Rightarrow> string list" where
  "watcher_unwatch paths tracked = filter (\<lambda>p. p \<notin> set paths) tracked"

definition localExtensionPaths :: "world \<Rightarrow> string list" where
  "localExtensionPaths w =
     concat (map (\<lambda>type.
        let typeDir = posix_join w [rel_extensions_path w, pluralize (type_literal type)]
        in if isHybridExtension type
           then [posix_join w [typeDir, ''*'', ''app.js''], posix_join w [typeDir, ''*'', ''api.js'']]
           else [posix_join w [typeDir, ''*'', ''index.js'']])
       (if SERVE_APP w then EXTENSION_TYPES else API_EXTENSION_TYPES))"

definition initializeWatcher :: "world \<Rightarrow> state \<Rightarrow> state" where
  "initializeWatcher w s =
     (if opt_watch (options s) \<and> watcher s = None
      then (let s1 = logger Info WatchingExtensions s
            in s1\<lparr>watcher := Some (path_resolve w [''package.json''] # localExtensionPaths w),
                  watchers_created := Suc (watchers_created s1)\<rparr>)
      else s)"

text \<open>
  The callback of the \<open>flatMap\<close> in \<open>toPackageExtensionPaths\<close>, and the \<open>flatMap\<close>
  itself, which stops at the first callback that throws.
\<close>

definition extension_files :: "world \<Rightarrow> extension \<Rightarrow> error + string list" where
  "extension_files w extension =
     (if ext_type extension = PACK_EXTENSION_TYPE
      then Inr [path_resolve w [ext_path extension, ''package.json'']]
      else if isExtensionObject extension HYBRID_EXTENSION_TYPES
      then (case ext_entrypoint extension of
              HybridEntrypoint app api \<Rightarrow>
                Inr [path_resolve w [ext_path extension, app], path_resolve w [ext_path extension, api]]
            | Entrypoint ep \<Rightarrow> Inl TypeError)
      else (case ext_entrypoint extension of
              Entrypoint ep \<Rightarrow> Inr [path_resolve w [ext_path extension, ep]]
            | HybridEntrypoint app api \<Rightarrow> Inl TypeError))"

fun flatMap :: "('a \<Rightarrow> error + 'b list) \<Rightarrow> 'a list \<Rightarrow> error + 'b list" where
  "flatMap f [] = Inr []"
| "flatMap f (x # xs) =
     (case f x of
        Inl err \<Rightarrow> Inl err
      | Inr ys \<Rightarrow> (case flatMap f xs of Inl err \<Rightarrow> Inl err | Inr zs \<Rightarrow> Inr (ys @ zs)))"

definition toPackageExtensionPaths :: "world \<Rightarrow> extension list \<Rightarrow> error + string list" where
  "toPackageExtensionPaths w exts =
     flatMap (extension_files w) (filter (\<lambda>extension. \<not> ext_local extension) exts)"

definition updateWatchedExtensions ::
  "world \<Rightarrow> extension list \<Rightarrow> extension list \<Rightarrow> state \<Rightarrow> error option \<times> state" where
  "updateWatchedExtensions w added removed s =
     (case watcher s of
        None \<Rightarrow> (None, s)
      | Some tracked \<Rightarrow>
          (case toPackageExtensionPaths w added of
             Inl err \<Rightarrow> (Some err, s)
           | Inr addedPackageExtensionPaths \<Rightarrow>
               (case toPackageExtensionPaths w removed of
                  Inl err \<Rightarrow> (Some err, s)
                | Inr removedPackageExtensionPaths \<Rightarrow>
                    (None, s\<lparr>watcher := Some (watcher_unwatch removedPackageExtensionPaths
                                (watcher_add addedPackageExtensionPaths tracked))\<rparr>))))"


section \<open>Initialize and reload\<close>

definition initialize :: "world \<Rightarrow> partial_options \<Rightarrow> state \<Rightarrow> error option \<times> state" where
  "initialize w opts s =
     (let s1 = s\<lparr>options :=
                 \<lparr>opt_schedule = (case po_schedule opts of
                                    Some b \<Rightarrow> b | None \<Rightarrow> opt_schedule (defaultOptions w)),
                  opt_watch = (case po_watch opts of
                                 Some b \<Rightarrow> b | None \<Rightarrow> opt_watch (defaultOptions w))\<rparr>\<rparr>;
          s2 = initializeWatcher w s1
      in if \<not> isLoaded s2
         then (case load w s2 of
                 (Some err, s3) \<Rightarrow> (Some err, s3)
               | (None, s3) \<Rightarrow>
                   (case updateWatchedExtensions w (extensions s3) [] s3 of
                      (Some err, s4) \<Rightarrow> (Some err, s4)
                    | (None, s4) \<Rightarrow>
                        (let loadedExtensions = getExtensionsList None s4
                         in (None, if 0 < length loadedExtensions
                                   then logger Info (LoadedExtensions loadedExtensions) s4
                                   else s4))))
         else (None, s2))"

text \<open>
  The two filters of the reload job, over the snapshot taken before \<open>unload\<close> and the
  list after \<open>load\<close>.
\<close>

definition added_extensions :: "extension list \<Rightarrow> extension list \<Rightarrow> extension list" where
  "added_extensions prevExtensions current =
     filter (\<lambda>extension.
        \<not> list_ex (\<lambda>prevExtension. ext_path extension = ext_path prevExtension) prevExtensions)
       current"

definition removed_extensions :: "extension list \<Rightarrow> extension list \<Rightarrow> extension list" where
  "removed_extensions prevExtensions current =
     filter (\<lambda>prevExtension.
        \<not> list_ex (\<lambda>extension. ext_path prevExtension = ext_path extension) current)
       prevExtensions"

text \<open>
  The job that \<open>reload\<close> puts on the queue. The queue runs one job at a time, each to
  its end, so a run of the manager is a sequence of such jobs. A \<open>load\<close> that rejects
  ends the job there.
\<close>

definition reload :: "world \<Rightarrow> state \<Rightarrow> error option \<times> state" where
  "reload w s =
     (if isLoaded s
      then (let s0 = logger Info ReloadingExtensions s;
                prevExtensions = extensions s0;
                s1 = unload w s0
            in case load w s1 of
                 (Some err, s2) \<Rightarrow> (Some err, s2)
               | (None, s2) \<Rightarrow>
                   (let added = added_extensions prevExtensions (extensions s2);
                        removed = removed_extensions prevExtensions (extensions s2)
                    in case updateWatchedExtensions w added removed s2 of
                         (Some err, s3) \<Rightarrow> (Some err, s3)
                       | (None, s3) \<Rightarrow>
                           (let addedExtensions = map ext_name added;
                                removedExtensions = map ext_name removed;
                                s4 = (if 0 < length addedExtensions
                                      then logger Info (AddedExtensions addedExtensions) s3 else s3);
                                s5 = (if 0 < length removedExtensions
                                      then logger Info (RemovedExtensions removedExtensions) s4
                                      else s4)
                            in (None, s5))))
      else (None, logger Warn LoadBeforeReload s))"


section \<open>Scheduled tasks\<close>

text \<open>
  The callback that \<open>schedule\<close> is given for a handler: it reads the scheduling option
  when it runs, awaits the handler inside a \<open>try\<close>, and logs what the handler throws.
  \<open>task_fires\<close> is the cron library at a moment the expression of task \<open>i\<close> comes due.
\<close>

definition task_callback :: "world \<Rightarrow> handler \<Rightarrow> state \<Rightarrow> error option \<times> state" where
  "task_callback w h s =
     (if opt_schedule (options s)
      then (case run_handler w h of
              None \<Rightarrow> (None, s\<lparr>invoked := invoked s @ [h]\<rparr>)
            | Some err \<Rightarrow> (None, logger Err (Thrown err) (s\<lparr>invoked := invoked s @ [h]\<rparr>)))
      else (None, s))"

definition task_fires :: "world \<Rightarrow> nat \<Rightarrow> state \<Rightarrow> error option \<times> state" where
  "task_fires w i s =
     (if i < length (cron_tasks s) \<and> task_running (cron_tasks s ! i)
      then task_callback w (task_handler (cron_tasks s ! i)) s
      else (None, s))"


section \<open>What the registrars leave alone\<close>

text \<open>
  The descriptor list, the options, the watcher and the count of watchers: the part of
  the state that no registrar, unregistrar or bundling step writes.
\<close>

definition core :: "state \<Rightarrow> extension list \<times> options \<times> string list option \<times> nat" where
  "core s = (extensions s, options s, watcher s, watchers_created s)"


section \<open>Example environments\<close>

text \<open>
  A process with no extensions, in production mode with auto-reload set, whose module
  loader finds nothing and whose cron library accepts one expression.
\<close>

definition world0 :: world where
  "world0 =
     \<lparr>SERVE_APP = False,
      EXTENSIONS_AUTO_RELOAD = True,
      NODE_ENV = ''production'',
      EXTENSIONS_PATH = ''./extensions'',
      rel_extensions_path = ''extensions'',
      path_resolve = join ''/'',
      posix_join = join ''/'',
      path_sep = CHR ''/'',
      ensureExtensionDirs = (\<lambda>root types. None),
      getPackageExtensions = (\<lambda>root types. Inr []),
      getLocalExtensions = (\<lambda>root types. Inr []),
      require_hook = (\<lambda>p. Inl (JsError ''Cannot find module'')),
      require_endpoint = (\<lambda>p. Inl (JsError ''Cannot find module'')),
      require_storage = (\<lambda>p. Inl (JsError ''Cannot find module'')),
      require_operation = (\<lambda>p. Inl (JsError ''Cannot find module'')),
      validate = (\<lambda>cron. cron = ''* * * * *''),
      globby_operations = [],
      generateExtensionsEntry = (\<lambda>type exts. Inr (type_literal type)),
      rollup = (\<lambda>entry external aliases. Generated entry None),
      readdir_assets = Inr [],
      asset_url = (\<lambda>name. Inr (''/admin/assets/'' @ name)),
      run_handler = (\<lambda>h. None)\<rparr>"

definition my_hook :: extension where
  "my_hook =
     \<lparr>ext_path = ''/app/node_modules/directus-extension-my-hook'',
      ext_name = ''directus-extension-my-hook'',
      ext_type = Hook,
      ext_entrypoint = Entrypoint ''dist/index.js'',
      ext_local = False\<rparr>"

text \<open>The host manifest declares one hook extension.\<close>

definition world_my_hook :: world where
  "world_my_hook = world0\<lparr>getPackageExtensions := (\<lambda>root types. Inr [my_hook])\<rparr>"



text \<open>
  A hook whose register function binds a filter, schedules a task, and then throws.
\<close>

definition throwing_register :: hook_config where
  "throwing_register =
     \<lparr>hc_calls = [FilterCall ''items.create'' ''onCreate'', ScheduleCall ''* * * * *'' ''tick''],
      hc_throws = Some (JsError ''boom'')\<rparr>"

definition world_throwing_hook :: world where
  "world_throwing_hook =
     world0\<lparr>getPackageExtensions := (\<lambda>root types. Inr [my_hook]),
            require_hook := (\<lambda>p. if p = ''/app/node_modules/directus-extension-my-hook/dist/index.js''
                                  then Inr (Bare throwing_register)
                                  else Inl (JsError ''Cannot find module''))\<rparr>"

text \<open>A handler that throws when it runs, and the one task scheduled for it.\<close>

definition world_failing_handler :: world where
  "world_failing_handler = world0\<lparr>run_handler := (\<lambda>h. Some (JsError ''handler failed''))\<rparr>"

definition state_one_task :: state where
  "state_one_task =
     (new_ExtensionManager world0)
       \<lparr>cron_tasks := [\<lparr>task_cron = ''* * * * *'', task_handler = ''tick'', task_running = True\<rparr>]\<rparr>"


section \<open>Runs of the manager\<close>

text \<open>
  What happens to the one manager of a process: calls of \<open>initialize\<close>, reload jobs
  taken off the queue one at a time, and firings of scheduled tasks, each in the
  environment of its moment. A call that throws leaves the state as it was at the throw.
\<close>

datatype call = Initialize world partial_options | Reload world | TaskFires world nat

fun run_call :: "call \<Rightarrow> state \<Rightarrow> state" where
  "run_call (Initialize w opts) s = snd (initialize w opts s)"
| "run_call (Reload w) s = snd (reload w s)"
| "run_call (TaskFires w i) s = snd (task_fires w i s)"

definition run :: "call list \<Rightarrow> state \<Rightarrow> state" where
  "run calls s = fold run_call calls s"

text \<open>
  A call made with the default watch option in development mode: an \<open>initialize\<close>
  that does not override \<open>watch\<close>, in an environment whose run mode is development.
\<close>

fun default_development :: "call \<Rightarrow> bool" where
  "default_development (Initialize w opts) = (po_watch opts = None \<and> NODE_ENV w = ''development'')"
| "default_development (Reload w) = True"
| "default_development (TaskFires w i) = True"

text \<open>Whether there is no watcher, and how many were created.\<close>

definition watch_part :: "state \<Rightarrow> bool \<times> nat" where
  "watch_part s = (watcher s = None, watchers_created s)"

definition world_development :: world where
  "world_development = world0\<lparr>NODE_ENV := ''development''\<rparr>"

definition no_options :: partial_options where
  "no_options = \<lparr>po_schedule = None, po_watch = None\<rparr>"


section \<open>Outcome of a compilation\<close>

text \<open>
  The error that generating the entries of a list of types throws, if any: that of the
  first type, in the order of the loop, whose entry cannot be generated.
\<close>

fun entry_failure :: "world \<Rightarrow> extension list \<Rightarrow> extension_type list \<Rightarrow> error option" where
  "entry_failure w exts [] = None"
| "entry_failure w exts (type # types) =
     (case generateExtensionsEntry w type exts of
        Inl err \<Rightarrow> Some err
      | Inr entry \<Rightarrow> entry_failure w exts types)"

text \<open>
  The code that \<open>generate()\<close> returns for the entry of a type, given the shared
  dependency mapping and the descriptor list: \<open>None\<close> when the entry cannot be
  generated or \<open>rollup()\<close> or \<open>generate()\<close> throws. Whether \<open>close()\<close> then throws does
  not matter here.
\<close>

definition generated_code ::
  "world \<Rightarrow> (string \<times> string) list \<Rightarrow> extension list \<Rightarrow> extension_type \<Rightarrow> string option" where
  "generated_code w sharedDepsMapping exts type =
     (case generateExtensionsEntry w type exts of
        Inl err \<Rightarrow> None
      | Inr entry \<Rightarrow>
          (case rollup w entry (map snd sharedDepsMapping)
                  (map (\<lambda>(name, path). (name, path)) sharedDepsMapping) of
             RollupThrows err \<Rightarrow> None
           | GenerateThrows err \<Rightarrow> None
           | Generated code closed \<Rightarrow> Some code))"

text \<open>
  What the \<open>catch\<close> of the loop logs for a type: nothing when \<open>rollup()\<close>, \<open>generate()\<close>
  and \<open>close()\<close> all return, two warnings when one of them throws.
\<close>

definition bundle_warnings ::
  "world \<Rightarrow> (string \<times> string) list \<Rightarrow> extension list \<Rightarrow> extension_type \<Rightarrow>
   (level \<times> message) list" where
  "bundle_warnings w sharedDepsMapping exts type =
     (case generateExtensionsEntry w type exts of
        Inl err \<Rightarrow> []
      | Inr entry \<Rightarrow>
          (case rollup w entry (map snd sharedDepsMapping)
                  (map (\<lambda>(name, path). (name, path)) sharedDepsMapping) of
             RollupThrows err \<Rightarrow> [(Warn, CouldntBundleAppExtensions), (Warn, Thrown err)]
           | GenerateThrows err \<Rightarrow> [(Warn, CouldntBundleAppExtensions), (Warn, Thrown err)]
           | Generated code None \<Rightarrow> []
           | Generated code (Some err) \<Rightarrow> [(Warn, CouldntBundleAppExtensions), (Warn, Thrown err)]))"




text \<open>Browser-facing serving is on and the asset directory of the app cannot be read.\<close>

definition world_no_assets :: world where
  "world_no_assets =
     world0\<lparr>SERVE_APP := True, readdir_assets := Inl (JsError ''ENOENT'')\<rparr>"


section \<open>What a registrar adds for one extension\<close>

text \<open>
  The layer that an endpoint extension adds to the shared router: none when its module
  cannot be loaded; otherwise one sub-router, mounted at the extension name for a bare
  handler function and at the id for an object, holding the routes of its own handler.
\<close>

definition mounted_layer :: "world \<Rightarrow> extension \<Rightarrow> (string \<times> string list) list" where
  "mounted_layer w endpoint =
     (case ext_entrypoint endpoint of
        HybridEntrypoint a b \<Rightarrow> []
      | Entrypoint ep \<Rightarrow>
          (case require_endpoint w (path_resolve w [ext_path endpoint, ep]) of
             Inl err \<Rightarrow> []
           | Inr exported \<Rightarrow>
               (case getModuleDefault exported of
                  EndpointFunction f \<Rightarrow> [(''/'' @ ext_name endpoint, eh_routes f)]
                | EndpointObject ident f \<Rightarrow> [(''/'' @ ident, eh_routes f)])))"

text \<open>
  The pair that an operation forwards to the operation registry of the flow manager:
  none when its module cannot be loaded, otherwise the id and the handler of its
  configuration.
\<close>

definition forwarded :: "world \<Rightarrow> operation_source \<Rightarrow> (string \<times> handler) list" where
  "forwarded w operation =
     (case os_api operation of
        None \<Rightarrow> []
      | Some api \<Rightarrow>
          (case require_operation w (path_resolve w [os_path operation, api]) of
             Inl err \<Rightarrow> []
           | Inr exported \<Rightarrow>
               [(oc_id (getModuleDefault exported), oc_handler (getModuleDefault exported))]))"

text \<open>
  The fields that one registrar writes, blanked: two states that agree after blanking
  differ in those fields only.
\<close>

definition hooks_blank :: "state \<Rightarrow> state" where
  "hooks_blank s =
     s\<lparr>apiExtensions := (apiExtensions s)\<lparr>hooks := []\<rparr>,
       emitter := new_Emitter, cron_tasks := [], logs := []\<rparr>"

definition endpoints_blank :: "state \<Rightarrow> state" where
  "endpoints_blank s =
     s\<lparr>apiExtensions := (apiExtensions s)\<lparr>endpoints := []\<rparr>, endpointRouter := [], logs := []\<rparr>"

definition storages_blank :: "state \<Rightarrow> state" where
  "storages_blank s = s\<lparr>apiExtensions := (apiExtensions s)\<lparr>storages := []\<rparr>, logs := []\<rparr>"

definition operations_blank :: "state \<Rightarrow> state" where
  "operations_blank s =
     s\<lparr>apiExtensions := (apiExtensions s)\<lparr>operations := []\<rparr>, flow_operations := [], logs := []\<rparr>"

definition logs_blank :: "state \<Rightarrow> state" where
  "logs_blank s = s\<lparr>logs := []\<rparr>"

definition alpha :: extension where
  "alpha = \<lparr>ext_path = ''/app/extensions/endpoints/alpha'', ext_name = ''alpha'',
            ext_type = Endpoint, ext_entrypoint = Entrypoint ''index.js'', ext_local = True\<rparr>"

definition beta :: extension where
  "beta = \<lparr>ext_path = ''/app/extensions/endpoints/beta'', ext_name = ''beta'',
           ext_type = Endpoint, ext_entrypoint = Entrypoint ''index.js'', ext_local = True\<rparr>"

text \<open>Two local endpoint extensions, each exporting a bare handler function.\<close>

definition world_alpha_beta :: world where
  "world_alpha_beta =
     world0\<lparr>getLocalExtensions := (\<lambda>root types. Inr [alpha, beta]),
            require_endpoint := (\<lambda>p.
              if p = ''/app/extensions/endpoints/alpha/index.js''
              then Inr (Bare (EndpointFunction \<lparr>eh_routes = [''GET /''], eh_throws = None\<rparr>))
              else if p = ''/app/extensions/endpoints/beta/index.js''
              then Inr (DefaultExport (EndpointFunction \<lparr>eh_routes = [''POST /''], eh_throws = None\<rparr>))
              else Inl (JsError ''Cannot find module''))\<rparr>"


text \<open>
  Two internal operations and one operation extension; the extension comes first in
  discovery and its id is that of an internal operation.
\<close>

definition my_operation :: extension where
  "my_operation =
     \<lparr>ext_path = ''/app/extensions/operations/mail'', ext_name = ''mail'',
      ext_type = Operation, ext_entrypoint = HybridEntrypoint ''app.js'' ''api.js'',
      ext_local = True\<rparr>"

definition world_operations :: world where
  "world_operations =
     world0\<lparr>getLocalExtensions := (\<lambda>root types. Inr [my_operation]),
            globby_operations := [''dist/operations/log/index.js'', ''dist/operations/mail/index.js''],
            require_operation := (\<lambda>p.
              if p = ''dist/operations/log/index.js''
              then Inr (DefaultExport \<lparr>oc_id = ''log'', oc_handler = ''logHandler''\<rparr>)
              else if p = ''dist/operations/mail/index.js''
              then Inr (DefaultExport \<lparr>oc_id = ''mail'', oc_handler = ''mailHandler''\<rparr>)
              else if p = ''/app/extensions/operations/mail/api.js''
              then Inr (Bare \<lparr>oc_id = ''mail'', oc_handler = ''customMail''\<rparr>)
              else Inl (JsError ''Cannot find module''))\<rparr>"


section \<open>Loaded modules up to normalization\<close>

text \<open>
  What a registrar that applies \<open>getModuleDefault\<close> sees of a \<open>require\<close>: the error,
  or the configuration, whichever way it was exported.
\<close>

definition normalized :: "error + 'a module_export \<Rightarrow> error + 'a" where
  "normalized r = (case r of Inl err \<Rightarrow> Inl err | Inr exported \<Rightarrow> Inr (getModuleDefault exported))"

definition my_storage :: extension where
  "my_storage =
     \<lparr>ext_path = ''/app/extensions/storages/s3'', ext_name = ''s3'',
      ext_type = Storage, ext_entrypoint = Entrypoint ''index.js'', ext_local = True\<rparr>"

text \<open>One storage extension, whose module exports the same driver configuration bare or as a default.\<close>

definition world_storage :: "storage_config module_export \<Rightarrow> world" where
  "world_storage exported =
     world0\<lparr>getLocalExtensions := (\<lambda>root types. Inr [my_storage]),
            require_storage := (\<lambda>p. if p = ''/app/extensions/storages/s3/index.js''
                                     then Inr exported
                                     else Inl (JsError ''Cannot find module''))\<rparr>"


text \<open>
  One hook extension whose module registers an action; the two environments differ only
  in how the modules export their configuration.
\<close>

definition world_modules :: world where
  "world_modules = world0\<lparr>getPackageExtensions := (\<lambda>root types. Inr [my_hook])\<rparr>"

definition world_bare :: world where
  "world_bare =
     world_modules\<lparr>require_hook := (\<lambda>p.
       if p = ''/app/node_modules/directus-extension-my-hook/dist/index.js''
       then Inr (Bare \<lparr>hc_calls = [ActionCall ''items.update'' ''onUpdate''], hc_throws = None\<rparr>)
       else Inl (JsError ''Cannot find module''))\<rparr>"

definition world_wrapped :: world where
  "world_wrapped =
     world_modules\<lparr>require_hook := (\<lambda>p.
       if p = ''/app/node_modules/directus-extension-my-hook/dist/index.js''
       then Inr (DefaultExport \<lparr>hc_calls = [ActionCall ''items.update'' ''onUpdate''], hc_throws = None\<rparr>)
       else Inl (JsError ''Cannot find module''))\<rparr>"


section \<open>The watch set computed from a descriptor list\<close>

text \<open>
  A descriptor is well typed when its entrypoint has the shape its type calls for: a
  pair for a hybrid type, a single path otherwise (the entrypoint of a pack is not read).
\<close>

definition well_typed :: "extension \<Rightarrow> bool" where
  "well_typed extension =
     (ext_type extension = PACK_EXTENSION_TYPE \<or>
      (case ext_entrypoint extension of
         Entrypoint ep \<Rightarrow> \<not> isExtensionObject extension HYBRID_EXTENSION_TYPES
       | HybridEntrypoint app api \<Rightarrow> isExtensionObject extension HYBRID_EXTENSION_TYPES))"

text \<open>
  The files that one descriptor contributes to the watch set: nothing when it is local;
  otherwise the manifest of a pack, both entrypoint files of a hybrid extension, the
  single entrypoint file of any other. The watch set computed fresh from a list is what
  its descriptors contribute.
\<close>

definition contributes :: "world \<Rightarrow> extension \<Rightarrow> string list" where
  "contributes w extension =
     (if ext_local extension then []
      else if ext_type extension = PACK_EXTENSION_TYPE
      then [path_resolve w [ext_path extension, ''package.json'']]
      else (case ext_entrypoint extension of
              HybridEntrypoint app api \<Rightarrow>
                [path_resolve w [ext_path extension, app], path_resolve w [ext_path extension, api]]
            | Entrypoint ep \<Rightarrow> [path_resolve w [ext_path extension, ep]]))"

definition watch_files :: "world \<Rightarrow> extension list \<Rightarrow> string list" where
  "watch_files w exts = concat (map (contributes w) exts)"

text \<open>
  The hook extension of the host manifest, after its manifest moved the entrypoint, and
  a second package extension, a pack.
\<close>

definition my_hook_moved :: extension where
  "my_hook_moved = my_hook\<lparr>ext_entrypoint := Entrypoint ''build/index.js''\<rparr>"

definition world_my_hook_moved :: world where
  "world_my_hook_moved = world0\<lparr>getPackageExtensions := (\<lambda>root types. Inr [my_hook_moved])\<rparr>"

definition my_pack :: extension where
  "my_pack =
     \<lparr>ext_path = ''/app/node_modules/directus-extension-my-pack'',
      ext_name = ''directus-extension-my-pack'',
      ext_type = Pack,
      ext_entrypoint = Entrypoint '''',
      ext_local = False\<rparr>"

definition world_my_pack :: world where
  "world_my_pack = world0\<lparr>getPackageExtensions := (\<lambda>root types. Inr [my_pack])\<rparr>"

text \<open>The manager after \<open>initialize\<close> with default options, one hook extension found.\<close>

definition state_watching :: state where
  "state_watching = snd (initialize world_my_hook no_options (new_ExtensionManager world_my_hook))"


definition world_hook_and_pack :: world where
  "world_hook_and_pack = world0\<lparr>getPackageExtensions := (\<lambda>root types. Inr [my_hook, my_pack])\<rparr>"

text \<open>What the watcher is created with: the host manifest and the patterns of the local extensions.\<close>

definition base_entries :: "string list" where
  "base_entries =
     [''package.json'', ''extensions/hooks/*/index.js'', ''extensions/endpoints/*/index.js'',
      ''extensions/storages/*/index.js'', ''extensions/operations/*/app.js'',
      ''extensions/operations/*/api.js'']"


section \<open>What the hook registry records\<close>

text \<open>
  The bindings that a list of recorded events stands for: the listeners on the three
  channels of the host-wide emitter, and the scheduled tasks.
\<close>

fun recorded_filters :: "event_handler list \<Rightarrow> (string \<times> handler) list" where
  "recorded_filters [] = []"
| "recorded_filters (FilterEvent name h # es) = (name, h) # recorded_filters es"
| "recorded_filters (e # es) = recorded_filters es"

fun recorded_actions :: "event_handler list \<Rightarrow> (string \<times> handler) list" where
  "recorded_actions [] = []"
| "recorded_actions (ActionEvent name h # es) = (name, h) # recorded_actions es"
| "recorded_actions (e # es) = recorded_actions es"

fun recorded_inits :: "event_handler list \<Rightarrow> (string \<times> handler) list" where
  "recorded_inits [] = []"
| "recorded_inits (InitEvent name h # es) = (name, h) # recorded_inits es"
| "recorded_inits (e # es) = recorded_inits es"

fun recorded_tasks :: "event_handler list \<Rightarrow> nat list" where
  "recorded_tasks [] = []"
| "recorded_tasks (ScheduleEvent i # es) = i # recorded_tasks es"
| "recorded_tasks (e # es) = recorded_tasks es"

text \<open>Every event in the registry, in the order of the records.\<close>

definition registry_events :: "state \<Rightarrow> event_handler list" where
  "registry_events s = concat (map hb_events (hooks (apiExtensions s)))"

text \<open>
  The recorded events \<open>es\<close> account for everything bound since a moment when the
  emitter held \<open>bf\<close>, \<open>ba\<close> and \<open>bi\<close> and the cron library \<open>n0\<close> tasks.
\<close>

definition accounted ::
  "(string \<times> handler) list \<Rightarrow> (string \<times> handler) list \<Rightarrow> (string \<times> handler) list \<Rightarrow> nat \<Rightarrow>
   event_handler list \<Rightarrow> state \<Rightarrow> bool" where
  "accounted bf ba bi n0 es s =
     (em_filters (emitter s) = bf @ recorded_filters es \<and>
      em_actions (emitter s) = ba @ recorded_actions es \<and>
      em_inits (emitter s) = bi @ recorded_inits es \<and>
      recorded_tasks es = [n0 ..< length (cron_tasks s)] \<and>
      n0 \<le> length (cron_tasks s))"

text \<open>
  A hook extension throws partway when its module loads and its register function
  throws after it has made calls on the registration API.
\<close>

definition throws_partway :: "world \<Rightarrow> extension \<Rightarrow> bool" where
  "throws_partway w hook =
     (case ext_entrypoint hook of
        HybridEntrypoint a b \<Rightarrow> False
      | Entrypoint ep \<Rightarrow>
          (case require_hook w (path_resolve w [ext_path hook, ep]) of
             Inl err \<Rightarrow> False
           | Inr exported \<Rightarrow>
               (case hc_throws (getModuleDefault exported) of
                  None \<Rightarrow> False
                | Some err \<Rightarrow> hc_calls (getModuleDefault exported) \<noteq> [])))"


text \<open>
  Registration of an extension succeeds when its entrypoint resolves, its module loads
  and its wiring step returns. For an operation that is said of what the loop reads of it.
\<close>

definition hook_registers :: "world \<Rightarrow> extension \<Rightarrow> bool" where
  "hook_registers w hook =
     (case ext_entrypoint hook of
        HybridEntrypoint a b \<Rightarrow> False
      | Entrypoint ep \<Rightarrow>
          (case require_hook w (path_resolve w [ext_path hook, ep]) of
             Inl err \<Rightarrow> False
           | Inr exported \<Rightarrow> hc_throws (getModuleDefault exported) = None))"

definition endpoint_registers :: "world \<Rightarrow> extension \<Rightarrow> bool" where
  "endpoint_registers w endpoint =
     (case ext_entrypoint endpoint of
        HybridEntrypoint a b \<Rightarrow> False
      | Entrypoint ep \<Rightarrow>
          (case require_endpoint w (path_resolve w [ext_path endpoint, ep]) of
             Inl err \<Rightarrow> False
           | Inr exported \<Rightarrow>
               (case getModuleDefault exported of
                  EndpointFunction f \<Rightarrow> eh_throws f = None
                | EndpointObject ident f \<Rightarrow> eh_throws f = None)))"

definition storage_registers :: "world \<Rightarrow> extension \<Rightarrow> bool" where
  "storage_registers w storage =
     (case ext_entrypoint storage of
        HybridEntrypoint a b \<Rightarrow> False
      | Entrypoint ep \<Rightarrow>
          (case require_storage w (path_resolve w [ext_path storage, ep]) of
             Inl err \<Rightarrow> False
           | Inr exported \<Rightarrow> True))"

definition operation_registers :: "world \<Rightarrow> operation_source \<Rightarrow> bool" where
  "operation_registers w operation =
     (case os_api operation of
        None \<Rightarrow> False
      | Some api \<Rightarrow>
          (case require_operation w (path_resolve w [os_path operation, api]) of
             Inl err \<Rightarrow> False
           | Inr exported \<Rightarrow> True))"

definition registers :: "world \<Rightarrow> extension \<Rightarrow> bool" where
  "registers w extension =
     (if ext_type extension = Hook then hook_registers w extension
      else if ext_type extension = Endpoint then endpoint_registers w extension
      else if ext_type extension = Storage then storage_registers w extension
      else if ext_type extension = Operation
      then operation_registers w (operation_of_extension extension)
      else False)"

text \<open>The number of binding records in the four lists of the registry.\<close>

definition records :: "api_extensions \<Rightarrow> nat" where
  "records a = length (hooks a) + length (endpoints a) + length (storages a) + length (operations a)"


section \<open>Frame lemmas\<close>

lemma fold_frame:
  assumes "\<And>x s. g (f x s) = g s"
  shows "g (fold f xs s) = g s"
  using assms by (induction xs arbitrary: s) simp_all

lemma fold_frame_snd:
  assumes "\<And>x p. g (snd (f x p)) = g (snd p)"
  shows "g (snd (fold f xs p)) = g (snd p)"
  using assms by (induction xs arbitrary: p) simp_all

lemma core_logger [simp]: "core (logger l m s) = core s"
  by (simp add: core_def logger_def)

lemma core_registerFunctions: "core (snd (registerFunctions w c p)) = core (snd p)"
  by (cases c; cases p) (simp_all add: core_def logger_def)

lemma core_registerHook: "core (snd (registerHook w register path s)) = core s"
proof -
  obtain hh s1 where f:
    "fold (registerFunctions w) (hc_calls register) (\<lparr>hb_path = path, hb_events = []\<rparr>, s) = (hh, s1)"
    by (cases "fold (registerFunctions w) (hc_calls register) (\<lparr>hb_path = path, hb_events = []\<rparr>, s)")
  have "core s1 = core s"
    using fold_frame_snd [of core "registerFunctions w", OF core_registerFunctions,
        of "hc_calls register" "(\<lparr>hb_path = path, hb_events = []\<rparr>, s)"] f
    by simp
  then show ?thesis
    by (simp add: registerHook_def f core_def split: option.splits)
qed

lemma core_registerHooks_try: "core (registerHooks_try w hook s) = core s"
proof -
  have "core (case registerHook w c p s of
                (None, s1) \<Rightarrow> s1
              | (Some err, s1) \<Rightarrow>
                  logger Warn (Thrown err) (logger Warn (CouldntRegisterHook (ext_name hook)) s1))
        = core s" for c p
    using core_registerHook [of w c p s]
    by (cases "registerHook w c p s") (auto split: option.splits)
  then show ?thesis
    by (simp add: registerHooks_try_def Let_def split: entrypoint.splits sum.splits)
qed

lemma core_registerHooks: "core (registerHooks w s) = core s"
  unfolding registerHooks_def by (rule fold_frame) (rule core_registerHooks_try)

lemma core_registerEndpoints_try: "core (registerEndpoints_try w e s) = core s"
  by (simp add: registerEndpoints_try_def registerEndpoint_def Let_def core_def logger_def
      split: entrypoint.splits sum.splits option.splits endpoint_config.splits)

lemma core_registerEndpoints: "core (registerEndpoints w s) = core s"
  unfolding registerEndpoints_def by (rule fold_frame) (rule core_registerEndpoints_try)

lemma core_registerStorages_try: "core (registerStorages_try w e s) = core s"
  by (simp add: registerStorages_try_def Let_def core_def logger_def
      split: entrypoint.splits sum.splits)

lemma core_registerStorages: "core (registerStorages w s) = core s"
  unfolding registerStorages_def by (rule fold_frame) (rule core_registerStorages_try)

lemma core_registerOperations_try: "core (registerOperations_try w e s) = core s"
  by (simp add: registerOperations_try_def registerOperation_def Let_def core_def logger_def
      split: sum.splits option.splits)

lemma core_registerOperations: "core (registerOperations w s) = core s"
  unfolding registerOperations_def Let_def by (rule fold_frame) (rule core_registerOperations_try)

lemma logs_append_Nil: "\<exists>l. s = s\<lparr>logs := logs s @ l\<rparr>"
  by (rule exI [of _ "[]"]) simp

lemma getSharedDepsMapping_loop_logs:
  "\<exists>l. snd (getSharedDepsMapping_loop w appDir deps (m, s)) = s\<lparr>logs := logs s @ l\<rparr>"
proof (induction deps arbitrary: m s)
  case Nil
  show ?case by (simp add: logs_append_Nil)
next
  case (Cons dep deps)
  show ?case
  proof (cases "find (regex_test (depRegex dep)) appDir")
    case None
    obtain l where l: "snd (getSharedDepsMapping_loop w appDir deps
        (m, logger Warn (CouldntFindSharedDependency dep) s)) =
        (logger Warn (CouldntFindSharedDependency dep) s)
          \<lparr>logs := logs (logger Warn (CouldntFindSharedDependency dep) s) @ l\<rparr>"
      using Cons.IH by blast
    have "snd (getSharedDepsMapping_loop w appDir (dep # deps) (m, s)) =
          s\<lparr>logs := logs s @ ((Warn, CouldntFindSharedDependency dep) # l)\<rparr>"
      by (simp add: None l) (simp add: logger_def)
    then show ?thesis by blast
  next
    case (Some depName)
    show ?thesis
    proof (cases "asset_url w depName")
      case (Inl err)
      have "s = s\<lparr>logs := logs s @ []\<rparr>" by simp
      then have "snd (getSharedDepsMapping_loop w appDir (dep # deps) (m, s)) =
          s\<lparr>logs := logs s @ []\<rparr>"
        by (simp add: Some Inl del: append_Nil2)
      then show ?thesis by blast
    next
      case (Inr depUrl)
      then show ?thesis
        using Cons.IH [of "AList.update dep depUrl m" s] by (simp add: Some)
    qed
  qed
qed

lemma getSharedDepsMapping_loop_fst:
  "fst (getSharedDepsMapping_loop w appDir deps (m, s)) =
   fst (getSharedDepsMapping_loop w appDir deps (m, s'))"
  by (induction deps arbitrary: m s s') (simp_all split: option.splits sum.splits)

lemma getSharedDepsMapping_logs:
  "\<exists>l. snd (getSharedDepsMapping w deps s) = s\<lparr>logs := logs s @ l\<rparr>"
proof (cases "readdir_assets w")
  case (Inl err)
  have "s = s\<lparr>logs := logs s @ []\<rparr>" by simp
  then have "snd (getSharedDepsMapping w deps s) = s\<lparr>logs := logs s @ []\<rparr>"
    by (simp add: getSharedDepsMapping_def Inl del: append_Nil2)
  then show ?thesis by blast
next
  case (Inr appDir)
  then show ?thesis
    using getSharedDepsMapping_loop_logs [of w appDir deps "[]" s]
    by (simp add: getSharedDepsMapping_def)
qed

lemma getSharedDepsMapping_fst:
  "fst (getSharedDepsMapping w deps s) = fst (getSharedDepsMapping w deps s')"
  using getSharedDepsMapping_loop_fst [of w _ deps "[]" s s']
  by (simp add: getSharedDepsMapping_def split: sum.splits)

lemma core_getSharedDepsMapping: "core (snd (getSharedDepsMapping w deps s)) = core s"
proof -
  obtain l where "snd (getSharedDepsMapping w deps s) = s\<lparr>logs := logs s @ l\<rparr>"
    using getSharedDepsMapping_logs by blast
  then show ?thesis by (simp add: core_def)
qed

lemma bundle_type_eq:
  assumes "generateExtensionsEntry w t (extensions s) = Inr entry"
  shows "bundle_type w m t entry (b, s) =
     ((case generated_code w m (extensions s) t of Some code \<Rightarrow> b(t \<mapsto> code) | None \<Rightarrow> b),
      s\<lparr>logs := logs s @ bundle_warnings w m (extensions s) t\<rparr>)"
  using assms
  by (simp add: generated_code_def bundle_warnings_def Let_def logger_def
      split: rollup_outcome.splits option.splits)

lemma bundle_loop_eq:
  assumes "entry_failure w (extensions s) ts = None"
  shows "bundle_loop w m ts (b, s) =
     (Inr (\<lambda>t. if t \<in> set ts
                then (case generated_code w m (extensions s) t of Some code \<Rightarrow> Some code | None \<Rightarrow> b t)
                else b t),
      s\<lparr>logs := logs s @ concat (map (bundle_warnings w m (extensions s)) ts)\<rparr>)"
  using assms
proof (induction ts arbitrary: b s)
  case Nil
  then show ?case by simp
next
  case (Cons u ts)
  obtain entry where e: "generateExtensionsEntry w u (extensions s) = Inr entry"
    using Cons.prems by (auto split: sum.splits)
  let ?b = "case generated_code w m (extensions s) u of Some code \<Rightarrow> b(u \<mapsto> code) | None \<Rightarrow> b"
  let ?s = "s\<lparr>logs := logs s @ bundle_warnings w m (extensions s) u\<rparr>"
  have f: "entry_failure w (extensions ?s) ts = None"
    using Cons.prems by (simp add: e)
  have "bundle_loop w m (u # ts) (b, s) = bundle_loop w m ts (?b, ?s)"
    by (simp add: e bundle_type_eq [OF e] del: bundle_type.simps)
  also have "\<dots> =
     (Inr (\<lambda>t. if t \<in> set ts
                then (case generated_code w m (extensions ?s) t of Some code \<Rightarrow> Some code | None \<Rightarrow> ?b t)
                else ?b t),
      ?s\<lparr>logs := logs ?s @ concat (map (bundle_warnings w m (extensions ?s)) ts)\<rparr>)"
    by (rule Cons.IH [OF f])
  also have "\<dots> =
     (Inr (\<lambda>t. if t \<in> set (u # ts)
                then (case generated_code w m (extensions s) t of Some code \<Rightarrow> Some code | None \<Rightarrow> b t)
                else b t),
      s\<lparr>logs := logs s @ concat (map (bundle_warnings w m (extensions s)) (u # ts))\<rparr>)"
    by (auto simp add: fun_eq_iff split: option.splits)
  finally show ?case .
qed

lemma bundle_loop_failure:
  assumes "entry_failure w (extensions s) ts = Some err"
  shows "fst (bundle_loop w m ts (b, s)) = Inl err"
  using assms
proof (induction ts arbitrary: b s)
  case Nil
  then show ?case by simp
next
  case (Cons u ts)
  show ?case
  proof (cases "generateExtensionsEntry w u (extensions s)")
    case (Inl e)
    then show ?thesis using Cons.prems by simp
  next
    case (Inr entry)
    have f: "entry_failure w (extensions (s\<lparr>logs := logs s @ bundle_warnings w m (extensions s) u\<rparr>)) ts
             = Some err"
      using Cons.prems by (simp add: Inr)
    show ?thesis
      using Cons.IH [OF f] by (simp add: Inr bundle_type_eq [OF Inr] del: bundle_type.simps)
  qed
qed

lemma bundle_loop_logs:
  "\<exists>l. snd (bundle_loop w m ts (b, s)) = s\<lparr>logs := logs s @ l\<rparr>"
proof (induction ts arbitrary: b s)
  case Nil
  show ?case by (simp add: logs_append_Nil)
next
  case (Cons u ts)
  show ?case
  proof (cases "generateExtensionsEntry w u (extensions s)")
    case (Inl e)
    have "s = s\<lparr>logs := logs s @ []\<rparr>" by simp
    then have "snd (bundle_loop w m (u # ts) (b, s)) = s\<lparr>logs := logs s @ []\<rparr>"
      by (simp add: Inl del: append_Nil2)
    then show ?thesis by blast
  next
    case (Inr entry)
    let ?b = "case generated_code w m (extensions s) u of Some code \<Rightarrow> b(u \<mapsto> code) | None \<Rightarrow> b"
    let ?s = "s\<lparr>logs := logs s @ bundle_warnings w m (extensions s) u\<rparr>"
    obtain l where l: "snd (bundle_loop w m ts (?b, ?s)) = ?s\<lparr>logs := logs ?s @ l\<rparr>"
      using Cons.IH by blast
    have "snd (bundle_loop w m (u # ts) (b, s)) =
          s\<lparr>logs := logs s @ (bundle_warnings w m (extensions s) u @ l)\<rparr>"
      by (simp add: Inr bundle_type_eq [OF Inr] l del: bundle_type.simps)
    then show ?thesis by blast
  qed
qed

lemma generateExtensionBundles_logs:
  "\<exists>l. snd (generateExtensionBundles w s) = s\<lparr>logs := logs s @ l\<rparr>"
proof -
  obtain r s1 where g: "getSharedDepsMapping w APP_SHARED_DEPS s = (r, s1)"
    by (cases "getSharedDepsMapping w APP_SHARED_DEPS s")
  obtain l1 where l1: "s1 = s\<lparr>logs := logs s @ l1\<rparr>"
    using getSharedDepsMapping_logs [of w APP_SHARED_DEPS s] g by auto
  show ?thesis
  proof (cases r)
    case (Inl err)
    then show ?thesis
      using l1 by (auto simp add: generateExtensionBundles_def g)
  next
    case (Inr m)
    obtain l2 where l2: "snd (bundle_loop w m APP_EXTENSION_TYPES (Map.empty, s1)) =
        s1\<lparr>logs := logs s1 @ l2\<rparr>"
      using bundle_loop_logs by blast
    have "snd (generateExtensionBundles w s) = s\<lparr>logs := logs s @ (l1 @ l2)\<rparr>"
      by (simp add: generateExtensionBundles_def g Inr bundle_types_def l2) (simp add: l1)
    then show ?thesis by blast
  qed
qed

text \<open>
  What \<open>load\<close> leaves: the state after the four registrars when browser-facing serving
  is off, the state after the bundler otherwise; the bundle map and the loaded flag are
  assigned when \<open>load\<close> returns.
\<close>

lemma load_eq:
  "load w s =
     (let s5 = registerOperations w (registerStorages w (registerEndpoints w
                 (registerHooks w (discover w s))))
      in if SERVE_APP w
         then (case generateExtensionBundles w s5 of
                 (Inl err, s') \<Rightarrow> (Some err, s')
               | (Inr bundles, s') \<Rightarrow> (None, s'\<lparr>appExtensions := bundles, isLoaded := True\<rparr>))
         else (None, s5\<lparr>isLoaded := True\<rparr>))"
  by (simp add: load_def Let_def)

lemma load_logs:
  "\<exists>l a i. snd (load w s) =
     (registerOperations w (registerStorages w (registerEndpoints w (registerHooks w (discover w s)))))
       \<lparr>logs := logs (registerOperations w (registerStorages w (registerEndpoints w
                  (registerHooks w (discover w s))))) @ l,
        appExtensions := a, isLoaded := i\<rparr>"
proof -
  let ?s5 = "registerOperations w (registerStorages w (registerEndpoints w
               (registerHooks w (discover w s))))"
  show ?thesis
  proof (cases "SERVE_APP w")
    case False
    have "snd (load w s) = ?s5\<lparr>logs := logs ?s5 @ [], appExtensions := appExtensions ?s5,
            isLoaded := True\<rparr>"
      by (simp add: load_eq False)
    then show ?thesis by blast
  next
    case True
    obtain r s' where g: "generateExtensionBundles w ?s5 = (r, s')"
      by (cases "generateExtensionBundles w ?s5")
    obtain l where l: "s' = ?s5\<lparr>logs := logs ?s5 @ l\<rparr>"
      using generateExtensionBundles_logs [of w ?s5] g by auto
    show ?thesis
    proof (cases r)
      case (Inl err)
      have "snd (load w s) = ?s5\<lparr>logs := logs ?s5 @ l, appExtensions := appExtensions ?s5,
              isLoaded := isLoaded ?s5\<rparr>"
        by (simp add: load_eq True g Inl l)
      then show ?thesis by blast
    next
      case (Inr b)
      have "snd (load w s) = ?s5\<lparr>logs := logs ?s5 @ l, appExtensions := b, isLoaded := True\<rparr>"
        by (simp add: load_eq True g Inr l)
      then show ?thesis by blast
    qed
  qed
qed

lemma core_load: "core (snd (load w s)) = core (discover w s)"
proof -
  let ?s5 = "registerOperations w (registerStorages w (registerEndpoints w
               (registerHooks w (discover w s))))"
  have 5: "core ?s5 = core (discover w s)"
    by (simp add: core_registerOperations core_registerStorages core_registerEndpoints
        core_registerHooks)
  obtain l a i where "snd (load w s) = ?s5\<lparr>logs := logs ?s5 @ l, appExtensions := a, isLoaded := i\<rparr>"
    using load_logs by blast
  then have "core (snd (load w s)) = core ?s5"
    by (simp add: core_def)
  then show ?thesis using 5 by simp
qed

lemma load_completes: "\<not> SERVE_APP w \<Longrightarrow> fst (load w s) = None"
  by (simp add: load_eq Let_def)

lemma core_unregister_event: "core (unregister_event e s) = core s"
  by (cases e) (simp_all add: core_def)

lemma core_unregisterHooks: "core (unregisterHooks s) = core s"
proof -
  have "core (fold (\<lambda>hook. fold unregister_event (hb_events hook)) (hooks (apiExtensions s)) s)
        = core s"
    by (rule fold_frame) (rule fold_frame, rule core_unregister_event)
  then show ?thesis by (simp add: unregisterHooks_def Let_def core_def)
qed

lemma core_unload: "core (unload w s) = core s"
  using core_unregisterHooks [of s]
  by (simp add: unload_def Let_def core_def unregisterEndpoints_def unregisterStorages_def
      unregisterOperations_def)


lemma isLoaded_unload: "\<not> isLoaded (unload w s)"
  by (simp add: unload_def Let_def)

lemma extensions_unload: "extensions (unload w s) = extensions s"
  using core_unload [of w s] by (simp add: core_def)

lemma extensions_load: "extensions (snd (load w s)) = extensions (discover w s)"
  using core_load [of w s] by (simp add: core_def)

lemma extensions_updateWatchedExtensions:
  "extensions (snd (updateWatchedExtensions w added removed s)) = extensions s"
  by (simp add: updateWatchedExtensions_def split: option.splits sum.splits)

lemma extensions_logger: "extensions (logger l m s) = extensions s"
  by (simp add: logger_def)

text \<open>The reload job and \<open>initialize\<close>, by whether their \<open>load\<close> rejects.\<close>

lemma reload_load_rejects:
  assumes "isLoaded s"
    and "fst (load w (unload w (logger Info ReloadingExtensions s))) = Some err"
  shows "reload w s = (Some err, snd (load w (unload w (logger Info ReloadingExtensions s))))"
  using assms
  by (cases "load w (unload w (logger Info ReloadingExtensions s))")
     (simp add: reload_def Let_def extensions_logger)

lemma reload_load_returns:
  assumes "isLoaded s"
    and "fst (load w (unload w (logger Info ReloadingExtensions s))) = None"
  shows "reload w s =
     (let s2 = snd (load w (unload w (logger Info ReloadingExtensions s)));
          added = added_extensions (extensions s) (extensions s2);
          removed = removed_extensions (extensions s) (extensions s2)
      in case updateWatchedExtensions w added removed s2 of
           (Some err, s3) \<Rightarrow> (Some err, s3)
         | (None, s3) \<Rightarrow>
             (let addedExtensions = map ext_name added;
                  removedExtensions = map ext_name removed;
                  s4 = (if 0 < length addedExtensions
                        then logger Info (AddedExtensions addedExtensions) s3 else s3);
                  s5 = (if 0 < length removedExtensions
                        then logger Info (RemovedExtensions removedExtensions) s4 else s4)
              in (None, s5)))"
  using assms
  by (cases "load w (unload w (logger Info ReloadingExtensions s))")
     (simp add: reload_def Let_def extensions_logger)

lemma initialize_load_rejects:
  assumes "\<not> isLoaded s"
    and "fst (load w (initializeWatcher w (s\<lparr>options :=
       \<lparr>opt_schedule = (case po_schedule opts of Some b \<Rightarrow> b | None \<Rightarrow> opt_schedule (defaultOptions w)),
        opt_watch = (case po_watch opts of Some b \<Rightarrow> b | None \<Rightarrow> opt_watch (defaultOptions w))\<rparr>\<rparr>)))
       = Some err"
  shows "initialize w opts s = (Some err, snd (load w (initializeWatcher w (s\<lparr>options :=
       \<lparr>opt_schedule = (case po_schedule opts of Some b \<Rightarrow> b | None \<Rightarrow> opt_schedule (defaultOptions w)),
        opt_watch = (case po_watch opts of Some b \<Rightarrow> b | None \<Rightarrow> opt_watch (defaultOptions w))\<rparr>\<rparr>))))"
    (is "_ = (_, snd (load w ?s2))")
proof -
  have "\<not> isLoaded ?s2"
    using assms(1) by (simp add: initializeWatcher_def Let_def logger_def)
  then show ?thesis
    using assms(2) by (cases "load w ?s2") (simp add: initialize_def Let_def)
qed

lemma initialize_load_returns:
  assumes "\<not> isLoaded s"
    and "fst (load w (initializeWatcher w (s\<lparr>options :=
       \<lparr>opt_schedule = (case po_schedule opts of Some b \<Rightarrow> b | None \<Rightarrow> opt_schedule (defaultOptions w)),
        opt_watch = (case po_watch opts of Some b \<Rightarrow> b | None \<Rightarrow> opt_watch (defaultOptions w))\<rparr>\<rparr>)))
       = None"
  shows "initialize w opts s =
     (let s3 = snd (load w (initializeWatcher w (s\<lparr>options :=
       \<lparr>opt_schedule = (case po_schedule opts of Some b \<Rightarrow> b | None \<Rightarrow> opt_schedule (defaultOptions w)),
        opt_watch = (case po_watch opts of Some b \<Rightarrow> b | None \<Rightarrow> opt_watch (defaultOptions w))\<rparr>\<rparr>)))
      in case updateWatchedExtensions w (extensions s3) [] s3 of
           (Some err, s4) \<Rightarrow> (Some err, s4)
         | (None, s4) \<Rightarrow>
             (let loadedExtensions = getExtensionsList None s4
              in (None, if 0 < length loadedExtensions
                        then logger Info (LoadedExtensions loadedExtensions) s4
                        else s4)))"
    (is "_ = (let s3 = snd (load w ?s2) in _ s3)")
proof -
  have "\<not> isLoaded ?s2"
    using assms(1) by (simp add: initializeWatcher_def Let_def logger_def)
  then show ?thesis
    using assms(2) by (cases "load w ?s2") (simp add: initialize_def Let_def)
qed

lemma extensions_reload:
  "isLoaded s \<Longrightarrow>
   extensions (snd (reload w s)) =
   extensions (snd (load w (unload w (logger Info ReloadingExtensions s))))"
proof (cases "fst (load w (unload w (logger Info ReloadingExtensions s)))")
  case None
  assume l: "isLoaded s"
  show ?thesis
    using extensions_updateWatchedExtensions
    by (simp add: reload_load_returns [OF l None] Let_def logger_def
        split: prod.splits option.splits) (metis snd_conv)
next
  case (Some err)
  assume l: "isLoaded s"
  show ?thesis by (simp add: reload_load_rejects [OF l Some])
qed


lemma extensions_load_my_hook:
  "extensions (snd (load world_my_hook (new_ExtensionManager world_my_hook))) = [my_hook]"
  by (simp add: extensions_load discover_def getExtensions_def world_my_hook_def world0_def)


section \<open>Descriptors across unload (C3)\<close>

text \<open>
  C3 as stated does not hold: after \<open>unload\<close> the accessor still returns the names of
  the cycle before. Here one hook extension is loaded, then unloaded.
\<close>

theorem unload_discards_descriptors_counterexample:
  "getExtensionsList None
     (unload world_my_hook (snd (load world_my_hook (new_ExtensionManager world_my_hook)))) \<noteq> []"
  by (simp add: getExtensionsList_def extensions_unload extensions_load_my_hook)

text \<open>
  C3, amended: \<open>unload\<close> leaves the descriptor list as it is; the accessor returns the
  same names after it as before it, for every type filter. The list is replaced only by
  the next discovery that succeeds.
\<close>

theorem unload_keeps_descriptors:
  "extensions (unload w s) = extensions s \<and>
   getExtensionsList type (unload w s) = getExtensionsList type s"
  by (cases type) (simp_all add: getExtensionsList_def extensions_unload)


section \<open>Bindings of a hook that throws (C1)\<close>

text \<open>
  C1 fails on the code for a hook whose register function throws partway. The function
  has already bound a filter on the host-wide emitter and scheduled a task; the error
  leaves \<open>registerHook\<close> before the binding record is pushed, so the registry holds no
  record of either, and \<open>unload\<close>, which removes only what the registry records,
  leaves the filter bound and the task running.
\<close>

theorem throwing_hook_bindings_survive_unload:
  "fst (load world_throwing_hook (new_ExtensionManager world_throwing_hook)) = None \<and>
   hooks (apiExtensions (snd (load world_throwing_hook (new_ExtensionManager world_throwing_hook)))) = [] \<and>
   em_filters (emitter (snd (load world_throwing_hook (new_ExtensionManager world_throwing_hook))))
     = [(''items.create'', ''onCreate'')] \<and>
   em_filters (emitter (unload world_throwing_hook
       (snd (load world_throwing_hook (new_ExtensionManager world_throwing_hook)))))
     = [(''items.create'', ''onCreate'')] \<and>
   cron_tasks (unload world_throwing_hook
       (snd (load world_throwing_hook (new_ExtensionManager world_throwing_hook))))
     = [\<lparr>task_cron = ''* * * * *'', task_handler = ''tick'', task_running = True\<rparr>]"
proof -
  have l: "snd (load world_throwing_hook (new_ExtensionManager world_throwing_hook)) =
    (new_ExtensionManager world_throwing_hook)
      \<lparr>isLoaded := True, extensions := [my_hook],
       emitter := \<lparr>em_filters = [(''items.create'', ''onCreate'')], em_actions = [], em_inits = []\<rparr>,
       cron_tasks := [\<lparr>task_cron = ''* * * * *'', task_handler = ''tick'', task_running = True\<rparr>],
       logs := [(Warn, CouldntRegisterHook ''directus-extension-my-hook''),
                (Warn, Thrown (JsError ''boom''))]\<rparr>"
    by (simp add: load_def discover_def getExtensions_def registerHooks_def registerHooks_try_def
        registerHook_def registerEndpoints_def registerStorages_def registerOperations_def
        internalOperations_def logger_def onFilter_def new_Emitter_def
        world_throwing_hook_def world0_def my_hook_def throwing_register_def
        new_ExtensionManager_def defaultOptions_def)
  have c: "fst (load world_throwing_hook (new_ExtensionManager world_throwing_hook)) = None"
    by (simp add: load_completes world_throwing_hook_def world0_def)
  show ?thesis
    unfolding l c
    by (simp add: unload_def unregisterHooks_def unregisterEndpoints_def unregisterStorages_def
        unregisterOperations_def new_ExtensionManager_def Let_def)
qed


section \<open>Scheduled hooks (C6)\<close>

text \<open>
  C6: a call of \<open>schedule(cron, handler)\<close> by a hook. When the expression does not
  validate, the task list and the binding record are unchanged and the only effect is
  one warning. When it validates, one running task for the handler is created and
  recorded in the binding record. When a running task fires, the callback never throws;
  it invokes the handler exactly when the scheduling option is set at that moment; an
  error of the handler is logged at error level; and the task list is unchanged, so the
  task is still running for its next firing.
\<close>

theorem schedule_hook:
  "(\<not> validate w cron \<longrightarrow>
      registerFunctions w (ScheduleCall cron h) (hookHandler, s) =
        (hookHandler, logger Warn (InvalidCron cron) s) \<and>
      cron_tasks (snd (registerFunctions w (ScheduleCall cron h) (hookHandler, s))) = cron_tasks s) \<and>
   (validate w cron \<longrightarrow>
      cron_tasks (snd (registerFunctions w (ScheduleCall cron h) (hookHandler, s))) =
        cron_tasks s @ [\<lparr>task_cron = cron, task_handler = h, task_running = True\<rparr>] \<and>
      hb_events (fst (registerFunctions w (ScheduleCall cron h) (hookHandler, s))) =
        hb_events hookHandler @ [ScheduleEvent (length (cron_tasks s))] \<and>
      logs (snd (registerFunctions w (ScheduleCall cron h) (hookHandler, s))) = logs s) \<and>
   (i < length (cron_tasks s) \<and> task_running (cron_tasks s ! i) \<longrightarrow>
      fst (task_fires w i s) = None \<and>
      invoked (snd (task_fires w i s)) =
        (if opt_schedule (options s) then invoked s @ [task_handler (cron_tasks s ! i)]
         else invoked s) \<and>
      logs (snd (task_fires w i s)) =
        (case run_handler w (task_handler (cron_tasks s ! i)) of
           Some err \<Rightarrow> if opt_schedule (options s) then logs s @ [(Err, Thrown err)] else logs s
         | None \<Rightarrow> logs s) \<and>
      cron_tasks (snd (task_fires w i s)) = cron_tasks s)"
  by (simp add: logger_def task_fires_def task_callback_def split: option.splits)

theorem schedule_hook_witness:
  "\<not> validate world0 ''not-a-cron'' \<and>
   registerFunctions world0 (ScheduleCall ''not-a-cron'' ''tick'')
       (\<lparr>hb_path = ''p'', hb_events = []\<rparr>, new_ExtensionManager world0) =
     (\<lparr>hb_path = ''p'', hb_events = []\<rparr>,
      logger Warn (InvalidCron ''not-a-cron'') (new_ExtensionManager world0)) \<and>
   validate world0 ''* * * * *'' \<and>
   cron_tasks (snd (registerFunctions world0 (ScheduleCall ''* * * * *'' ''tick'')
       (\<lparr>hb_path = ''p'', hb_events = []\<rparr>, new_ExtensionManager world0))) =
     [\<lparr>task_cron = ''* * * * *'', task_handler = ''tick'', task_running = True\<rparr>] \<and>
   0 < length (cron_tasks state_one_task) \<and> task_running (cron_tasks state_one_task ! 0) \<and>
   fst (task_fires world_failing_handler 0 state_one_task) = None \<and>
   invoked (snd (task_fires world_failing_handler 0 state_one_task)) = [''tick''] \<and>
   logs (snd (task_fires world_failing_handler 0 state_one_task)) =
     [(Err, Thrown (JsError ''handler failed''))] \<and>
   cron_tasks (snd (task_fires world_failing_handler 0 state_one_task)) = cron_tasks state_one_task \<and>
   invoked (snd (task_fires world_failing_handler 0
      (state_one_task\<lparr>options := \<lparr>opt_schedule = False, opt_watch = False\<rparr>\<rparr>))) = []"
  using schedule_hook [of world0 "''not-a-cron''" "''tick''" "\<lparr>hb_path = ''p'', hb_events = []\<rparr>"
      "new_ExtensionManager world0" 0]
    schedule_hook [of world0 "''* * * * *''" "''tick''" "\<lparr>hb_path = ''p'', hb_events = []\<rparr>"
      "new_ExtensionManager world0" 0]
    schedule_hook [of world_failing_handler "''''" "''''" "\<lparr>hb_path = ''p'', hb_events = []\<rparr>"
      state_one_task 0]
    schedule_hook [of world_failing_handler "''''" "''''" "\<lparr>hb_path = ''p'', hb_events = []\<rparr>"
      "state_one_task\<lparr>options := \<lparr>opt_schedule = False, opt_watch = False\<rparr>\<rparr>" 0]
  by (simp add: world0_def world_failing_handler_def state_one_task_def new_ExtensionManager_def
      defaultOptions_def logger_def)


section \<open>The watcher (C10)\<close>

lemma watch_part_core: "core s = core s' \<Longrightarrow> watch_part s = watch_part s'"
  by (simp add: core_def watch_part_def)

lemma watch_part_logger [simp]: "watch_part (logger l m s) = watch_part s"
  by (simp add: watch_part_def logger_def)

lemma watch_part_discover: "watch_part (discover w s) = watch_part s"
  by (simp add: discover_def watch_part_def logger_def split: option.splits sum.splits)

lemma watch_part_load: "watch_part (snd (load w s)) = watch_part s"
  using watch_part_core [OF core_load] by (simp add: watch_part_discover)

lemma watch_part_unload: "watch_part (unload w s) = watch_part s"
  using watch_part_core [OF core_unload] .

lemma watch_part_updateWatchedExtensions:
  "watch_part (snd (updateWatchedExtensions w added removed s)) = watch_part s"
  by (simp add: updateWatchedExtensions_def watch_part_def split: option.splits sum.splits)

lemma watch_part_reload: "watch_part (snd (reload w s)) = watch_part s"
proof (cases "isLoaded s")
  case False
  then show ?thesis by (simp add: reload_def)
next
  case True
  let ?s2 = "snd (load w (unload w (logger Info ReloadingExtensions s)))"
  let ?u = "updateWatchedExtensions w (added_extensions (extensions s) (extensions ?s2))
              (removed_extensions (extensions s) (extensions ?s2)) ?s2"
  have 2: "watch_part ?s2 = watch_part s"
    by (simp add: watch_part_load watch_part_unload)
  have u: "watch_part (snd ?u) = watch_part s"
    by (simp add: watch_part_updateWatchedExtensions 2)
  show ?thesis
  proof (cases "fst (load w (unload w (logger Info ReloadingExtensions s)))")
    case None
    show ?thesis
      using u
      by (cases ?u) (auto simp add: reload_load_returns [OF True None] Let_def split: option.splits)
  next
    case (Some err)
    show ?thesis
      using 2 by (simp add: reload_load_rejects [OF True Some])
  qed
qed

lemma watch_part_task_fires: "watch_part (snd (task_fires w i s)) = watch_part s"
  by (simp add: task_fires_def task_callback_def watch_part_def logger_def split: option.splits)

lemma watch_part_initialize:
  "watch_part (snd (initialize w opts s)) =
   watch_part (initializeWatcher w (s\<lparr>options :=
       \<lparr>opt_schedule = (case po_schedule opts of Some b \<Rightarrow> b | None \<Rightarrow> opt_schedule (defaultOptions w)),
        opt_watch = (case po_watch opts of Some b \<Rightarrow> b | None \<Rightarrow> opt_watch (defaultOptions w))\<rparr>\<rparr>))"
  (is "_ = watch_part ?s2")
proof (cases "isLoaded ?s2")
  case True
  then show ?thesis by (simp add: initialize_def Let_def)
next
  case False
  let ?u = "updateWatchedExtensions w (extensions (snd (load w ?s2))) [] (snd (load w ?s2))"
  have u: "watch_part (snd ?u) = watch_part ?s2"
    by (simp add: watch_part_updateWatchedExtensions watch_part_load)
  show ?thesis
  proof (cases "fst (load w ?s2)")
    case None
    obtain r s3 where l: "load w ?s2 = (r, s3)"
      by (cases "load w ?s2")
    show ?thesis
      using False u None
      by (cases ?u) (auto simp add: initialize_def Let_def l split: option.splits)
  next
    case (Some err)
    obtain r s3 where l: "load w ?s2 = (r, s3)"
      by (cases "load w ?s2")
    show ?thesis
      using False Some watch_part_load [of w ?s2]
      by (simp add: initialize_def Let_def l)
  qed
qed

lemma watch_part_initializeWatcher:
  "watch_part (initializeWatcher w s) =
   (if opt_watch (options s) \<and> watcher s = None then (False, Suc (watchers_created s))
    else watch_part s)"
  by (simp add: initializeWatcher_def watch_part_def Let_def logger_def)

lemma watch_part_initialize_eq:
  "watch_part (snd (initialize w opts s)) =
   (if (case po_watch opts of Some b \<Rightarrow> b | None \<Rightarrow> opt_watch (defaultOptions w)) \<and> watcher s = None
    then (False, Suc (watchers_created s))
    else watch_part s)"
  unfolding watch_part_initialize watch_part_initializeWatcher
  by (simp add: watch_part_def)

lemma single_watcher_call:
  assumes "watch_part s = (True, 0) \<or> watch_part s = (False, Suc 0)"
  shows "watch_part (run_call c s) = (True, 0) \<or> watch_part (run_call c s) = (False, Suc 0)"
proof (cases c)
  case (Initialize w opts)
  have "watcher s = None \<Longrightarrow> watchers_created s = 0"
    using assms by (auto simp add: watch_part_def)
  then show ?thesis
    using assms unfolding Initialize run_call.simps watch_part_initialize_eq
    by auto
next
  case (Reload w)
  then show ?thesis using assms by (simp add: watch_part_reload)
next
  case (TaskFires w i)
  then show ?thesis using assms by (simp add: watch_part_task_fires)
qed

lemma single_watcher_run:
  "watch_part s = (True, 0) \<or> watch_part s = (False, Suc 0) \<Longrightarrow>
   watch_part (run calls s) = (True, 0) \<or> watch_part (run calls s) = (False, Suc 0)"
  unfolding run_def
proof (induction calls arbitrary: s)
  case Nil
  then show ?case by simp
next
  case (Cons c calls)
  show ?case
    using Cons.IH [OF single_watcher_call [OF Cons.prems, of c]] by simp
qed

lemma development_call:
  assumes "watch_part s = (True, 0)" "default_development c"
  shows "watch_part (run_call c s) = (True, 0)"
proof (cases c)
  case (Initialize w opts)
  then have "po_watch opts = None" "NODE_ENV w = ''development''"
    using assms(2) by simp_all
  then show ?thesis
    using assms(1) unfolding Initialize run_call.simps watch_part_initialize_eq
    by (simp add: defaultOptions_def)
next
  case (Reload w)
  then show ?thesis using assms by (simp add: watch_part_reload)
next
  case (TaskFires w i)
  then show ?thesis using assms by (simp add: watch_part_task_fires)
qed

lemma development_run:
  "watch_part s = (True, 0) \<Longrightarrow> \<forall>c \<in> set calls. default_development c \<Longrightarrow>
   watch_part (run calls s) = (True, 0)"
  unfolding run_def
proof (induction calls arbitrary: s)
  case Nil
  then show ?case by simp
next
  case (Cons c calls)
  have "watch_part (run_call c s) = (True, 0)"
    using development_call [of s c] Cons.prems by simp
  then show ?case
    using Cons.IH [of "run_call c s"] Cons.prems by simp
qed

text \<open>
  C10: a process has one manager, the one the first \<open>getExtensionManager\<close> creates.
  The default watch option is the conjunction of the auto-reload flag and the run
  mode not being development. An \<open>initialize\<close> that does not override \<open>watch\<close>, on a
  manager without a watcher, leaves a watcher exactly when that conjunction holds. In a
  run from a new manager whose \<open>initialize\<close> calls all keep the default in development
  mode, no watcher is ever created. In every run from a new manager, whatever the
  options and environments of its calls, at most one watcher is created.
\<close>

theorem default_watch_single_watcher:
  "getExtensionManager w0 None = new_ExtensionManager w0 \<and>
   getExtensionManager w0 (Some manager) = manager \<and>
   opt_watch (defaultOptions w) = (EXTENSIONS_AUTO_RELOAD w \<and> NODE_ENV w \<noteq> ''development'') \<and>
   (po_watch opts = None \<and> watcher s = None \<longrightarrow>
      (watcher (snd (initialize w opts s)) \<noteq> None) =
        (EXTENSIONS_AUTO_RELOAD w \<and> NODE_ENV w \<noteq> ''development'')) \<and>
   ((\<forall>c \<in> set calls. default_development c) \<longrightarrow>
      watcher (run calls (new_ExtensionManager w0)) = None \<and>
      watchers_created (run calls (new_ExtensionManager w0)) = 0) \<and>
   watchers_created (run calls' (new_ExtensionManager w0)) \<le> 1"
proof -
  have n: "watch_part (new_ExtensionManager w0) = (True, 0)"
    by (simp add: watch_part_def new_ExtensionManager_def)
  have a: "opt_watch (defaultOptions w) = (EXTENSIONS_AUTO_RELOAD w \<and> NODE_ENV w \<noteq> ''development'')"
    by (simp add: defaultOptions_def)
  have b: "(watcher (snd (initialize w opts s)) \<noteq> None) =
        (EXTENSIONS_AUTO_RELOAD w \<and> NODE_ENV w \<noteq> ''development'')"
    if "po_watch opts = None" "watcher s = None"
  proof -
    have "fst (watch_part (snd (initialize w opts s))) =
          (\<not> (EXTENSIONS_AUTO_RELOAD w \<and> NODE_ENV w \<noteq> ''development''))"
      unfolding watch_part_initialize_eq using that
      by (simp add: defaultOptions_def watch_part_def)
    then show ?thesis by (simp add: watch_part_def)
  qed
  have c: "watcher (run calls (new_ExtensionManager w0)) = None \<and>
      watchers_created (run calls (new_ExtensionManager w0)) = 0"
    if "\<forall>c \<in> set calls. default_development c"
    using development_run [OF n that] by (simp add: watch_part_def)
  have d: "watchers_created (run calls' (new_ExtensionManager w0)) \<le> 1"
    using single_watcher_run [of "new_ExtensionManager w0" calls'] n
    by (auto simp add: watch_part_def)
  have g: "getExtensionManager w0 None = new_ExtensionManager w0"
    "getExtensionManager w0 (Some manager) = manager"
    by (simp_all add: getExtensionManager_def)
  show ?thesis using g a b c d by blast
qed

theorem default_watch_single_watcher_witness:
  "po_watch no_options = None \<and> watcher (new_ExtensionManager world0) = None \<and>
   watcher (snd (initialize world0 no_options (new_ExtensionManager world0))) \<noteq> None \<and>
   default_development (Initialize world_development no_options) \<and>
   default_development (Reload world_development) \<and>
   watcher (run [Initialize world_development no_options, Reload world_development,
                 Initialize world_development no_options] (new_ExtensionManager world_development)) = None \<and>
   watchers_created (run [Initialize world0 no_options, Initialize world0 no_options]
      (new_ExtensionManager world_development)) \<le> 1"
  using default_watch_single_watcher [where w = world0 and opts = no_options
      and s = "new_ExtensionManager world0"
      and calls = "[Initialize world_development no_options, Reload world_development,
        Initialize world_development no_options]"
      and ?w0.0 = world_development
      and calls' = "[Initialize world0 no_options, Initialize world0 no_options]"]
  by (simp add: no_options_def new_ExtensionManager_def world0_def world_development_def)


section \<open>Frames of the single registrars\<close>

lemma hooks_blank_registerFunctions:
  "hooks_blank (snd (registerFunctions w c p)) = hooks_blank (snd p)"
  by (cases c; cases p) (simp_all add: hooks_blank_def logger_def)

lemma hooks_blank_registerHook: "hooks_blank (snd (registerHook w register path s)) = hooks_blank s"
proof -
  obtain hh s1 where f:
    "fold (registerFunctions w) (hc_calls register) (\<lparr>hb_path = path, hb_events = []\<rparr>, s) = (hh, s1)"
    by (cases "fold (registerFunctions w) (hc_calls register) (\<lparr>hb_path = path, hb_events = []\<rparr>, s)")
  have "hooks_blank s1 = hooks_blank s"
    using fold_frame_snd [of hooks_blank "registerFunctions w", OF hooks_blank_registerFunctions,
        of "hc_calls register" "(\<lparr>hb_path = path, hb_events = []\<rparr>, s)"] f
    by simp
  moreover have "hooks_blank (s1\<lparr>apiExtensions := (apiExtensions s1)\<lparr>hooks := hs\<rparr>\<rparr>) = hooks_blank s1" for hs
    by (simp add: hooks_blank_def)
  ultimately show ?thesis
    by (simp add: registerHook_def f split: option.splits)
qed

lemma hooks_blank_logger [simp]: "hooks_blank (logger l m s) = hooks_blank s"
  by (simp add: hooks_blank_def logger_def)

lemma hooks_blank_registerHooks_try: "hooks_blank (registerHooks_try w hook s) = hooks_blank s"
proof -
  have "hooks_blank (case registerHook w c p s of
                (None, s1) \<Rightarrow> s1
              | (Some err, s1) \<Rightarrow>
                  logger Warn (Thrown err) (logger Warn (CouldntRegisterHook (ext_name hook)) s1))
        = hooks_blank s" for c p
    using hooks_blank_registerHook [of w c p s]
    by (cases "registerHook w c p s") (auto split: option.splits)
  then show ?thesis
    by (simp add: registerHooks_try_def Let_def split: entrypoint.splits sum.splits)
qed

lemma hooks_blank_registerHooks: "hooks_blank (registerHooks w s) = hooks_blank s"
  unfolding registerHooks_def by (rule fold_frame) (rule hooks_blank_registerHooks_try)

lemma endpoints_blank_registerEndpoints_try:
  "endpoints_blank (registerEndpoints_try w e s) = endpoints_blank s"
  by (simp add: registerEndpoints_try_def registerEndpoint_def Let_def endpoints_blank_def logger_def
      split: entrypoint.splits sum.splits option.splits endpoint_config.splits)

lemma endpoints_blank_registerEndpoints: "endpoints_blank (registerEndpoints w s) = endpoints_blank s"
  unfolding registerEndpoints_def by (rule fold_frame) (rule endpoints_blank_registerEndpoints_try)

lemma storages_blank_registerStorages_try:
  "storages_blank (registerStorages_try w e s) = storages_blank s"
  by (simp add: registerStorages_try_def Let_def storages_blank_def logger_def
      split: entrypoint.splits sum.splits)

lemma storages_blank_registerStorages: "storages_blank (registerStorages w s) = storages_blank s"
  unfolding registerStorages_def by (rule fold_frame) (rule storages_blank_registerStorages_try)

lemma operations_blank_registerOperations_try:
  "operations_blank (registerOperations_try w e s) = operations_blank s"
  by (simp add: registerOperations_try_def registerOperation_def Let_def operations_blank_def
      logger_def split: sum.splits option.splits)

lemma operations_blank_registerOperations:
  "operations_blank (registerOperations w s) = operations_blank s"
  unfolding registerOperations_def Let_def
  by (rule fold_frame) (rule operations_blank_registerOperations_try)

lemma unassigned_discover:
  "appExtensions (discover w s) = appExtensions s \<and> isLoaded (discover w s) = isLoaded s"
  by (simp add: discover_def logger_def split: option.splits sum.splits)

lemma unassigned_registrars:
  "appExtensions (registerOperations w (registerStorages w (registerEndpoints w (registerHooks w s))))
     = appExtensions s \<and>
   isLoaded (registerOperations w (registerStorages w (registerEndpoints w (registerHooks w s))))
     = isLoaded s"
proof -
  let ?s2 = "registerHooks w s"
  let ?s3 = "registerEndpoints w ?s2"
  let ?s4 = "registerStorages w ?s3"
  let ?s5 = "registerOperations w ?s4"
  have 2: "appExtensions ?s2 = appExtensions s \<and> isLoaded ?s2 = isLoaded s"
    using arg_cong [OF hooks_blank_registerHooks [of w s], of appExtensions]
      arg_cong [OF hooks_blank_registerHooks [of w s], of isLoaded]
    by (simp add: hooks_blank_def)
  have 3: "appExtensions ?s3 = appExtensions ?s2 \<and> isLoaded ?s3 = isLoaded ?s2"
    using arg_cong [OF endpoints_blank_registerEndpoints [of w ?s2], of appExtensions]
      arg_cong [OF endpoints_blank_registerEndpoints [of w ?s2], of isLoaded]
    by (simp add: endpoints_blank_def)
  have 4: "appExtensions ?s4 = appExtensions ?s3 \<and> isLoaded ?s4 = isLoaded ?s3"
    using arg_cong [OF storages_blank_registerStorages [of w ?s3], of appExtensions]
      arg_cong [OF storages_blank_registerStorages [of w ?s3], of isLoaded]
    by (simp add: storages_blank_def)
  have 5: "appExtensions ?s5 = appExtensions ?s4 \<and> isLoaded ?s5 = isLoaded ?s4"
    using arg_cong [OF operations_blank_registerOperations [of w ?s4], of appExtensions]
      arg_cong [OF operations_blank_registerOperations [of w ?s4], of isLoaded]
    by (simp add: operations_blank_def)
  show ?thesis using 2 3 4 5 by simp
qed

lemma extensions_registrars:
  "extensions (registerOperations w (registerStorages w (registerEndpoints w (registerHooks w s))))
   = extensions s"
proof -
  have "core (registerOperations w (registerStorages w (registerEndpoints w (registerHooks w s))))
        = core s"
    by (simp add: core_registerOperations core_registerStorages core_registerEndpoints
        core_registerHooks)
  then show ?thesis by (simp add: core_def)
qed

text \<open>The endpoint router and the operation registry across \<open>load\<close>.\<close>

lemma endpointRouter_load:
  "endpointRouter (snd (load w s)) = endpointRouter (registerEndpoints w (registerHooks w (discover w s)))"
proof -
  let ?s3 = "registerEndpoints w (registerHooks w (discover w s))"
  let ?s4 = "registerStorages w ?s3"
  let ?s5 = "registerOperations w ?s4"
  have 4: "endpointRouter ?s4 = endpointRouter ?s3"
    using arg_cong [OF storages_blank_registerStorages [of w ?s3], of endpointRouter]
    by (simp add: storages_blank_def)
  have 5: "endpointRouter ?s5 = endpointRouter ?s4"
    using arg_cong [OF operations_blank_registerOperations [of w ?s4], of endpointRouter]
    by (simp add: operations_blank_def)
  obtain l a i where "snd (load w s) = ?s5\<lparr>logs := logs ?s5 @ l, appExtensions := a, isLoaded := i\<rparr>"
    using load_logs by blast
  then have "endpointRouter (snd (load w s)) = endpointRouter ?s5"
    by simp
  then show ?thesis
    using 4 5 by simp
qed

lemma endpointRouter_registerHooks: "endpointRouter (registerHooks w s) = endpointRouter s"
  using arg_cong [OF hooks_blank_registerHooks [of w s], of endpointRouter]
  by (simp add: hooks_blank_def)

lemma endpointRouter_discover: "endpointRouter (discover w s) = endpointRouter s"
  by (simp add: discover_def logger_def split: option.splits sum.splits)

lemma extensions_registerHooks: "extensions (registerHooks w s) = extensions s"
  using core_registerHooks [of w s] by (simp add: core_def)

lemma endpointRouter_registerEndpoints_try:
  "endpointRouter (registerEndpoints_try w e s) = endpointRouter s @ mounted_layer w e"
  by (simp add: registerEndpoints_try_def registerEndpoint_def mounted_layer_def Let_def logger_def
      split: entrypoint.splits sum.splits option.splits endpoint_config.splits)

lemma endpointRouter_fold:
  "endpointRouter (fold (registerEndpoints_try w) es s) =
   endpointRouter s @ concat (map (mounted_layer w) es)"
  by (induction es arbitrary: s) (simp_all add: endpointRouter_registerEndpoints_try)

lemma endpointRouter_load_layers:
  "endpointRouter (snd (load w s)) =
   endpointRouter s @ concat (map (mounted_layer w)
     (filter (\<lambda>extension. ext_type extension = Endpoint) (extensions (discover w s))))"
  by (simp add: endpointRouter_load registerEndpoints_def endpointRouter_fold
      endpointRouter_registerHooks endpointRouter_discover extensions_registerHooks)


section \<open>Bundling is per type (C9)\<close>

lemma generateExtensionBundles_fst:
  "fst (generateExtensionBundles w s) =
     (case fst (getSharedDepsMapping w APP_SHARED_DEPS s') of
        Inl err \<Rightarrow> Inl err
      | Inr m \<Rightarrow>
          (case entry_failure w (extensions s) APP_EXTENSION_TYPES of
             Some err \<Rightarrow> Inl err
           | None \<Rightarrow>
               Inr (\<lambda>t. if t \<in> set APP_EXTENSION_TYPES
                         then generated_code w m (extensions s) t else None)))"
proof -
  obtain r s1 where g: "getSharedDepsMapping w APP_SHARED_DEPS s = (r, s1)"
    by (cases "getSharedDepsMapping w APP_SHARED_DEPS s")
  have r: "fst (getSharedDepsMapping w APP_SHARED_DEPS s') = r"
    using getSharedDepsMapping_fst [of w APP_SHARED_DEPS s' s] g by simp
  have e: "extensions s1 = extensions s"
    using core_getSharedDepsMapping [of w APP_SHARED_DEPS s] g by (simp add: core_def)
  show ?thesis
  proof (cases r)
    case (Inl err)
    then show ?thesis by (simp add: generateExtensionBundles_def g r)
  next
    case (Inr m)
    show ?thesis
    proof (cases "entry_failure w (extensions s) APP_EXTENSION_TYPES")
      case None
      then have "entry_failure w (extensions s1) APP_EXTENSION_TYPES = None"
        by (simp add: e)
      then show ?thesis
        by (simp add: generateExtensionBundles_def g r Inr None bundle_types_def bundle_loop_eq e
            fun_eq_iff split: option.splits)
    next
      case (Some err)
      then have "entry_failure w (extensions s1) APP_EXTENSION_TYPES = Some err"
        by (simp add: e)
      then show ?thesis
        by (simp add: generateExtensionBundles_def g r Inr Some bundle_types_def bundle_loop_failure)
    qed
  qed
qed

lemma generateExtensionBundles_fst_cong:
  assumes "extensions s = extensions s'"
  shows "fst (generateExtensionBundles w s) = fst (generateExtensionBundles w s')"
  unfolding generateExtensionBundles_fst [of w s s] generateExtensionBundles_fst [of w s' s] assms ..

lemma load_bundles:
  assumes "SERVE_APP w"
  shows "case fst (generateExtensionBundles w (discover w s)) of
           Inl err \<Rightarrow>
             fst (load w s) = Some err \<and> appExtensions (snd (load w s)) = appExtensions s \<and>
             isLoaded (snd (load w s)) = isLoaded s
         | Inr bundles \<Rightarrow>
             fst (load w s) = None \<and> appExtensions (snd (load w s)) = bundles \<and>
             isLoaded (snd (load w s))"
proof -
  let ?s5 = "registerOperations w (registerStorages w (registerEndpoints w
               (registerHooks w (discover w s))))"
  obtain r s' where g: "generateExtensionBundles w ?s5 = (r, s')"
    by (cases "generateExtensionBundles w ?s5")
  have "fst (generateExtensionBundles w (discover w s)) = fst (generateExtensionBundles w ?s5)"
    by (rule generateExtensionBundles_fst_cong) (simp add: extensions_registrars)
  then have r: "fst (generateExtensionBundles w (discover w s)) = r"
    by (simp add: g)
  obtain l where l: "s' = ?s5\<lparr>logs := logs ?s5 @ l\<rparr>"
    using generateExtensionBundles_logs [of w ?s5] g by auto
  have u: "appExtensions ?s5 = appExtensions s \<and> isLoaded ?s5 = isLoaded s"
    using unassigned_registrars [of w "discover w s"] unassigned_discover [of w s] by simp
  show ?thesis
    by (cases r) (simp_all add: r load_eq assms g l u)
qed





section \<open>Discovery failure (C2)\<close>















lemma load_rejects_with:
  "fst (load w s) =
     (if SERVE_APP w
      then (case fst (generateExtensionBundles w (discover w s)) of
              Inl e \<Rightarrow> Some e | Inr bundles \<Rightarrow> None)
      else None)"
proof (cases "SERVE_APP w")
  case True
  show ?thesis
    using load_bundles [OF True, of s] by (simp add: True split: sum.splits)
next
  case False
  then show ?thesis by (simp add: load_completes)
qed






section \<open>Endpoint mount segments (C7)\<close>

text \<open>
  C7: \<open>registerEndpoint\<close> mounts one new layer on the shared router, at \<open>/name\<close>
  for a bare handler function and at \<open>/id\<close> for an object, and the sub-router of the
  layer holds the routes of that handler only. After \<open>load\<close> the router has, after
  the layers it had, one such layer for each endpoint extension whose module loads, in
  discovery order. Two discoveries that find the same descriptors in another order give
  the same set of layers on an empty router.
\<close>

theorem endpoint_mount_segments:
  "endpointRouter (snd (registerEndpoint (EndpointFunction f) path name s)) =
     endpointRouter s @ [(''/'' @ name, eh_routes f)] \<and>
   endpointRouter (snd (registerEndpoint (EndpointObject ident f) path name s)) =
     endpointRouter s @ [(''/'' @ ident, eh_routes f)] \<and>
   endpointRouter (snd (load w s)) =
     endpointRouter s @ concat (map (mounted_layer w)
       (filter (\<lambda>extension. ext_type extension = Endpoint) (extensions (discover w s)))) \<and>
   (endpointRouter s = [] \<and>
    set (extensions (discover (w\<lparr>getPackageExtensions := g, getLocalExtensions := l\<rparr>) s)) =
      set (extensions (discover w s)) \<longrightarrow>
    set (endpointRouter (snd (load (w\<lparr>getPackageExtensions := g, getLocalExtensions := l\<rparr>) s))) =
      set (endpointRouter (snd (load w s))))"
proof -
  let ?w' = "w\<lparr>getPackageExtensions := g, getLocalExtensions := l\<rparr>"
  have m: "mounted_layer ?w' = mounted_layer w"
    by (rule ext) (simp add: mounted_layer_def split: entrypoint.splits)
  have 1: "endpointRouter (snd (registerEndpoint (EndpointFunction f) path name s)) =
     endpointRouter s @ [(''/'' @ name, eh_routes f)]"
    by (simp add: registerEndpoint_def Let_def split: option.splits)
  have 2: "endpointRouter (snd (registerEndpoint (EndpointObject ident f) path name s)) =
     endpointRouter s @ [(''/'' @ ident, eh_routes f)]"
    by (simp add: registerEndpoint_def Let_def split: option.splits)
  have 4: "set (endpointRouter (snd (load ?w' s))) = set (endpointRouter (snd (load w s)))"
    if "endpointRouter s = []"
      "set (extensions (discover ?w' s)) = set (extensions (discover w s))"
    unfolding endpointRouter_load_layers m using that by simp
  show ?thesis
    by (intro conjI impI) (fact 1, fact 2, fact endpointRouter_load_layers, elim conjE, rule 4)
qed

theorem endpoint_mount_segments_witness:
  "endpointRouter (new_ExtensionManager world_alpha_beta) = [] \<and>
   set (extensions (discover
      (world_alpha_beta\<lparr>getPackageExtensions := (\<lambda>root types. Inr []),
                        getLocalExtensions := (\<lambda>root types. Inr [beta, alpha])\<rparr>)
      (new_ExtensionManager world_alpha_beta))) =
     set (extensions (discover world_alpha_beta (new_ExtensionManager world_alpha_beta))) \<and>
   map fst (endpointRouter (snd (load world_alpha_beta (new_ExtensionManager world_alpha_beta)))) =
     [''/alpha'', ''/beta''] \<and>
   set (map fst (endpointRouter (snd (load
      (world_alpha_beta\<lparr>getPackageExtensions := (\<lambda>root types. Inr []),
                        getLocalExtensions := (\<lambda>root types. Inr [beta, alpha])\<rparr>)
      (new_ExtensionManager world_alpha_beta))))) = {''/alpha'', ''/beta''}"
proof -
  let ?s = "new_ExtensionManager world_alpha_beta"
  let ?w' = "world_alpha_beta\<lparr>getPackageExtensions := (\<lambda>root types. Inr []),
                        getLocalExtensions := (\<lambda>root types. Inr [beta, alpha])\<rparr>"
  note t = endpoint_mount_segments [where s = ?s and w = world_alpha_beta
      and g = "\<lambda>root types. Inr []" and l = "\<lambda>root types. Inr [beta, alpha]",
      THEN conjunct2, THEN conjunct2]
  have r: "endpointRouter ?s = []"
    by (simp add: new_ExtensionManager_def)
  have d: "extensions (discover world_alpha_beta ?s) = [alpha, beta]"
    by (simp add: discover_def getExtensions_def world_alpha_beta_def world0_def)
  have d': "extensions (discover ?w' ?s) = [beta, alpha]"
    by (simp add: discover_def getExtensions_def world_alpha_beta_def world0_def)
  have l: "endpointRouter (snd (load world_alpha_beta ?s)) =
           [(''/alpha'', [''GET /'']), (''/beta'', [''POST /''])]"
    unfolding t [THEN conjunct1] r d
    by (simp add: mounted_layer_def alpha_def beta_def world_alpha_beta_def world0_def)
  have s: "set (extensions (discover ?w' ?s)) = set (extensions (discover world_alpha_beta ?s))"
    unfolding d d' by auto
  have "set (endpointRouter (snd (load ?w' ?s))) = set (endpointRouter (snd (load world_alpha_beta ?s)))"
    by (rule t [THEN conjunct2, THEN mp, OF conjI [OF r s]])
  then have 4: "set (map fst (endpointRouter (snd (load ?w' ?s)))) = {''/alpha'', ''/beta''}"
    unfolding set_map l by simp
  have 3: "map fst (endpointRouter (snd (load world_alpha_beta ?s))) = [''/alpha'', ''/beta'']"
    unfolding l by simp
  show ?thesis
    by (intro conjI) (fact r, fact s, fact 3, fact 4)
qed


section \<open>Operations (C8)\<close>

lemma split_not_Nil [simp]: "split c s \<noteq> []"
  by (induction s) (auto split: list.splits)

lemma split_append: "split c (a @ c # b) = split c a @ split c b"
proof (induction a)
  case Nil
  then show ?case by simp
next
  case (Cons x a)
  then show ?case
    by (cases "split c a") (auto split: list.splits)
qed

lemma split_no_sep: "c \<notin> set s \<Longrightarrow> split c s = [s]"
  by (induction s) auto

lemma join_snoc: "xs \<noteq> [] \<Longrightarrow> join sep (xs @ [x]) = join sep xs @ sep @ x"
  by (induction sep xs rule: join.induct) auto

lemma join_split: "join [c] (split c s) = s"
proof (induction s)
  case Nil
  then show ?case by simp
next
  case (Cons x s)
  show ?case
  proof (cases "x = c")
    case True
    then show ?thesis
      using Cons by (cases "split c s") auto
  next
    case False
    then show ?thesis
      using Cons by (cases "split c s"; cases "tl (split c s)") auto
  qed
qed

lemma internalOperation_named_by_directory:
  assumes "sep \<notin> set name" "sep \<notin> set entry"
  shows "internalOperation sep (dir @ [sep] @ name @ [sep] @ entry) =
         \<lparr>os_name = Some name, os_path = dir @ [sep] @ name, os_api = Some entry\<rparr>"
proof -
  have d: "split sep (dir @ [sep] @ name @ [sep] @ entry) = (split sep dir @ [name]) @ [entry]"
    using assms split_append [of sep dir "name @ sep # entry"] split_append [of sep name entry]
    by (simp add: split_no_sep)
  have n: "((split sep dir @ [name]) @ [entry]) ! (length ((split sep dir @ [name]) @ [entry]) - 2) = name"
    by (simp add: nth_append)
  have j: "join [sep] (split sep dir @ [name]) = dir @ [sep] @ name"
    by (simp add: join_snoc join_split)
  show ?thesis
    unfolding internalOperation_def d Let_def n
    by (simp add: j del: append_assoc)
qed

lemma flow_operations_registerOperations_try:
  "flow_operations (registerOperations_try w operation s) = flow_operations s @ forwarded w operation"
  by (simp add: registerOperations_try_def registerOperation_def forwarded_def Let_def logger_def
      split: option.splits sum.splits)

lemma flow_operations_fold:
  "flow_operations (fold (registerOperations_try w) ops s) =
   flow_operations s @ concat (map (forwarded w) ops)"
  by (induction ops arbitrary: s) (simp_all add: flow_operations_registerOperations_try)

lemma flow_operations_discover: "flow_operations (discover w s) = flow_operations s"
  by (simp add: discover_def logger_def split: option.splits sum.splits)

lemma flow_operations_registerHooks: "flow_operations (registerHooks w s) = flow_operations s"
  using arg_cong [OF hooks_blank_registerHooks [of w s], of flow_operations]
  by (simp add: hooks_blank_def)

lemma flow_operations_registerEndpoints: "flow_operations (registerEndpoints w s) = flow_operations s"
  using arg_cong [OF endpoints_blank_registerEndpoints [of w s], of flow_operations]
  by (simp add: endpoints_blank_def)

lemma flow_operations_registerStorages: "flow_operations (registerStorages w s) = flow_operations s"
  using arg_cong [OF storages_blank_registerStorages [of w s], of flow_operations]
  by (simp add: storages_blank_def)

lemma extensions_before_operations:
  "extensions (registerStorages w (registerEndpoints w (registerHooks w s))) = extensions s"
proof -
  have "core (registerStorages w (registerEndpoints w (registerHooks w s))) = core s"
    by (simp add: core_registerStorages core_registerEndpoints core_registerHooks)
  then show ?thesis by (simp add: core_def)
qed

lemma flow_operations_load:
  "flow_operations (snd (load w s)) =
   flow_operations s @ concat (map (forwarded w) (internalOperations w)) @
   concat (map (forwarded w) (map operation_of_extension
     (filter (\<lambda>extension. ext_type extension = Operation) (extensions (discover w s)))))"
proof -
  let ?s4 = "registerStorages w (registerEndpoints w (registerHooks w (discover w s)))"
  have 4: "flow_operations ?s4 = flow_operations s"
    by (simp add: flow_operations_registerStorages flow_operations_registerEndpoints
        flow_operations_registerHooks flow_operations_discover)
  have 5: "flow_operations (registerOperations w ?s4) =
     flow_operations s @ concat (map (forwarded w) (internalOperations w)) @
     concat (map (forwarded w) (map operation_of_extension
       (filter (\<lambda>extension. ext_type extension = Operation) (extensions (discover w s)))))"
    unfolding registerOperations_def Let_def flow_operations_fold 4 extensions_before_operations
    by simp
  obtain l a i where "snd (load w s) =
      (registerOperations w ?s4)\<lparr>logs := logs (registerOperations w ?s4) @ l,
        appExtensions := a, isLoaded := i\<rparr>"
    using load_logs by blast
  then have "flow_operations (snd (load w s)) = flow_operations (registerOperations w ?s4)"
    by simp
  then show ?thesis by (simp only: 5)
qed

text \<open>
  C8: an internal operation found at \<open>dir/name/entry\<close> is named \<open>name\<close>, after its
  directory, and loaded from that entry file. \<open>registerOperation\<close> forwards the id and the
  handler of a configuration to the operation registry. After \<open>load\<close> the registry
  holds, after what it held, the pairs of the internal operations that load, and only
  after those the pairs of the operation extensions that load, in discovery order.
\<close>

theorem builtin_operations_first:
  "(sep \<notin> set name \<and> sep \<notin> set entry \<longrightarrow>
      internalOperation sep (dir @ [sep] @ name @ [sep] @ entry) =
        \<lparr>os_name = Some name, os_path = dir @ [sep] @ name, os_api = Some entry\<rparr>) \<and>
   length (internalOperations w) = length (globby_operations w) \<and>
   flow_operations (registerOperation config path s) =
     flow_operations s @ [(oc_id config, oc_handler config)] \<and>
   flow_operations (snd (load w s)) =
     flow_operations s @ concat (map (forwarded w) (internalOperations w)) @
     concat (map (forwarded w) (map operation_of_extension
       (filter (\<lambda>extension. ext_type extension = Operation) (extensions (discover w s)))))"
proof -
  have 3: "flow_operations (registerOperation config path s) =
     flow_operations s @ [(oc_id config, oc_handler config)]"
    by (simp add: registerOperation_def Let_def)
  have 2: "length (internalOperations w) = length (globby_operations w)"
    by (simp add: internalOperations_def)
  show ?thesis
    by (intro conjI impI)
       (elim conjE, rule internalOperation_named_by_directory, assumption, assumption,
        fact 2, fact 3, fact flow_operations_load)
qed

theorem builtin_operations_first_witness:
  "CHR ''/'' \<notin> set ''log'' \<and> CHR ''/'' \<notin> set ''index.js'' \<and>
   internalOperation CHR ''/'' ''dist/operations/log/index.js'' =
     \<lparr>os_name = Some ''log'', os_path = ''dist/operations/log'', os_api = Some ''index.js''\<rparr> \<and>
   flow_operations (snd (load world_operations (new_ExtensionManager world_operations))) =
     [(''log'', ''logHandler''), (''mail'', ''mailHandler''), (''mail'', ''customMail'')]"
proof -
  note t = builtin_operations_first [where sep = "CHR ''/''" and name = "''log''"
      and entry = "''index.js''" and dir = "''dist/operations''" and w = world_operations
      and s = "new_ExtensionManager world_operations"]
  have a: "CHR ''/'' \<notin> set ''log'' \<and> CHR ''/'' \<notin> set ''index.js''"
    by simp
  have 1: "internalOperation CHR ''/'' ''dist/operations/log/index.js'' =
     \<lparr>os_name = Some ''log'', os_path = ''dist/operations/log'', os_api = Some ''index.js''\<rparr>"
    using t [THEN conjunct1, THEN mp, OF a] by simp
  have d: "extensions (discover world_operations (new_ExtensionManager world_operations)) =
           [my_operation]"
    by (simp add: discover_def getExtensions_def world_operations_def world0_def)
  have i: "internalOperations world_operations =
     [\<lparr>os_name = Some ''log'', os_path = ''dist/operations/log'', os_api = Some ''index.js''\<rparr>,
      \<lparr>os_name = Some ''mail'', os_path = ''dist/operations/mail'', os_api = Some ''index.js''\<rparr>]"
    by (simp add: internalOperations_def internalOperation_def world_operations_def world0_def)
  have 2: "flow_operations (snd (load world_operations (new_ExtensionManager world_operations))) =
     [(''log'', ''logHandler''), (''mail'', ''mailHandler''), (''mail'', ''customMail'')]"
    unfolding t [THEN conjunct2, THEN conjunct2, THEN conjunct2] d i
    by (simp add: forwarded_def operation_of_extension_def my_operation_def world_operations_def
        world0_def new_ExtensionManager_def)
  show ?thesis
    using a 1 2 by (intro conjI) simp_all
qed


section \<open>Normalization of exports (C4)\<close>

lemma registerFunctions_cong:
  assumes "validate w' = validate w"
  shows "registerFunctions w' = registerFunctions w"
proof (intro ext)
  fix c p
  show "registerFunctions w' c p = registerFunctions w c p"
    using assms by (cases c; cases p) simp_all
qed

lemma registerHook_cong:
  assumes "validate w' = validate w"
  shows "registerHook w' = registerHook w"
  by (intro ext) (simp add: registerHook_def registerFunctions_cong [OF assms])

lemma normalized_cases:
  assumes "normalized r' = normalized r"
  shows "(\<exists>err. r' = Inl err \<and> r = Inl err) \<or>
         (\<exists>m' m. r' = Inr m' \<and> r = Inr m \<and> getModuleDefault m' = getModuleDefault m)"
  using assms by (cases r'; cases r) (simp_all add: normalized_def)

lemma registerHooks_cong:
  assumes "path_resolve w' = path_resolve w" "validate w' = validate w"
    and "\<forall>p. normalized (require_hook w' p) = normalized (require_hook w p)"
  shows "registerHooks w' = registerHooks w"
proof -
  have "registerHooks_try w' hook s = registerHooks_try w hook s" for hook s
  proof (cases "ext_entrypoint hook")
    case (HybridEntrypoint a b)
    then show ?thesis by (simp add: registerHooks_try_def)
  next
    case (Entrypoint ep)
    show ?thesis
      using normalized_cases [OF assms(3) [rule_format, of "path_resolve w [ext_path hook, ep]"]]
      by (auto simp add: registerHooks_try_def Entrypoint assms(1) registerHook_cong [OF assms(2)])
  qed
  then have "registerHooks_try w' = registerHooks_try w"
    by (intro ext)
  then show ?thesis
    by (intro ext) (simp add: registerHooks_def)
qed

lemma registerEndpoints_cong:
  assumes "path_resolve w' = path_resolve w"
    and "\<forall>p. normalized (require_endpoint w' p) = normalized (require_endpoint w p)"
  shows "registerEndpoints w' = registerEndpoints w"
proof -
  have "registerEndpoints_try w' endpoint s = registerEndpoints_try w endpoint s" for endpoint s
  proof (cases "ext_entrypoint endpoint")
    case (HybridEntrypoint a b)
    then show ?thesis by (simp add: registerEndpoints_try_def)
  next
    case (Entrypoint ep)
    show ?thesis
      using normalized_cases [OF assms(2) [rule_format, of "path_resolve w [ext_path endpoint, ep]"]]
      by (auto simp add: registerEndpoints_try_def Entrypoint assms(1))
  qed
  then have "registerEndpoints_try w' = registerEndpoints_try w"
    by (intro ext)
  then show ?thesis
    by (intro ext) (simp add: registerEndpoints_def)
qed

lemma registerOperations_cong:
  assumes "path_resolve w' = path_resolve w" "path_sep w' = path_sep w"
    and "globby_operations w' = globby_operations w"
    and "\<forall>p. normalized (require_operation w' p) = normalized (require_operation w p)"
  shows "registerOperations w' = registerOperations w"
proof -
  have "registerOperations_try w' operation s = registerOperations_try w operation s" for operation s
  proof (cases "os_api operation")
    case None
    then show ?thesis by (simp add: registerOperations_try_def)
  next
    case (Some api)
    show ?thesis
      using normalized_cases [OF assms(4) [rule_format, of "path_resolve w [os_path operation, api]"]]
      by (auto simp add: registerOperations_try_def Some assms(1))
  qed
  then have "registerOperations_try w' = registerOperations_try w"
    by (intro ext)
  then show ?thesis
    by (intro ext) (simp add: registerOperations_def internalOperations_def assms(2,3))
qed

lemma load_cong:
  assumes "discover w' = discover w" "registerHooks w' = registerHooks w"
    and "registerEndpoints w' = registerEndpoints w" "registerStorages w' = registerStorages w"
    and "registerOperations w' = registerOperations w" "SERVE_APP w' = SERVE_APP w"
    and "generateExtensionBundles w' = generateExtensionBundles w"
  shows "load w' s = load w s"
  by (simp add: load_def Let_def assms)

lemma getSharedDepsMapping_loop_cong:
  assumes "asset_url w' = asset_url w"
  shows "getSharedDepsMapping_loop w' appDir deps (m, s) =
         getSharedDepsMapping_loop w appDir deps (m, s)"
  by (induction deps arbitrary: m s) (simp_all add: assms split: option.splits sum.splits)

lemma bundle_loop_cong:
  assumes "generateExtensionsEntry w' = generateExtensionsEntry w" "rollup w' = rollup w"
  shows "bundle_loop w' m ts (b, s) = bundle_loop w m ts (b, s)"
proof (induction ts arbitrary: b s)
  case Nil
  show ?case by simp
next
  case (Cons u ts)
  have t: "bundle_type w' m u entry (b, s) = bundle_type w m u entry (b, s)" for entry
    by (simp add: assms Let_def)
  show ?case
  proof (cases "generateExtensionsEntry w u (extensions s)")
    case (Inl err)
    then show ?thesis by (simp add: assms)
  next
    case (Inr entry)
    obtain b' s' where p: "bundle_type w m u entry (b, s) = (b', s')"
      by (cases "bundle_type w m u entry (b, s)")
    show ?thesis
      using Cons.IH [of b' s'] by (simp add: assms Inr t p del: bundle_type.simps)
  qed
qed

lemma generateExtensionBundles_cong:
  assumes "readdir_assets w' = readdir_assets w" "asset_url w' = asset_url w"
    and "generateExtensionsEntry w' = generateExtensionsEntry w" "rollup w' = rollup w"
  shows "generateExtensionBundles w' s = generateExtensionBundles w s"
proof -
  have "getSharedDepsMapping w' APP_SHARED_DEPS s = getSharedDepsMapping w APP_SHARED_DEPS s"
    by (simp add: getSharedDepsMapping_def assms(1) getSharedDepsMapping_loop_cong [OF assms(2)]
        split: sum.splits)
  then show ?thesis
    by (simp add: generateExtensionBundles_def bundle_types_def bundle_loop_cong [OF assms(3,4)]
        split: prod.splits sum.splits)
qed

lemma storage_stored_verbatim:
  assumes "ext_entrypoint storage = Entrypoint ep"
    and "require_storage w (path_resolve w [ext_path storage, ep]) = Inr exported"
  shows "storages (apiExtensions (registerStorages_try w storage s)) =
         storages (apiExtensions s) @
           [\<lparr>sb_path = path_resolve w [ext_path storage, ep], sb_config = exported\<rparr>]"
  using assms by (simp add: registerStorages_try_def)

lemma storages_load_world_storage:
  "storages (apiExtensions (snd (load (world_storage exported) (new_ExtensionManager world0)))) =
     [\<lparr>sb_path = ''/app/extensions/storages/s3/index.js'', sb_config = exported\<rparr>]"
  by (simp add: load_def discover_def getExtensions_def registerHooks_def registerEndpoints_def
      registerStorages_def registerStorages_try_def registerOperations_def internalOperations_def
      world_storage_def world0_def my_storage_def new_ExtensionManager_def)

text \<open>
  C4 as stated does not hold for storages: \<open>registerStorages\<close> stores what \<open>require\<close>
  returned, so the same driver configuration exported bare and exported as a default
  gives two different registry entries.
\<close>

theorem storage_export_not_normalized_counterexample:
  "storages (apiExtensions (snd (load (world_storage (Bare ''driver'')) (new_ExtensionManager world0)))) \<noteq>
   storages (apiExtensions (snd (load (world_storage (DefaultExport ''driver'')) (new_ExtensionManager world0))))"
  by (simp add: storages_load_world_storage)

text \<open>
  C4, amended: for hooks, endpoints and operations the registrar normalizes the export;
  two module loaders that give the same configurations, bare in one and wrapped as a
  default in the other, lead \<open>load\<close> to the same state. For a storage the registrar
  records the export of the module as \<open>require\<close> returned it, without normalizing it.
\<close>

theorem export_normalization:
  "((\<forall>p. normalized (rh' p) = normalized (rh p)) \<and>
    (\<forall>p. normalized (re' p) = normalized (re p)) \<and>
    (\<forall>p. normalized (ro' p) = normalized (ro p)) \<longrightarrow>
      load (w\<lparr>require_hook := rh', require_endpoint := re', require_operation := ro'\<rparr>) s =
      load (w\<lparr>require_hook := rh, require_endpoint := re, require_operation := ro\<rparr>) s) \<and>
   (ext_entrypoint storage = Entrypoint ep \<and>
    require_storage w (path_resolve w [ext_path storage, ep]) = Inr exported \<longrightarrow>
      storages (apiExtensions (registerStorages_try w storage s)) =
        storages (apiExtensions s) @
          [\<lparr>sb_path = path_resolve w [ext_path storage, ep], sb_config = exported\<rparr>])"
proof -
  let ?w' = "w\<lparr>require_hook := rh', require_endpoint := re', require_operation := ro'\<rparr>"
  let ?w = "w\<lparr>require_hook := rh, require_endpoint := re, require_operation := ro\<rparr>"
  have "load ?w' s = load ?w s"
    if h: "\<forall>p. normalized (rh' p) = normalized (rh p)"
      and e: "\<forall>p. normalized (re' p) = normalized (re p)"
      and o: "\<forall>p. normalized (ro' p) = normalized (ro p)"
  proof (rule load_cong)
    have "getExtensions ?w' = getExtensions ?w"
      by (simp add: getExtensions_def split: sum.splits)
    then show "discover ?w' = discover ?w"
      by (intro ext) (simp add: discover_def split: option.splits)
    show "registerHooks ?w' = registerHooks ?w"
      by (rule registerHooks_cong) (simp_all add: h)
    show "registerEndpoints ?w' = registerEndpoints ?w"
      by (rule registerEndpoints_cong) (simp_all add: e)
    have "registerStorages_try ?w' = registerStorages_try ?w"
      by (intro ext) (simp add: registerStorages_try_def split: entrypoint.splits)
    then show "registerStorages ?w' = registerStorages ?w"
      by (intro ext) (simp add: registerStorages_def)
    show "registerOperations ?w' = registerOperations ?w"
      by (rule registerOperations_cong) (simp_all add: o)
    show "SERVE_APP ?w' = SERVE_APP ?w"
      by simp
    show "generateExtensionBundles ?w' = generateExtensionBundles ?w"
      by (intro ext generateExtensionBundles_cong) simp_all
  qed
  then show ?thesis
    using storage_stored_verbatim [of storage ep w exported s] by blast
qed


theorem export_normalization_witness:
  "(\<forall>p. normalized (require_hook world_wrapped p) = normalized (require_hook world_bare p)) \<and>
   (\<forall>p. normalized (require_endpoint world_wrapped p) = normalized (require_endpoint world_bare p)) \<and>
   (\<forall>p. normalized (require_operation world_wrapped p) = normalized (require_operation world_bare p)) \<and>
   load world_wrapped (new_ExtensionManager world0) = load world_bare (new_ExtensionManager world0) \<and>
   hooks (apiExtensions (snd (load world_bare (new_ExtensionManager world0)))) =
     [\<lparr>hb_path = ''/app/node_modules/directus-extension-my-hook/dist/index.js'',
       hb_events = [ActionEvent ''items.update'' ''onUpdate'']\<rparr>] \<and>
   ext_entrypoint my_storage = Entrypoint ''index.js'' \<and>
   require_storage (world_storage (DefaultExport ''driver''))
     (path_resolve (world_storage (DefaultExport ''driver'')) [ext_path my_storage, ''index.js'']) =
     Inr (DefaultExport ''driver'') \<and>
   storages (apiExtensions (registerStorages_try (world_storage (DefaultExport ''driver'')) my_storage
       (new_ExtensionManager world0))) =
     [\<lparr>sb_path = ''/app/extensions/storages/s3/index.js'', sb_config = DefaultExport ''driver''\<rparr>]"
proof -
  have h: "\<forall>p. normalized (require_hook world_wrapped p) = normalized (require_hook world_bare p)"
    by (simp add: world_wrapped_def world_bare_def world_modules_def normalized_def)
  have e: "\<forall>p. normalized (require_endpoint world_wrapped p) = normalized (require_endpoint world_bare p)"
    by (simp add: world_wrapped_def world_bare_def world_modules_def normalized_def)
  have o: "\<forall>p. normalized (require_operation world_wrapped p) = normalized (require_operation world_bare p)"
    by (simp add: world_wrapped_def world_bare_def world_modules_def normalized_def)
  have w': "world_wrapped = world_modules\<lparr>require_hook := require_hook world_wrapped,
      require_endpoint := require_endpoint world_wrapped,
      require_operation := require_operation world_wrapped\<rparr>"
    by (simp add: world_wrapped_def world_modules_def)
  have w: "world_bare = world_modules\<lparr>require_hook := require_hook world_bare,
      require_endpoint := require_endpoint world_bare,
      require_operation := require_operation world_bare\<rparr>"
    by (simp add: world_bare_def world_modules_def)
  have l: "load world_wrapped (new_ExtensionManager world0) = load world_bare (new_ExtensionManager world0)"
    using export_normalization [where w = world_modules and s = "new_ExtensionManager world0"
        and rh' = "require_hook world_wrapped" and rh = "require_hook world_bare"
        and re' = "require_endpoint world_wrapped" and re = "require_endpoint world_bare"
        and ro' = "require_operation world_wrapped" and ro = "require_operation world_bare",
        THEN conjunct1, THEN mp, OF conjI [OF h conjI [OF e o]]]
    unfolding w' [symmetric] w [symmetric] .
  have b: "hooks (apiExtensions (snd (load world_bare (new_ExtensionManager world0)))) =
     [\<lparr>hb_path = ''/app/node_modules/directus-extension-my-hook/dist/index.js'',
       hb_events = [ActionEvent ''items.update'' ''onUpdate'']\<rparr>]"
    by (simp add: load_def discover_def getExtensions_def registerHooks_def registerHooks_try_def
        registerHook_def registerEndpoints_def registerStorages_def registerOperations_def
        internalOperations_def onAction_def
        world_bare_def world_modules_def world0_def my_hook_def new_ExtensionManager_def)
  have s1: "ext_entrypoint my_storage = Entrypoint ''index.js''"
    by (simp add: my_storage_def)
  have s2: "require_storage (world_storage (DefaultExport ''driver''))
     (path_resolve (world_storage (DefaultExport ''driver'')) [ext_path my_storage, ''index.js'']) =
     Inr (DefaultExport ''driver'')"
    by (simp add: world_storage_def world0_def my_storage_def)
  have s3: "storages (apiExtensions (registerStorages_try (world_storage (DefaultExport ''driver'')) my_storage
       (new_ExtensionManager world0))) =
     [\<lparr>sb_path = ''/app/extensions/storages/s3/index.js'', sb_config = DefaultExport ''driver''\<rparr>]"
    using export_normalization [where w = "world_storage (DefaultExport ''driver'')"
        and storage = my_storage and ep = "''index.js''" and exported = "DefaultExport ''driver''"
        and s = "new_ExtensionManager world0",
        THEN conjunct2, THEN mp, OF conjI [OF s1 s2]]
    by (simp add: world_storage_def world0_def my_storage_def new_ExtensionManager_def)
  show ?thesis
    by (intro conjI) (fact h, fact e, fact o, fact l, fact b, fact s1, fact s2, fact s3)
qed


section \<open>Reload and the watch set (C5)\<close>

lemma flatMap_Inr:
  assumes "\<forall>x \<in> set xs. f x = Inr (g x)"
  shows "flatMap f xs = Inr (concat (map g xs))"
  using assms by (induction xs) simp_all

lemma extension_files_well_typed:
  assumes "well_typed extension" "\<not> ext_local extension"
  shows "extension_files w extension = Inr (contributes w extension)"
  using assms
  by (auto simp add: well_typed_def extension_files_def contributes_def split: entrypoint.splits)

lemma contributes_local: "ext_local extension \<Longrightarrow> contributes w extension = []"
  by (simp add: contributes_def)

lemma watch_files_filter:
  "concat (map (contributes w) (filter (\<lambda>extension. \<not> ext_local extension) exts)) =
   watch_files w exts"
  unfolding watch_files_def by (induction exts) (simp_all add: contributes_local)

lemma toPackageExtensionPaths_well_typed:
  assumes "\<forall>extension \<in> set exts. well_typed extension"
  shows "toPackageExtensionPaths w exts = Inr (watch_files w exts)"
proof -
  have "flatMap (extension_files w) (filter (\<lambda>extension. \<not> ext_local extension) exts) =
        Inr (concat (map (contributes w) (filter (\<lambda>extension. \<not> ext_local extension) exts)))"
    by (rule flatMap_Inr) (simp add: assms extension_files_well_typed)
  then show ?thesis
    by (simp add: toPackageExtensionPaths_def watch_files_filter)
qed

lemma set_watch_files: "set (watch_files w exts) = (\<Union>e \<in> set exts. set (contributes w e))"
  by (simp add: watch_files_def)

lemma set_added_extensions:
  "set (added_extensions S1 S2) = {e \<in> set S2. \<forall>p \<in> set S1. ext_path e \<noteq> ext_path p}"
  by (auto simp add: added_extensions_def list_ex_iff)

lemma set_removed_extensions:
  "set (removed_extensions S1 S2) = {p \<in> set S1. \<forall>e \<in> set S2. ext_path p \<noteq> ext_path e}"
  by (auto simp add: removed_extensions_def list_ex_iff)

lemma unchanged_nothing_added: "added_extensions S S = []"
  by (auto simp add: added_extensions_def list_ex_iff filter_empty_conv)

lemma unchanged_nothing_removed: "removed_extensions S S = []"
  by (auto simp add: removed_extensions_def list_ex_iff filter_empty_conv)

lemma watch_set_update:
  assumes same: "\<forall>e1 \<in> set S1. \<forall>e2 \<in> set S2. ext_path e1 = ext_path e2 \<longrightarrow>
                   set (contributes w e1) = set (contributes w e2)"
    and apart: "\<forall>r \<in> set (removed_extensions S1 S2).
                   set (contributes w r) \<inter> (B \<union> set (watch_files w S2)) = {}"
  shows "(B \<union> set (watch_files w S1) \<union> set (watch_files w (added_extensions S1 S2)))
           - set (watch_files w (removed_extensions S1 S2)) =
         B \<union> set (watch_files w S2)"
    (is "?L = ?R")
proof (intro set_eqI iffI)
  fix x
  assume x: "x \<in> ?L"
  then have nr: "x \<notin> set (watch_files w (removed_extensions S1 S2))"
    by simp
  from x consider "x \<in> B" | "x \<in> set (watch_files w S1)"
    | "x \<in> set (watch_files w (added_extensions S1 S2))"
    by auto
  then show "x \<in> ?R"
  proof cases
    case 1
    then show ?thesis by simp
  next
    case 2
    then obtain e1 where e1: "e1 \<in> set S1" "x \<in> set (contributes w e1)"
      by (auto simp add: set_watch_files)
    have "e1 \<notin> set (removed_extensions S1 S2)"
      using nr e1(2) by (auto simp add: set_watch_files)
    then obtain e2 where e2: "e2 \<in> set S2" "ext_path e1 = ext_path e2"
      using e1(1) by (auto simp add: set_removed_extensions)
    then have "x \<in> set (contributes w e2)"
      using same e1 by blast
    then show ?thesis
      using e2(1) by (auto simp add: set_watch_files)
  next
    case 3
    then show ?thesis
      by (auto simp add: set_watch_files set_added_extensions)
  qed
next
  fix x
  assume x: "x \<in> ?R"
  have nr: "x \<notin> set (watch_files w (removed_extensions S1 S2))"
  proof
    assume "x \<in> set (watch_files w (removed_extensions S1 S2))"
    then obtain r where "r \<in> set (removed_extensions S1 S2)" "x \<in> set (contributes w r)"
      by (auto simp add: set_watch_files)
    then show False
      using apart x by blast
  qed
  from x consider "x \<in> B" | "x \<in> set (watch_files w S2)"
    by auto
  then have "x \<in> B \<union> set (watch_files w S1) \<union> set (watch_files w (added_extensions S1 S2))"
  proof cases
    case 1
    then show ?thesis by simp
  next
    case 2
    then obtain e2 where e2: "e2 \<in> set S2" "x \<in> set (contributes w e2)"
      by (auto simp add: set_watch_files)
    show ?thesis
    proof (cases "e2 \<in> set (added_extensions S1 S2)")
      case True
      then show ?thesis
        using e2(2) by (auto simp add: set_watch_files)
    next
      case False
      then obtain e1 where e1: "e1 \<in> set S1" "ext_path e2 = ext_path e1"
        using e2(1) by (auto simp add: set_added_extensions)
      then have "x \<in> set (contributes w e1)"
        using same e2 by (metis (no_types))
      then show ?thesis
        using e1(1) by (auto simp add: set_watch_files)
    qed
  qed
  then show "x \<in> ?L"
    using nr by simp
qed

lemma watcher_core: "core s' = core s \<Longrightarrow> watcher s' = watcher s"
  by (simp add: core_def)

lemma watcher_discover: "watcher (discover w s) = watcher s"
  by (simp add: discover_def logger_def split: option.splits sum.splits)

lemma watcher_reloaded:
  "watcher (snd (load w (unload w (logger Info ReloadingExtensions s)))) = watcher s"
proof -
  have "watcher (snd (load w (unload w (logger Info ReloadingExtensions s)))) =
        watcher (discover w (unload w (logger Info ReloadingExtensions s)))"
    by (rule watcher_core) (rule core_load)
  also have "\<dots> = watcher (unload w (logger Info ReloadingExtensions s))"
    by (rule watcher_discover)
  also have "\<dots> = watcher (logger Info ReloadingExtensions s)"
    by (rule watcher_core) (rule core_unload)
  finally show ?thesis by (simp add: logger_def)
qed

lemma watcher_logger: "watcher (logger l m s) = watcher s"
  by (simp add: logger_def)

lemma reload_result:
  assumes "isLoaded s" "watcher s = Some tracked"
    and "fst (load w (unload w (logger Info ReloadingExtensions s))) = None"
    and "toPackageExtensionPaths w (added_extensions (extensions s)
           (extensions (snd (load w (unload w (logger Info ReloadingExtensions s)))))) = Inr ap"
    and "toPackageExtensionPaths w (removed_extensions (extensions s)
           (extensions (snd (load w (unload w (logger Info ReloadingExtensions s)))))) = Inr rp"
  shows "fst (reload w s) = None \<and>
         watcher (snd (reload w s)) = Some (watcher_unwatch rp (watcher_add ap tracked)) \<and>
         extensions (snd (reload w s)) =
           extensions (snd (load w (unload w (logger Info ReloadingExtensions s))))"
proof -
  let ?s2 = "snd (load w (unload w (logger Info ReloadingExtensions s)))"
  have u: "updateWatchedExtensions w (added_extensions (extensions s) (extensions ?s2))
             (removed_extensions (extensions s) (extensions ?s2)) ?s2 =
           (None, ?s2\<lparr>watcher := Some (watcher_unwatch rp (watcher_add ap tracked))\<rparr>)"
    by (simp add: updateWatchedExtensions_def watcher_reloaded assms(2,4,5))
  show ?thesis
    unfolding reload_load_returns [OF assms(1,3)] Let_def
    by (simp add: u watcher_logger extensions_logger)
qed

lemma state_watching_eq:
  "state_watching =
     (new_ExtensionManager world_my_hook)
       \<lparr>isLoaded := True,
        extensions := [my_hook],
        watcher := Some [''package.json'', ''extensions/hooks/*/index.js'',
           ''extensions/endpoints/*/index.js'', ''extensions/storages/*/index.js'',
           ''extensions/operations/*/app.js'', ''extensions/operations/*/api.js'',
           ''/app/node_modules/directus-extension-my-hook/dist/index.js''],
        logs := [(Info, WatchingExtensions),
                 (Warn, CouldntRegisterHook ''directus-extension-my-hook''),
                 (Warn, Thrown (JsError ''Cannot find module'')),
                 (Info, LoadedExtensions [''directus-extension-my-hook''])],
        watchers_created := 1\<rparr>"
  by (simp add: state_watching_def initialize_def initializeWatcher_def localExtensionPaths_def
      load_def discover_def getExtensions_def registerHooks_def registerHooks_try_def
      registerEndpoints_def registerStorages_def registerOperations_def internalOperations_def
      updateWatchedExtensions_def toPackageExtensionPaths_def extension_files_def
      isExtensionObject_def isHybridExtension_def watcher_add_def watcher_unwatch_def
      getExtensionsList_def pluralize_def
      API_EXTENSION_TYPES_def API_WITHOUT_HYBRID_EXTENSION_TYPES_def HYBRID_EXTENSION_TYPES_def
      PACK_EXTENSION_TYPE_def logger_def defaultOptions_def no_options_def
      world_my_hook_def world0_def my_hook_def new_ExtensionManager_def Let_def)

lemma state_watching_facts:
  "isLoaded state_watching"
  "extensions state_watching = [my_hook]"
  "watcher state_watching =
     Some [''package.json'', ''extensions/hooks/*/index.js'', ''extensions/endpoints/*/index.js'',
           ''extensions/storages/*/index.js'', ''extensions/operations/*/app.js'',
           ''extensions/operations/*/api.js'',
           ''/app/node_modules/directus-extension-my-hook/dist/index.js'']"
  by (simp_all add: state_watching_eq)

lemma extensions_reloaded:
  assumes "ensureExtensionDirs w (EXTENSIONS_PATH w)
             (if SERVE_APP w then EXTENSION_TYPES else API_EXTENSION_TYPES) = None"
    and "getExtensions w = Inr found"
  shows "extensions (snd (load w (unload w (logger Info ReloadingExtensions s)))) = found"
  using assms by (simp add: extensions_load discover_def)

lemma reload_unchanged:
  assumes "extensions (snd (reload w s)) = extensions s"
  shows "watcher (snd (reload w s)) = watcher s"
proof (cases "isLoaded s")
  case False
  then show ?thesis by (simp add: reload_def watcher_logger)
next
  case True
  let ?s2 = "snd (load w (unload w (logger Info ReloadingExtensions s)))"
  have e: "extensions ?s2 = extensions s"
    using assms extensions_reload [OF True, of w] by simp
  show ?thesis
  proof (cases "watcher s")
    case None
    then show ?thesis
      using watch_part_reload [of w s] by (simp add: watch_part_def)
  next
    case (Some tracked)
    show ?thesis
    proof (cases "fst (load w (unload w (logger Info ReloadingExtensions s)))")
      case None
      have "watcher (snd (reload w s)) = Some (watcher_unwatch [] (watcher_add [] tracked))"
        using reload_result [OF True Some None, of "[]" "[]"]
        by (simp add: e unchanged_nothing_added unchanged_nothing_removed toPackageExtensionPaths_def)
      then show ?thesis
        by (simp add: Some watcher_unwatch_def watcher_add_def)
    next
      case (Some err)
      show ?thesis
        by (simp add: reload_load_rejects [OF True Some] watcher_reloaded)
    qed
  qed
qed

text \<open>
  C5 as stated does not hold: the diff compares paths only. Here the one package
  extension keeps its path while its manifest moves the entrypoint from
  \<open>dist/index.js\<close> to \<open>build/index.js\<close>; the reload adds and removes nothing, so the
  watcher still tracks the old file and not the new one, which is the set computed
  fresh from the new list.
\<close>

theorem reload_watch_set_counterexample:
  "extensions state_watching = [my_hook] \<and>
   extensions (snd (reload world_my_hook_moved state_watching)) = [my_hook_moved] \<and>
   watcher (snd (reload world_my_hook_moved state_watching)) =
     Some [''package.json'', ''extensions/hooks/*/index.js'', ''extensions/endpoints/*/index.js'',
           ''extensions/storages/*/index.js'', ''extensions/operations/*/app.js'',
           ''extensions/operations/*/api.js'',
           ''/app/node_modules/directus-extension-my-hook/dist/index.js''] \<and>
   toPackageExtensionPaths world_my_hook_moved
       (extensions (snd (reload world_my_hook_moved state_watching))) =
     Inr [''/app/node_modules/directus-extension-my-hook/build/index.js'']"
proof -
  have e: "extensions (snd (load world_my_hook_moved
             (unload world_my_hook_moved (logger Info ReloadingExtensions state_watching)))) =
           [my_hook_moved]"
    by (rule extensions_reloaded)
       (simp_all add: getExtensions_def world_my_hook_moved_def world0_def)
  have p: "ext_path my_hook_moved = ext_path my_hook"
    by (simp add: my_hook_moved_def)
  have c: "fst (load world_my_hook_moved
             (unload world_my_hook_moved (logger Info ReloadingExtensions state_watching))) = None"
    by (simp add: load_completes world_my_hook_moved_def world0_def)
  have r: "fst (reload world_my_hook_moved state_watching) = None \<and>
     watcher (snd (reload world_my_hook_moved state_watching)) =
       Some (watcher_unwatch [] (watcher_add []
         [''package.json'', ''extensions/hooks/*/index.js'', ''extensions/endpoints/*/index.js'',
          ''extensions/storages/*/index.js'', ''extensions/operations/*/app.js'',
          ''extensions/operations/*/api.js'',
          ''/app/node_modules/directus-extension-my-hook/dist/index.js''])) \<and>
     extensions (snd (reload world_my_hook_moved state_watching)) =
       extensions (snd (load world_my_hook_moved
         (unload world_my_hook_moved (logger Info ReloadingExtensions state_watching))))"
    by (rule reload_result)
       (simp_all add: state_watching_facts e added_extensions_def removed_extensions_def p
          toPackageExtensionPaths_def c)
  have f: "toPackageExtensionPaths world_my_hook_moved [my_hook_moved] =
           Inr [''/app/node_modules/directus-extension-my-hook/build/index.js'']"
    by (simp add: toPackageExtensionPaths_def extension_files_def isExtensionObject_def
        HYBRID_EXTENSION_TYPES_def PACK_EXTENSION_TYPE_def my_hook_moved_def my_hook_def
        world_my_hook_moved_def world0_def)
  show ?thesis
    using r by (simp add: e f state_watching_facts watcher_unwatch_def watcher_add_def)
qed

text \<open>
  C5, amended: the added list is the descriptors of the new list whose path matches no
  descriptor of the old one, the removed list the descriptors of the old list whose path
  matches no descriptor of the new one, and for an unchanged list both are empty and the
  reload leaves the watcher as it was. When the watcher tracks, besides some other
  entries, what the old list contributes (the manifest of a pack, both entrypoint files
  of a hybrid extension, the single entrypoint file of any other, nothing for a local
  one), then after the reload it tracks those entries and what the new list contributes,
  provided that the \<open>load\<close> of the reload returns, that descriptors with the same
  path in the two lists contribute the same files and that no file of a removed
  descriptor is among the other entries or contributed by the new list. When the
  \<open>load\<close> of the reload rejects, the reload job rejects with the same error before
  the update, and the watcher is left as it was.
\<close>

theorem reload_watch_set:
  "added_extensions S1 S2 = filter (\<lambda>e. ext_path e \<notin> ext_path ` set S1) S2 \<and>
   removed_extensions S1 S2 = filter (\<lambda>p. ext_path p \<notin> ext_path ` set S2) S1 \<and>
   added_extensions S S = [] \<and> removed_extensions S S = [] \<and>
   (extensions (snd (reload w s)) = extensions s \<longrightarrow> watcher (snd (reload w s)) = watcher s) \<and>
   (isLoaded s \<and> fst (load w (unload w (logger Info ReloadingExtensions s))) = None \<and>
    watcher s = Some tracked \<and>
    set tracked = B \<union> set (watch_files w (extensions s)) \<and>
    (\<forall>e \<in> set (extensions s) \<union> set (extensions (snd (reload w s))). well_typed e) \<and>
    (\<forall>e1 \<in> set (extensions s). \<forall>e2 \<in> set (extensions (snd (reload w s))).
        ext_path e1 = ext_path e2 \<longrightarrow> set (contributes w e1) = set (contributes w e2)) \<and>
    (\<forall>r \<in> set (removed_extensions (extensions s) (extensions (snd (reload w s)))).
        set (contributes w r) \<inter> (B \<union> set (watch_files w (extensions (snd (reload w s))))) = {})
    \<longrightarrow>
      fst (reload w s) = None \<and>
      toPackageExtensionPaths w (extensions (snd (reload w s))) =
        Inr (watch_files w (extensions (snd (reload w s)))) \<and>
      (\<exists>tracked'. watcher (snd (reload w s)) = Some tracked' \<and>
         set tracked' = B \<union> set (watch_files w (extensions (snd (reload w s)))))) \<and>
   (isLoaded s \<and> fst (load w (unload w (logger Info ReloadingExtensions s))) = Some err
    \<longrightarrow> fst (reload w s) = Some err \<and> watcher (snd (reload w s)) = watcher s)"
proof -
  have 1: "added_extensions S1 S2 = filter (\<lambda>e. ext_path e \<notin> ext_path ` set S1) S2"
    unfolding added_extensions_def list_ex_iff by (rule filter_cong) auto
  have 2: "removed_extensions S1 S2 = filter (\<lambda>p. ext_path p \<notin> ext_path ` set S2) S1"
    unfolding removed_extensions_def list_ex_iff by (rule filter_cong) auto
  have 6: "fst (reload w s) = None \<and>
      toPackageExtensionPaths w (extensions (snd (reload w s))) =
        Inr (watch_files w (extensions (snd (reload w s)))) \<and>
      (\<exists>tracked'. watcher (snd (reload w s)) = Some tracked' \<and>
         set tracked' = B \<union> set (watch_files w (extensions (snd (reload w s)))))"
    if l: "isLoaded s" and c: "fst (load w (unload w (logger Info ReloadingExtensions s))) = None"
      and t: "watcher s = Some tracked"
      and b: "set tracked = B \<union> set (watch_files w (extensions s))"
      and wt: "\<forall>e \<in> set (extensions s) \<union> set (extensions (snd (reload w s))). well_typed e"
      and same: "\<forall>e1 \<in> set (extensions s). \<forall>e2 \<in> set (extensions (snd (reload w s))).
        ext_path e1 = ext_path e2 \<longrightarrow> set (contributes w e1) = set (contributes w e2)"
      and apart: "\<forall>r \<in> set (removed_extensions (extensions s) (extensions (snd (reload w s)))).
        set (contributes w r) \<inter> (B \<union> set (watch_files w (extensions (snd (reload w s))))) = {}"
  proof -
    let ?S1 = "extensions s"
    let ?s2 = "snd (load w (unload w (logger Info ReloadingExtensions s)))"
    let ?S2 = "extensions ?s2"
    have e: "extensions (snd (reload w s)) = ?S2"
      by (rule extensions_reload [OF l])
    have a: "toPackageExtensionPaths w (added_extensions ?S1 ?S2) =
             Inr (watch_files w (added_extensions ?S1 ?S2))"
      by (rule toPackageExtensionPaths_well_typed) (use wt e in \<open>auto simp add: set_added_extensions\<close>)
    have r: "toPackageExtensionPaths w (removed_extensions ?S1 ?S2) =
             Inr (watch_files w (removed_extensions ?S1 ?S2))"
      by (rule toPackageExtensionPaths_well_typed) (use wt e in \<open>auto simp add: set_removed_extensions\<close>)
    have f: "toPackageExtensionPaths w ?S2 = Inr (watch_files w ?S2)"
      by (rule toPackageExtensionPaths_well_typed) (use wt e in auto)
    note res = reload_result [OF l t c a r]
    have "set (watcher_unwatch (watch_files w (removed_extensions ?S1 ?S2))
                (watcher_add (watch_files w (added_extensions ?S1 ?S2)) tracked)) =
          (B \<union> set (watch_files w ?S1) \<union> set (watch_files w (added_extensions ?S1 ?S2)))
            - set (watch_files w (removed_extensions ?S1 ?S2))"
      by (auto simp add: watcher_unwatch_def watcher_add_def b)
    also have "\<dots> = B \<union> set (watch_files w ?S2)"
      by (rule watch_set_update) (use same apart e in simp_all)
    finally show ?thesis
      using res f by (simp add: e)
  qed
  have 7: "fst (reload w s) = Some err \<and> watcher (snd (reload w s)) = watcher s"
    if "isLoaded s" and "fst (load w (unload w (logger Info ReloadingExtensions s))) = Some err"
    by (simp add: reload_load_rejects [OF that] watcher_reloaded)
  show ?thesis
    by (intro conjI impI)
       (fact 1, fact 2, fact unchanged_nothing_added, fact unchanged_nothing_removed,
        erule reload_unchanged, elim conjE, rule 6 [THEN conjunct1], assumption+,
        elim conjE, rule 6 [THEN conjunct2, THEN conjunct1], assumption+,
        elim conjE, rule 6 [THEN conjunct2, THEN conjunct2], assumption+,
        elim conjE, rule 7 [THEN conjunct1], assumption+,
        elim conjE, rule 7 [THEN conjunct2], assumption+)
qed


theorem reload_watch_set_witness:
  "isLoaded state_watching \<and>
   extensions state_watching = [my_hook] \<and>
   watcher state_watching =
     Some (base_entries @ [''/app/node_modules/directus-extension-my-hook/dist/index.js'']) \<and>
   well_typed my_hook \<and> well_typed my_pack \<and>
   fst (load world_my_pack (unload world_my_pack (logger Info ReloadingExtensions state_watching))) =
     None \<and>
   extensions (snd (reload world_my_pack state_watching)) = [my_pack] \<and>
   removed_extensions [my_hook] [my_pack] = [my_hook] \<and>
   fst (reload world_my_pack state_watching) = None \<and>
   (\<exists>tracked'. watcher (snd (reload world_my_pack state_watching)) = Some tracked' \<and>
      set tracked' = set base_entries \<union>
        {''/app/node_modules/directus-extension-my-pack/package.json''}) \<and>
   extensions (snd (reload world_hook_and_pack state_watching)) = [my_hook, my_pack] \<and>
   added_extensions [my_hook] [my_hook, my_pack] = [my_pack] \<and>
   (\<exists>tracked'. watcher (snd (reload world_hook_and_pack state_watching)) = Some tracked' \<and>
      set tracked' = set base_entries \<union>
        {''/app/node_modules/directus-extension-my-hook/dist/index.js'',
         ''/app/node_modules/directus-extension-my-pack/package.json''}) \<and>
   fst (load world_no_assets (unload world_no_assets (logger Info ReloadingExtensions state_watching))) =
     Some (JsError ''ENOENT'') \<and>
   fst (reload world_no_assets state_watching) = Some (JsError ''ENOENT'') \<and>
   watcher (snd (reload world_no_assets state_watching)) = watcher state_watching"
proof -
  let ?tracked = "base_entries @ [''/app/node_modules/directus-extension-my-hook/dist/index.js'']"
  have l: "isLoaded state_watching"
    by (rule state_watching_facts)
  have x: "extensions state_watching = [my_hook]"
    by (rule state_watching_facts)
  have t: "watcher state_watching = Some ?tracked"
    by (simp add: state_watching_facts base_entries_def)
  have wh: "well_typed my_hook"
    by (simp add: well_typed_def my_hook_def isExtensionObject_def HYBRID_EXTENSION_TYPES_def)
  have wp: "well_typed my_pack"
    by (simp add: well_typed_def my_pack_def PACK_EXTENSION_TYPE_def)
  have ch: "contributes w my_hook =
              [path_resolve w [''/app/node_modules/directus-extension-my-hook'', ''dist/index.js'']]" for w
    by (simp add: contributes_def my_hook_def PACK_EXTENSION_TYPE_def)
  have cp: "contributes w my_pack =
              [path_resolve w [''/app/node_modules/directus-extension-my-pack'', ''package.json'']]" for w
    by (simp add: contributes_def my_pack_def PACK_EXTENSION_TYPE_def)
  have ne: "ext_path my_hook \<noteq> ext_path my_pack"
    by (simp add: my_hook_def my_pack_def)
  have rm: "removed_extensions [my_hook] [my_pack] = [my_hook]"
    using ne by (simp add: removed_extensions_def)
  have ad: "added_extensions [my_hook] [my_hook, my_pack] = [my_pack]"
    using ne by (simp add: added_extensions_def)
  have rm2: "removed_extensions [my_hook] [my_hook, my_pack] = []"
    by (simp add: removed_extensions_def)

  have e1: "extensions (snd (reload world_my_pack state_watching)) = [my_pack]"
    unfolding extensions_reload [OF l]
    by (rule extensions_reloaded) (simp_all add: getExtensions_def world_my_pack_def world0_def)
  have p1: "path_resolve world_my_pack = join ''/''"
    by (simp add: world_my_pack_def world0_def)
  have k1: "fst (load world_my_pack
      (unload world_my_pack (logger Info ReloadingExtensions state_watching))) = None"
    by (simp add: load_completes world_my_pack_def world0_def)
  have h1: "isLoaded state_watching \<and>
    fst (load world_my_pack (unload world_my_pack (logger Info ReloadingExtensions state_watching))) =
      None \<and>
    watcher state_watching = Some ?tracked \<and>
    set ?tracked = set base_entries \<union> set (watch_files world_my_pack (extensions state_watching)) \<and>
    (\<forall>e \<in> set (extensions state_watching) \<union>
         set (extensions (snd (reload world_my_pack state_watching))). well_typed e) \<and>
    (\<forall>e1 \<in> set (extensions state_watching).
       \<forall>e2 \<in> set (extensions (snd (reload world_my_pack state_watching))).
        ext_path e1 = ext_path e2 \<longrightarrow>
        set (contributes world_my_pack e1) = set (contributes world_my_pack e2)) \<and>
    (\<forall>r \<in> set (removed_extensions (extensions state_watching)
                 (extensions (snd (reload world_my_pack state_watching)))).
        set (contributes world_my_pack r) \<inter>
          (set base_entries \<union> set (watch_files world_my_pack
             (extensions (snd (reload world_my_pack state_watching))))) = {})"
    unfolding e1 x rm
    using l t wh wp ne k1
    by (auto simp add: watch_files_def ch cp p1 base_entries_def)
  have c1: "fst (reload world_my_pack state_watching) = None \<and>
      toPackageExtensionPaths world_my_pack (extensions (snd (reload world_my_pack state_watching))) =
        Inr (watch_files world_my_pack (extensions (snd (reload world_my_pack state_watching)))) \<and>
      (\<exists>tracked'. watcher (snd (reload world_my_pack state_watching)) = Some tracked' \<and>
         set tracked' = set base_entries \<union>
           set (watch_files world_my_pack (extensions (snd (reload world_my_pack state_watching)))))"
    by (rule reload_watch_set [where s = state_watching and w = world_my_pack
          and tracked = ?tracked and B = "set base_entries",
          THEN conjunct2, THEN conjunct2, THEN conjunct2, THEN conjunct2, THEN conjunct2,
          THEN conjunct1, THEN mp, OF h1])
  have f1: "set (watch_files world_my_pack [my_pack]) =
            {''/app/node_modules/directus-extension-my-pack/package.json''}"
    by (simp add: watch_files_def cp p1)

  have e2: "extensions (snd (reload world_hook_and_pack state_watching)) = [my_hook, my_pack]"
    unfolding extensions_reload [OF l]
    by (rule extensions_reloaded) (simp_all add: getExtensions_def world_hook_and_pack_def world0_def)
  have p2: "path_resolve world_hook_and_pack = join ''/''"
    by (simp add: world_hook_and_pack_def world0_def)
  have k2: "fst (load world_hook_and_pack
      (unload world_hook_and_pack (logger Info ReloadingExtensions state_watching))) = None"
    by (simp add: load_completes world_hook_and_pack_def world0_def)
  have h2: "isLoaded state_watching \<and>
    fst (load world_hook_and_pack
      (unload world_hook_and_pack (logger Info ReloadingExtensions state_watching))) = None \<and>
    watcher state_watching = Some ?tracked \<and>
    set ?tracked = set base_entries \<union> set (watch_files world_hook_and_pack (extensions state_watching)) \<and>
    (\<forall>e \<in> set (extensions state_watching) \<union>
         set (extensions (snd (reload world_hook_and_pack state_watching))). well_typed e) \<and>
    (\<forall>e1 \<in> set (extensions state_watching).
       \<forall>e2 \<in> set (extensions (snd (reload world_hook_and_pack state_watching))).
        ext_path e1 = ext_path e2 \<longrightarrow>
        set (contributes world_hook_and_pack e1) = set (contributes world_hook_and_pack e2)) \<and>
    (\<forall>r \<in> set (removed_extensions (extensions state_watching)
                 (extensions (snd (reload world_hook_and_pack state_watching)))).
        set (contributes world_hook_and_pack r) \<inter>
          (set base_entries \<union> set (watch_files world_hook_and_pack
             (extensions (snd (reload world_hook_and_pack state_watching))))) = {})"
    unfolding e2 x rm2
    using l t wh wp ne k2
    by (auto simp add: watch_files_def ch cp p2 base_entries_def)
  have c2: "fst (reload world_hook_and_pack state_watching) = None \<and>
      toPackageExtensionPaths world_hook_and_pack
          (extensions (snd (reload world_hook_and_pack state_watching))) =
        Inr (watch_files world_hook_and_pack
          (extensions (snd (reload world_hook_and_pack state_watching)))) \<and>
      (\<exists>tracked'. watcher (snd (reload world_hook_and_pack state_watching)) = Some tracked' \<and>
         set tracked' = set base_entries \<union>
           set (watch_files world_hook_and_pack
             (extensions (snd (reload world_hook_and_pack state_watching)))))"
    by (rule reload_watch_set [where s = state_watching and w = world_hook_and_pack
          and tracked = ?tracked and B = "set base_entries",
          THEN conjunct2, THEN conjunct2, THEN conjunct2, THEN conjunct2, THEN conjunct2,
          THEN conjunct1, THEN mp, OF h2])
  have f2: "set (watch_files world_hook_and_pack [my_hook, my_pack]) =
            {''/app/node_modules/directus-extension-my-hook/dist/index.js'',
             ''/app/node_modules/directus-extension-my-pack/package.json''}"
    by (simp add: watch_files_def ch cp p2)
  note r1 = c1 [unfolded e1 f1]
  note r2 = c2 [unfolded e2 f2]
  have g3: "fst (getSharedDepsMapping world_no_assets APP_SHARED_DEPS s) = Inl (JsError ''ENOENT'')" for s
    by (simp add: getSharedDepsMapping_def world_no_assets_def world0_def)
  have k3: "fst (load world_no_assets
      (unload world_no_assets (logger Info ReloadingExtensions state_watching))) =
      Some (JsError ''ENOENT'')"
    unfolding load_rejects_with generateExtensionBundles_fst [where s' = state_watching] g3
    by (simp add: world_no_assets_def world0_def)
  note r3 = reload_watch_set [where s = state_watching and w = world_no_assets
          and err = "JsError ''ENOENT''",
          THEN conjunct2, THEN conjunct2, THEN conjunct2, THEN conjunct2, THEN conjunct2,
          THEN conjunct2, THEN mp, OF conjI [OF l k3]]
  show ?thesis
    by (intro conjI)
       (fact l, fact x, fact t, fact wh, fact wp, fact k1, fact e1, fact rm, fact r1 [THEN conjunct1],
        fact r1 [THEN conjunct2, THEN conjunct2], fact e2, fact ad,
        fact r2 [THEN conjunct2, THEN conjunct2], fact k3, fact r3 [THEN conjunct1],
        fact r3 [THEN conjunct2])
qed


section \<open>Hooks whose register function completes\<close>

lemma recorded_filters_append:
  "recorded_filters (es @ fs) = recorded_filters es @ recorded_filters fs"
  by (induction es rule: recorded_filters.induct) simp_all

lemma recorded_actions_append:
  "recorded_actions (es @ fs) = recorded_actions es @ recorded_actions fs"
  by (induction es rule: recorded_actions.induct) simp_all

lemma recorded_inits_append:
  "recorded_inits (es @ fs) = recorded_inits es @ recorded_inits fs"
  by (induction es rule: recorded_inits.induct) simp_all

lemma recorded_tasks_append:
  "recorded_tasks (es @ fs) = recorded_tasks es @ recorded_tasks fs"
  by (induction es rule: recorded_tasks.induct) simp_all

lemmas recorded_append =
  recorded_filters_append recorded_actions_append recorded_inits_append recorded_tasks_append

lemma accounted_logger [simp]: "accounted bf ba bi n0 es (logger l m s) = accounted bf ba bi n0 es s"
  by (simp add: accounted_def logger_def)

lemma accounted_registerFunctions:
  assumes "accounted bf ba bi n0 (R @ hb_events hh) s"
    and "registerFunctions w c (hh, s) = (hh', s')"
  shows "accounted bf ba bi n0 (R @ hb_events hh') s'"
proof (cases c)
  case (FilterCall event h)
  then show ?thesis
    using assms by (auto simp add: accounted_def recorded_append onFilter_def)
next
  case (ActionCall event h)
  then show ?thesis
    using assms by (auto simp add: accounted_def recorded_append onAction_def)
next
  case (InitCall event h)
  then show ?thesis
    using assms by (auto simp add: accounted_def recorded_append onInit_def)
next
  case (ScheduleCall cron h)
  then show ?thesis
    using assms
    by (auto simp add: accounted_def recorded_append logger_def split: if_splits)
qed

lemma accounted_register_calls:
  assumes "accounted bf ba bi n0 (R @ hb_events hh) s"
    and "fold (registerFunctions w) cs (hh, s) = (hh', s')"
  shows "accounted bf ba bi n0 (R @ hb_events hh') s'"
  using assms
proof (induction cs arbitrary: hh s)
  case Nil
  then show ?case by simp
next
  case (Cons c cs)
  obtain hh1 s1 where 1: "registerFunctions w c (hh, s) = (hh1, s1)"
    by (cases "registerFunctions w c (hh, s)")
  have "accounted bf ba bi n0 (R @ hb_events hh1) s1"
    by (rule accounted_registerFunctions [OF Cons.prems(1) 1])
  then show ?case
    using Cons.IH [of hh1 s1] Cons.prems(2) by (simp add: 1)
qed

lemma registry_events_register_calls:
  "registry_events (snd (fold (registerFunctions w) cs p)) = registry_events (snd p)"
proof -
  have "apiExtensions (snd (registerFunctions w c p)) = apiExtensions (snd p)" for c p
    by (cases c; cases p) (simp_all add: logger_def)
  then have "apiExtensions (snd (fold (registerFunctions w) cs p)) = apiExtensions (snd p)"
    by (rule fold_frame_snd)
  then show ?thesis by (simp add: registry_events_def)
qed


lemma accounted_apiExtensions [simp]:
  "accounted bf ba bi n0 es (s\<lparr>apiExtensions := a\<rparr>) = accounted bf ba bi n0 es s"
  by (simp add: accounted_def)

lemma registry_events_logger [simp]: "registry_events (logger l m s) = registry_events s"
  by (simp add: registry_events_def logger_def)

lemma accounted_registerHook:
  assumes "accounted bf ba bi n0 (registry_events s) s"
    and "hc_throws register = None \<or> hc_calls register = []"
  shows "accounted bf ba bi n0 (registry_events (snd (registerHook w register path s)))
           (snd (registerHook w register path s))"
proof -
  obtain hh s1 where f:
    "fold (registerFunctions w) (hc_calls register) (\<lparr>hb_path = path, hb_events = []\<rparr>, s) = (hh, s1)"
    by (cases "fold (registerFunctions w) (hc_calls register) (\<lparr>hb_path = path, hb_events = []\<rparr>, s)")
  have r: "registry_events s1 = registry_events s"
    using registry_events_register_calls [of w "hc_calls register"
        "(\<lparr>hb_path = path, hb_events = []\<rparr>, s)"] f by simp
  have a: "accounted bf ba bi n0 (registry_events s @ hb_events hh) s1"
    using accounted_register_calls [of bf ba bi n0 "registry_events s"
        "\<lparr>hb_path = path, hb_events = []\<rparr>" s w "hc_calls register" hh s1] assms(1) f
    by simp
  show ?thesis
  proof (cases "hc_throws register")
    case None
    have "registry_events (s1\<lparr>apiExtensions :=
            (apiExtensions s1)\<lparr>hooks := hooks (apiExtensions s1) @ [hh]\<rparr>\<rparr>) =
          registry_events s @ hb_events hh"
      using r by (simp add: registry_events_def)
    then show ?thesis
      using a by (simp add: registerHook_def f None)
  next
    case (Some err)
    then have "hc_calls register = []"
      using assms(2) by simp
    then have "hh = \<lparr>hb_path = path, hb_events = []\<rparr>" "s1 = s"
      using f by simp_all
    then show ?thesis
      using assms(1) by (simp add: registerHook_def f Some)
  qed
qed

lemma accounted_registerHooks_try:
  assumes "accounted bf ba bi n0 (registry_events s) s" "\<not> throws_partway w hook"
  shows "accounted bf ba bi n0 (registry_events (registerHooks_try w hook s))
           (registerHooks_try w hook s)"
proof (cases "ext_entrypoint hook")
  case (HybridEntrypoint a b)
  then show ?thesis
    using assms(1) by (simp add: registerHooks_try_def)
next
  case (Entrypoint ep)
  show ?thesis
  proof (cases "require_hook w (path_resolve w [ext_path hook, ep])")
    case (Inl err)
    then show ?thesis
      using assms(1) by (simp add: registerHooks_try_def Entrypoint)
  next
    case (Inr exported)
    let ?r = "registerHook w (getModuleDefault exported) (path_resolve w [ext_path hook, ep]) s"
    have c: "hc_throws (getModuleDefault exported) = None \<or> hc_calls (getModuleDefault exported) = []"
      using assms(2) by (auto simp add: throws_partway_def Entrypoint Inr split: option.splits)
    have "accounted bf ba bi n0 (registry_events (snd ?r)) (snd ?r)"
      by (rule accounted_registerHook [OF assms(1) c])
    then show ?thesis
      by (cases ?r) (auto simp add: registerHooks_try_def Entrypoint Inr split: option.splits)
  qed
qed

lemma accounted_fold_registerHooks_try:
  assumes "accounted bf ba bi n0 (registry_events s) s"
    and "\<forall>hook \<in> set hs. \<not> throws_partway w hook"
  shows "accounted bf ba bi n0 (registry_events (fold (registerHooks_try w) hs s))
           (fold (registerHooks_try w) hs s)"
  using assms
proof (induction hs arbitrary: s)
  case Nil
  then show ?case by simp
next
  case (Cons hook hs)
  have "accounted bf ba bi n0 (registry_events (registerHooks_try w hook s))
          (registerHooks_try w hook s)"
    using Cons.prems by (simp add: accounted_registerHooks_try)
  then show ?case
    using Cons.IH [of "registerHooks_try w hook s"] Cons.prems(2) by simp
qed

text \<open>What the other steps of \<open>load\<close> and \<open>unload\<close> leave alone of the hooks' side.\<close>

lemma accounted_hookside:
  assumes "emitter s' = emitter s" "cron_tasks s' = cron_tasks s"
    and "hooks (apiExtensions s') = hooks (apiExtensions s)"
  shows "accounted bf ba bi n0 (registry_events s') s' = accounted bf ba bi n0 (registry_events s) s"
  using assms by (simp add: accounted_def registry_events_def)

lemma hookside_discover:
  "emitter (discover w s) = emitter s \<and> cron_tasks (discover w s) = cron_tasks s \<and>
   hooks (apiExtensions (discover w s)) = hooks (apiExtensions s)"
  by (simp add: discover_def logger_def split: option.splits sum.splits)

lemma hookside_registerEndpoints:
  "emitter (registerEndpoints w s) = emitter s \<and>
   cron_tasks (registerEndpoints w s) = cron_tasks s \<and>
   hooks (apiExtensions (registerEndpoints w s)) = hooks (apiExtensions s)"
  using arg_cong [OF endpoints_blank_registerEndpoints [of w s], of emitter]
    arg_cong [OF endpoints_blank_registerEndpoints [of w s], of cron_tasks]
    arg_cong [OF endpoints_blank_registerEndpoints [of w s], of "\<lambda>s. hooks (apiExtensions s)"]
  by (simp add: endpoints_blank_def)

lemma hookside_registerStorages:
  "emitter (registerStorages w s) = emitter s \<and>
   cron_tasks (registerStorages w s) = cron_tasks s \<and>
   hooks (apiExtensions (registerStorages w s)) = hooks (apiExtensions s)"
  using arg_cong [OF storages_blank_registerStorages [of w s], of emitter]
    arg_cong [OF storages_blank_registerStorages [of w s], of cron_tasks]
    arg_cong [OF storages_blank_registerStorages [of w s], of "\<lambda>s. hooks (apiExtensions s)"]
  by (simp add: storages_blank_def)

lemma hookside_registerOperations:
  "emitter (registerOperations w s) = emitter s \<and>
   cron_tasks (registerOperations w s) = cron_tasks s \<and>
   hooks (apiExtensions (registerOperations w s)) = hooks (apiExtensions s)"
  using arg_cong [OF operations_blank_registerOperations [of w s], of emitter]
    arg_cong [OF operations_blank_registerOperations [of w s], of cron_tasks]
    arg_cong [OF operations_blank_registerOperations [of w s], of "\<lambda>s. hooks (apiExtensions s)"]
  by (simp add: operations_blank_def)

lemma hookside_load:
  "emitter (snd (load w s)) = emitter (registerHooks w (discover w s)) \<and>
   cron_tasks (snd (load w s)) = cron_tasks (registerHooks w (discover w s)) \<and>
   hooks (apiExtensions (snd (load w s))) = hooks (apiExtensions (registerHooks w (discover w s)))"
proof -
  let ?s2 = "registerHooks w (discover w s)"
  let ?s5 = "registerOperations w (registerStorages w (registerEndpoints w ?s2))"
  have 5: "emitter ?s5 = emitter ?s2 \<and> cron_tasks ?s5 = cron_tasks ?s2 \<and>
           hooks (apiExtensions ?s5) = hooks (apiExtensions ?s2)"
    by (simp add: hookside_registerOperations hookside_registerStorages hookside_registerEndpoints)
  obtain l a i where "snd (load w s) = ?s5\<lparr>logs := logs ?s5 @ l, appExtensions := a, isLoaded := i\<rparr>"
    using load_logs by blast
  then have "emitter (snd (load w s)) = emitter ?s5 \<and> cron_tasks (snd (load w s)) = cron_tasks ?s5 \<and>
      hooks (apiExtensions (snd (load w s))) = hooks (apiExtensions ?s5)"
    by simp
  then show ?thesis
    using 5 by simp
qed

lemma accounted_load:
  assumes "hooks (apiExtensions s) = []"
    and "\<forall>hook \<in> set (extensions (discover w s)). ext_type hook = Hook \<longrightarrow> \<not> throws_partway w hook"
  shows "accounted (em_filters (emitter s)) (em_actions (emitter s)) (em_inits (emitter s))
           (length (cron_tasks s)) (registry_events (snd (load w s))) (snd (load w s))"
proof -
  let ?A = "accounted (em_filters (emitter s)) (em_actions (emitter s)) (em_inits (emitter s))
              (length (cron_tasks s))"
  have "?A (registry_events s) s"
    using assms(1) by (simp add: accounted_def registry_events_def)
  then have "?A (registry_events (discover w s)) (discover w s)"
    using accounted_hookside [of "discover w s" s] hookside_discover [of w s] by simp
  then have "?A (registry_events (registerHooks w (discover w s))) (registerHooks w (discover w s))"
    unfolding registerHooks_def
    by (rule accounted_fold_registerHooks_try) (use assms(2) in auto)
  then show ?thesis
    using accounted_hookside [of "snd (load w s)" "registerHooks w (discover w s)"] hookside_load [of w s]
    by simp
qed

text \<open>\<open>unregisterHooks\<close> removes what the registry records, one removal for each record.\<close>

lemma unregister_events:
  "em_filters (emitter (fold unregister_event es s)) =
     fold remove1 (recorded_filters es) (em_filters (emitter s)) \<and>
   em_actions (emitter (fold unregister_event es s)) =
     fold remove1 (recorded_actions es) (em_actions (emitter s)) \<and>
   em_inits (emitter (fold unregister_event es s)) =
     fold remove1 (recorded_inits es) (em_inits (emitter s)) \<and>
   cron_tasks (fold unregister_event es s) = fold task_stop (recorded_tasks es) (cron_tasks s)"
proof (induction es arbitrary: s)
  case Nil
  then show ?case by simp
next
  case (Cons e es)
  show ?case
    by (cases e) (simp_all add: Cons.IH offFilter_def offAction_def offInit_def)
qed

lemma unregisterHooks_events:
  "emitter (unregisterHooks s) = emitter (fold unregister_event (registry_events s) s) \<and>
   cron_tasks (unregisterHooks s) = cron_tasks (fold unregister_event (registry_events s) s)"
proof -
  have h: "fold (\<lambda>hook. fold unregister_event (hb_events hook)) hs s =
        fold unregister_event (concat (map hb_events hs)) s" for hs s
    by (induction hs arbitrary: s) simp_all
  show ?thesis
    unfolding unregisterHooks_def Let_def registry_events_def h by simp
qed

lemma mset_fold_remove1: "mset (fold remove1 xs ys) = mset ys - mset xs"
  by (induction xs arbitrary: ys) simp_all

lemma length_fold_task_stop: "length (fold task_stop ids ts) = length ts"
  by (induction ids arbitrary: ts) (simp_all add: task_stop_def)

lemma running_fold_task_stop:
  assumes "i < length ts"
  shows "task_running (fold task_stop ids ts ! i) = (task_running (ts ! i) \<and> i \<notin> set ids)"
  using assms
proof (induction ids arbitrary: ts)
  case Nil
  then show ?case by simp
next
  case (Cons j ids)
  have l: "i < length (task_stop j ts)"
    using Cons.prems by (simp add: task_stop_def)
  have "task_running (task_stop j ts ! i) = (task_running (ts ! i) \<and> i \<noteq> j)"
    using Cons.prems by (auto simp add: task_stop_def nth_list_update)
  then show ?case
    using Cons.IH [OF l] by auto
qed

lemma hookside_unload:
  "emitter (unload w s) = emitter (unregisterHooks s) \<and>
   cron_tasks (unload w s) = cron_tasks (unregisterHooks s)"
  by (simp add: unload_def Let_def unregisterEndpoints_def unregisterStorages_def
      unregisterOperations_def)

lemma registries_unload:
  "apiExtensions (unload w s) = \<lparr>hooks = [], endpoints = [], storages = [], operations = []\<rparr> \<and>
   endpointRouter (unload w s) = [] \<and> flow_operations (unload w s) = []"
  by (simp add: unload_def Let_def unregisterHooks_def unregisterEndpoints_def
      unregisterStorages_def unregisterOperations_def)

text \<open>
  Where no register function throws partway, every binding is removed again. When the
  hook registry is empty before \<open>load\<close>
  and no hook extension of the cycle throws partway, then after \<open>load\<close> and
  \<open>unload\<close> the host-wide emitter holds the listeners it held before \<open>load\<close> on each
  channel, every task scheduled during \<open>load\<close> is stopped, the tasks that were there
  before are as they were, and the four registries, the router and the operation
  registry are empty.
\<close>

lemma completed_hooks_are_unbound:
  assumes "hooks (apiExtensions s) = []"
    and "\<forall>hook \<in> set (extensions (discover w s)). ext_type hook = Hook \<longrightarrow> \<not> throws_partway w hook"
  shows "mset (em_filters (emitter (unload w (snd (load w s))))) = mset (em_filters (emitter s))"
    and "mset (em_actions (emitter (unload w (snd (load w s))))) = mset (em_actions (emitter s))"
    and "mset (em_inits (emitter (unload w (snd (load w s))))) = mset (em_inits (emitter s))"
    and "length (cron_tasks (unload w (snd (load w s)))) = length (cron_tasks (snd (load w s)))"
    and "length (cron_tasks s) \<le> i \<Longrightarrow> i < length (cron_tasks (snd (load w s))) \<Longrightarrow>
           \<not> task_running (cron_tasks (unload w (snd (load w s))) ! i)"
    and "i < length (cron_tasks s) \<Longrightarrow>
           task_running (cron_tasks (unload w (snd (load w s))) ! i) = task_running (cron_tasks (snd (load w s)) ! i)"
    and "apiExtensions (unload w (snd (load w s))) =
           \<lparr>hooks = [], endpoints = [], storages = [], operations = []\<rparr>"
    and "endpointRouter (unload w (snd (load w s))) = []"
    and "flow_operations (unload w (snd (load w s))) = []"
proof -
  let ?l = "snd (load w s)"
  let ?es = "registry_events ?l"
  have a: "accounted (em_filters (emitter s)) (em_actions (emitter s)) (em_inits (emitter s))
             (length (cron_tasks s)) ?es ?l"
    by (rule accounted_load [OF assms])
  have e: "emitter (unload w ?l) = emitter (fold unregister_event ?es ?l)"
    and c: "cron_tasks (unload w ?l) = fold task_stop (recorded_tasks ?es) (cron_tasks ?l)"
    by (simp_all add: hookside_unload unregisterHooks_events unregister_events)
  show "mset (em_filters (emitter (unload w ?l))) = mset (em_filters (emitter s))"
    using a by (simp add: e unregister_events mset_fold_remove1 accounted_def)
  show "mset (em_actions (emitter (unload w ?l))) = mset (em_actions (emitter s))"
    using a by (simp add: e unregister_events mset_fold_remove1 accounted_def)
  show "mset (em_inits (emitter (unload w ?l))) = mset (em_inits (emitter s))"
    using a by (simp add: e unregister_events mset_fold_remove1 accounted_def)
  show "length (cron_tasks (unload w ?l)) = length (cron_tasks ?l)"
    by (simp add: c length_fold_task_stop)
  show "\<not> task_running (cron_tasks (unload w ?l) ! i)"
    if "length (cron_tasks s) \<le> i" "i < length (cron_tasks ?l)"
    using a that by (simp add: c running_fold_task_stop accounted_def)
  show "task_running (cron_tasks (unload w ?l) ! i) = task_running (cron_tasks ?l ! i)"
    if "i < length (cron_tasks s)"
    using a that by (simp add: c running_fold_task_stop accounted_def)
  show "apiExtensions (unload w ?l) = \<lparr>hooks = [], endpoints = [], storages = [], operations = []\<rparr>"
    "endpointRouter (unload w ?l) = []" "flow_operations (unload w ?l) = []"
    by (simp_all add: registries_unload)
qed

text \<open>Binding records: one for each extension whose registration succeeds.\<close>

lemma apiExtensions_register_calls:
  "apiExtensions (snd (fold (registerFunctions w) cs p)) = apiExtensions (snd p)"
proof -
  have "apiExtensions (snd (registerFunctions w c p)) = apiExtensions (snd p)" for c p
    by (cases c; cases p) (simp_all add: logger_def)
  then show ?thesis
    by (rule fold_frame_snd)
qed

lemma records_logger [simp]: "records (apiExtensions (logger l m s)) = records (apiExtensions s)"
  by (simp add: logger_def)

lemma records_registerHook:
  "records (apiExtensions (snd (registerHook w register path s))) =
   records (apiExtensions s) + (if hc_throws register = None then 1 else 0)"
proof -
  obtain hh s1 where f:
    "fold (registerFunctions w) (hc_calls register) (\<lparr>hb_path = path, hb_events = []\<rparr>, s) = (hh, s1)"
    by (cases "fold (registerFunctions w) (hc_calls register) (\<lparr>hb_path = path, hb_events = []\<rparr>, s)")
  have "apiExtensions s1 = apiExtensions s"
    using apiExtensions_register_calls [of w "hc_calls register"
        "(\<lparr>hb_path = path, hb_events = []\<rparr>, s)"] f by simp
  then show ?thesis
    by (simp add: registerHook_def f records_def split: option.splits)
qed

lemma records_registerHooks_try:
  "records (apiExtensions (registerHooks_try w hook s)) =
   records (apiExtensions s) + (if hook_registers w hook then 1 else 0)"
proof (cases "ext_entrypoint hook")
  case (HybridEntrypoint a b)
  then show ?thesis
    by (simp add: registerHooks_try_def hook_registers_def)
next
  case (Entrypoint ep)
  show ?thesis
  proof (cases "require_hook w (path_resolve w [ext_path hook, ep])")
    case (Inl err)
    then show ?thesis
      by (simp add: registerHooks_try_def hook_registers_def Entrypoint)
  next
    case (Inr exported)
    let ?r = "registerHook w (getModuleDefault exported) (path_resolve w [ext_path hook, ep]) s"
    have "records (apiExtensions (snd ?r)) =
          records (apiExtensions s) + (if hc_throws (getModuleDefault exported) = None then 1 else 0)"
      by (rule records_registerHook)
    moreover have "fst ?r = hc_throws (getModuleDefault exported)"
      by (simp add: registerHook_def split: prod.splits option.splits)
    ultimately show ?thesis
      by (cases ?r) (auto simp add: registerHooks_try_def hook_registers_def Entrypoint Inr
          split: option.splits)
  qed
qed

lemma records_registerEndpoints_try:
  "records (apiExtensions (registerEndpoints_try w endpoint s)) =
   records (apiExtensions s) + (if endpoint_registers w endpoint then 1 else 0)"
  by (simp add: registerEndpoints_try_def registerEndpoint_def endpoint_registers_def records_def
      Let_def logger_def
      split: entrypoint.splits sum.splits option.splits endpoint_config.splits)

lemma records_registerStorages_try:
  "records (apiExtensions (registerStorages_try w storage s)) =
   records (apiExtensions s) + (if storage_registers w storage then 1 else 0)"
  by (simp add: registerStorages_try_def storage_registers_def records_def Let_def logger_def
      split: entrypoint.splits sum.splits)

lemma records_registerOperations_try:
  "records (apiExtensions (registerOperations_try w operation s)) =
   records (apiExtensions s) + (if operation_registers w operation then 1 else 0)"
  by (simp add: registerOperations_try_def registerOperation_def operation_registers_def
      records_def Let_def logger_def split: option.splits sum.splits)

lemma records_fold:
  assumes "\<And>x s. records (apiExtensions (f x s)) = records (apiExtensions s) + (if P x then 1 else 0)"
  shows "records (apiExtensions (fold f xs s)) = records (apiExtensions s) + length (filter P xs)"
  by (induction xs arbitrary: s) (simp_all add: assms)

lemma apiExtensions_discover: "apiExtensions (discover w s) = apiExtensions s"
  by (simp add: discover_def logger_def split: option.splits sum.splits)

lemma records_load_phases:
  "records (apiExtensions (snd (load w s))) =
   records (apiExtensions s) +
   length (filter (hook_registers w) (filter (\<lambda>e. ext_type e = Hook) (extensions (discover w s)))) +
   length (filter (endpoint_registers w) (filter (\<lambda>e. ext_type e = Endpoint) (extensions (discover w s)))) +
   length (filter (storage_registers w) (filter (\<lambda>e. ext_type e = Storage) (extensions (discover w s)))) +
   length (filter (operation_registers w) (internalOperations w)) +
   length (filter (operation_registers w)
     (map operation_of_extension (filter (\<lambda>e. ext_type e = Operation) (extensions (discover w s)))))"
proof -
  let ?d = "discover w s"
  let ?s2 = "registerHooks w ?d"
  let ?s3 = "registerEndpoints w ?s2"
  let ?s4 = "registerStorages w ?s3"
  let ?s5 = "registerOperations w ?s4"
  have e2: "extensions ?s2 = extensions ?d"
    by (rule extensions_registerHooks)
  have e3: "extensions ?s3 = extensions ?d"
    using core_registerEndpoints [of w ?s2] e2 by (simp add: core_def)
  have e4: "extensions ?s4 = extensions ?d"
    using core_registerStorages [of w ?s3] e3 by (simp add: core_def)
  have 2: "records (apiExtensions ?s2) = records (apiExtensions s) +
      length (filter (hook_registers w) (filter (\<lambda>e. ext_type e = Hook) (extensions ?d)))"
    unfolding registerHooks_def
    by (simp add: records_fold [where P = "hook_registers w", OF records_registerHooks_try]
        apiExtensions_discover)
  have 3: "records (apiExtensions ?s3) = records (apiExtensions ?s2) +
      length (filter (endpoint_registers w) (filter (\<lambda>e. ext_type e = Endpoint) (extensions ?d)))"
    unfolding registerEndpoints_def [of w ?s2] e2
    by (rule records_fold [where P = "endpoint_registers w", OF records_registerEndpoints_try])
  have 4: "records (apiExtensions ?s4) = records (apiExtensions ?s3) +
      length (filter (storage_registers w) (filter (\<lambda>e. ext_type e = Storage) (extensions ?d)))"
    unfolding registerStorages_def [of w ?s3] e3
    by (rule records_fold [where P = "storage_registers w", OF records_registerStorages_try])
  have 5: "records (apiExtensions ?s5) = records (apiExtensions ?s4) +
      length (filter (operation_registers w) (internalOperations w)) +
      length (filter (operation_registers w)
        (map operation_of_extension (filter (\<lambda>e. ext_type e = Operation) (extensions ?d))))"
    unfolding registerOperations_def [of w ?s4] Let_def e4
    by (simp add: records_fold [where P = "operation_registers w", OF records_registerOperations_try])
  obtain l a i where "snd (load w s) = ?s5\<lparr>logs := logs ?s5 @ l, appExtensions := a, isLoaded := i\<rparr>"
    using load_logs by blast
  then have "apiExtensions (snd (load w s)) = apiExtensions ?s5"
    by simp
  then show ?thesis
    by (simp add: 2 3 4 5)
qed

lemma registers_by_type:
  "length (filter (registers w) exts) =
   length (filter (hook_registers w) (filter (\<lambda>e. ext_type e = Hook) exts)) +
   length (filter (endpoint_registers w) (filter (\<lambda>e. ext_type e = Endpoint) exts)) +
   length (filter (storage_registers w) (filter (\<lambda>e. ext_type e = Storage) exts)) +
   length (filter (operation_registers w)
     (map operation_of_extension (filter (\<lambda>e. ext_type e = Operation) exts)))"
  by (induction exts) (simp_all add: registers_def)

text \<open>
  After \<open>load\<close> the registry has one more binding record for each discovered
  extension whose registration succeeds, and one for each internal operation that loads.
\<close>

lemma one_record_for_each_registration:
  "records (apiExtensions (snd (load w s))) =
   records (apiExtensions s) +
   length (filter (registers w) (extensions (discover w s))) +
   length (filter (operation_registers w) (internalOperations w))"
  by (simp add: records_load_phases registers_by_type)

end
